theory Spec2Isabelle
  imports Main "HOL-Library.AList"
begin

text \<open>
  A model of the kernel and session client of jupyter-js-services: the managed websocket
  (\<open>KernelSocket\<close>), the kernel object with its futures, comms and status (\<open>Kernel\<close>), the
  loading of comm targets (\<open>utils.loadObject\<close>), the registry of running kernels, and the
  shutdown of a session.  Each definition follows the source function it is named after;
  the properties proved about them come after the definitions.
\<close>

section \<open>Values shared by the kernel client\<close>

text \<open>
  The client is single-threaded JavaScript.  A method either returns or throws; in both
  cases the mutations it made so far stay.  An outcome therefore carries the state that
  was reached, and \<open>Throws\<close> carries the exception as well.
\<close>

datatype js_error =
    TypeError string
  | Error string
  | HostError string

datatype 's outcome = Returns 's | Throws js_error 's

fun state_of :: "'s outcome \<Rightarrow> 's" where
  "state_of (Returns s) = s"
| "state_of (Throws e s) = s"

fun returns :: "'s outcome \<Rightarrow> bool" where
  "returns (Returns s) = True"
| "returns (Throws e s) = False"

fun thrown :: "'s outcome \<Rightarrow> js_error option" where
  "thrown (Returns s) = None"
| "thrown (Throws e s) = Some e"

text \<open>Sequencing of two statements: the second runs only when the first returned.\<close>

fun and_then :: "'s outcome \<Rightarrow> ('s \<Rightarrow> 's outcome) \<Rightarrow> 's outcome" where
  "and_then (Returns s) f = f s"
| "and_then (Throws e s) f = Throws e s"

text \<open>
  \<open>KernelStatus\<close> is declared in \<open>ikernel.ts\<close>; \<open>kernel.ts\<close> uses the seven members below.
\<close>

datatype KernelStatus = Unknown | Starting | Reconnecting | Idle | Busy | Restarting | Dead

text \<open>
  A kernel message as \<open>kernel.ts\<close> reads it.  \<open>content\<close> is untyped in the source; the
  record has the fields the handlers read (\<open>execution_state\<close>, \<open>comm_id\<close>,
  \<open>target_name\<close>, \<open>target_module\<close>) and an opaque payload.  \<open>parent_id\<close> is
  \<open>parent_header.msg_id\<close>: it is \<open>None\<close> for a missing parent header and for the
  empty object \<open>{}\<close> that \<open>createKernelMessage\<close> writes, which both find no future.
\<close>

record IKernelMessageHeader =
  h_username :: string
  h_version :: string
  h_session :: string
  msg_id :: string
  msg_type :: string

record IContent =
  execution_state :: string
  comm_id :: string
  target_name :: string
  target_module :: "string option"
  payload :: string

record IKernelMessage =
  header :: IKernelMessageHeader
  parent_id :: "string option"
  channel :: string
  content :: IContent

text \<open>What \<open>serialize.serialize\<close> yields: a JSON string or a binary buffer.\<close>

datatype wire = Text string | Binary "nat list"


section \<open>KernelSocket\<close>

text \<open>
  The host \<open>WebSocket\<close>.  \<open>sent\<close> lists the frames its \<open>send\<close> accepted, oldest
  first.  Whether the host \<open>send\<close> throws for a frame in a given socket state is not
  decided by \<open>kernel.ts\<close>; it is the parameter \<open>thr\<close> of the functions below.
\<close>

record WebSocket =
  url :: string
  sent :: "wire list"

definition ws_send :: "(WebSocket \<Rightarrow> wire \<Rightarrow> bool) \<Rightarrow> WebSocket \<Rightarrow> wire \<Rightarrow> js_error + WebSocket" where
  "ws_send thr w f =
     (if thr w f then Inl (HostError ''WebSocket.send'') else Inr (w\<lparr>sent := sent w @ [f]\<rparr>))"

text \<open>The private fields of class \<open>KernelSocket\<close>, with their initial values in \<open>new_KernelSocket\<close>.\<close>

record KernelSocket =
  wsUrl :: string
  socket_id :: string
  socket_name :: string
  ws :: "WebSocket option"
  reconnectLimit :: nat
  reconnectAttempt :: nat
  isReady :: bool
  pendingMessages :: "IKernelMessage list"

definition sent_frames :: "KernelSocket \<Rightarrow> wire list" where
  "sent_frames s = (case ws s of None \<Rightarrow> [] | Some w \<Rightarrow> sent w)"

text \<open>\<open>KernelSocket.send\<close>: queue while not ready, else hand the frame to the websocket.\<close>

definition send ::
  "(WebSocket \<Rightarrow> wire \<Rightarrow> bool) \<Rightarrow> (IKernelMessage \<Rightarrow> wire) \<Rightarrow> KernelSocket \<Rightarrow> IKernelMessage
     \<Rightarrow> KernelSocket outcome" where
  "send thr ser s m =
     (if \<not> isReady s then Returns (s\<lparr>pendingMessages := pendingMessages s @ [m]\<rparr>)
      else (case ws s of
              None \<Rightarrow> Throws (TypeError ''this._ws is null'') s
            | Some w \<Rightarrow>
                (case ws_send thr w (ser m) of
                   Inl e \<Rightarrow> Throws e s
                 | Inr w' \<Rightarrow> Returns (s\<lparr>ws := Some w'\<rparr>))))"

text \<open>A caller that passes the messages of a list to \<open>send\<close>, one call after the other.\<close>

fun send_each ::
  "(WebSocket \<Rightarrow> wire \<Rightarrow> bool) \<Rightarrow> (IKernelMessage \<Rightarrow> wire) \<Rightarrow> KernelSocket \<Rightarrow> IKernelMessage list
     \<Rightarrow> KernelSocket outcome" where
  "send_each thr ser s [] = Returns s"
| "send_each thr ser s (m # ms) =
     and_then (send thr ser s m) (\<lambda>s'. send_each thr ser s' ms)"

text \<open>
  \<open>KernelSocket._sendPending\<close>: the loop serialises the head of the queue, sends it, and
  shifts it off only after the send returned.
\<close>

function sendPending ::
  "(WebSocket \<Rightarrow> wire \<Rightarrow> bool) \<Rightarrow> (IKernelMessage \<Rightarrow> wire) \<Rightarrow> KernelSocket \<Rightarrow> KernelSocket outcome" where
  "sendPending thr ser s =
     (case pendingMessages s of
        [] \<Rightarrow> Returns s
      | m # rest \<Rightarrow>
          (case ws s of
             None \<Rightarrow> Throws (TypeError ''this._ws is null'') s
           | Some w \<Rightarrow>
               (case ws_send thr w (ser m) of
                  Inl e \<Rightarrow> Throws e s
                | Inr w' \<Rightarrow> sendPending thr ser (s\<lparr>ws := Some w', pendingMessages := rest\<rparr>))))"
  by pat_completeness auto
termination
  by (relation "measure (\<lambda>(thr, ser, s). length (pendingMessages s))") auto

declare sendPending.simps [simp del]



section \<open>Objects of the kernel module\<close>

text \<open>
  A promise is pending or settled.  References to objects that are shared (sockets, comms,
  promises) are indices into the list that holds them; a reference handed out by the model
  is always in range, and \<open>nth_opt\<close> makes the reads total.
\<close>

datatype 'a pstate = Pending | Fulfilled 'a | Rejected js_error

definition nth_opt :: "'a list \<Rightarrow> nat \<Rightarrow> 'a option" where
  "nth_opt xs i = (if i < length xs then Some (xs ! i) else None)"

text \<open>JavaScript's \<open>a || b\<close> on an optional string: undefined and the empty string are falsy.\<close>

definition or_else :: "string option \<Rightarrow> string \<Rightarrow> string" where
  "or_else a b = (case a of None \<Rightarrow> b | Some x \<Rightarrow> (if x = [] then b else x))"

definition truthy :: "string option \<Rightarrow> bool" where
  "truthy a = (case a of None \<Rightarrow> False | Some x \<Rightarrow> x \<noteq> [])"

text \<open>
  User callbacks are code outside the repository.  A callback is its name and whether it
  throws; a comm target callback also names the \<open>onMsg\<close> and \<open>onClose\<close> handlers it
  installs on the comm it is given.  Callbacks are taken not to call back into the kernel.
\<close>

record handler =
  h_name :: string
  h_throws :: bool

record target =
  cb_name :: string
  cb_onMsg :: "handler option"
  cb_onClose :: "handler option"
  cb_throws :: bool

text \<open>
  The dispose callback a \<open>Comm\<close> is constructed with: \<open>_handleCommOpen\<close> passes one that
  unregisters the captured \<open>content.comm_id\<close>, \<open>connectToComm\<close> one that unregisters
  \<open>comm.commId\<close> as read when the callback runs.
\<close>

datatype dispose_cb = UnregisterId string | UnregisterOwnId

record Comm =
  c_target :: string
  c_id :: "string option"
  c_onClose :: "handler option"
  c_onMsg :: "handler option"
  c_msgFunc :: bool
  c_disposeCb :: "dispose_cb option"

text \<open>
  \<open>KernelFutureHandler\<close> is defined in \<open>kernelfuture.ts\<close>, which is not among the sources.
  \<open>kernel.ts\<close> constructs it with a dispose callback (delete the message id from the
  registry), the message and two flags, and \<open>sendKernelMessage\<close> sets its \<open>onReply\<close> to
  the \<open>resolve\<close> of the promise it returns.  \<open>f_seen\<close> lists the messages handed to
  \<open>handleMsg\<close> so far.  What \<open>handleMsg\<close> does with a message is a parameter of the
  model (\<open>handleMsg\<close> in \<open>env\<close>): whether it invokes \<open>onReply\<close>, and whether the
  future disposes itself.
\<close>

record KernelFutureHandler =
  f_msg :: IKernelMessage
  f_expectReply :: bool
  f_disposeOnDone :: bool
  f_onReply :: "nat option"
  f_seen :: "IKernelMessage list"

record fut_effect =
  fe_reply :: bool
  fe_dispose :: bool

text \<open>
  The promise \<open>_handleCommOpen\<close> stores in \<open>_commPromises\<close>: \<open>o_load\<close> is the state of
  the promise of \<open>loadObject\<close>, \<open>o_result\<close> the state of the promise derived from it by
  \<open>then\<close> (the one that is stored), \<open>o_chain\<close> the reactions that \<open>_handleCommMsg\<close> and
  \<open>_handleCommClose\<close> attached to the stored promise while it was pending, oldest first.
\<close>

datatype reaction = MsgThen IKernelMessage | CloseThen IKernelMessage

record open_promise =
  o_msg :: IKernelMessage
  o_load :: "target pstate"
  o_result :: "nat pstate"
  o_chain :: "reaction list"

text \<open>Promise reaction jobs waiting in the microtask queue.\<close>

datatype job = OpenJob nat | MsgJob nat IKernelMessage | CloseJob nat IKernelMessage

text \<open>What an observer of the kernel object sees, in the order it happens.\<close>

datatype event =
    HandleMsg string IKernelMessage
  | StatusChanged KernelStatus
  | IopubReceived IKernelMessage
  | UnhandledMessage IKernelMessage
  | ConsoleError string
  | ConsoleLog string
  | FutureDisposed string
  | CommDisposed nat
  | TargetCalled string nat IKernelMessage
  | OnMsgCalled string IKernelMessage
  | OnCloseCalled string IKernelMessage
  | SignalsCleared

text \<open>
  The promise a method that talks to the REST API returns: rejected or fulfilled when it
  is created, or waiting for the answer to the request it issued (url and method).  The
  reactions to the answer run after the method has returned.
\<close>

datatype rest_promise = RejectedAtOnce js_error | FulfilledAtOnce string | Awaits string string

text \<open>
  The private fields of class \<open>Kernel\<close>.  The three maps and the target registry are
  \<open>None\<close> when the field is \<open>null\<close>; the maps keep insertion order, as a JavaScript
  \<open>Map\<close> does.  \<open>commObjs\<close>, \<open>opens\<close>, \<open>replies\<close> and \<open>rest\<close> hold the comm
  objects, the comm-open promises, the promises returned by \<open>sendKernelMessage\<close> and the
  promises returned by the REST methods; \<open>uuids\<close> counts the calls of \<open>utils.uuid\<close>.
  \<open>_ajaxSettings\<close> always holds the JSON text the constructor wrote and is left out.
\<close>

record Kernel =
  status :: KernelStatus
  socket :: "nat option"
  futures :: "(string \<times> KernelFutureHandler) list option"
  commPromises :: "(string \<times> nat) list option"
  comms :: "(string \<times> nat) list option"
  targetRegistry :: "(string \<times> target) list option"
  baseUrl :: string
  clientId :: string
  username :: string
  spec :: "string option"
  commObjs :: "Comm list"
  opens :: "open_promise list"
  replies :: "IContent pstate list"
  rest :: "rest_promise list"
  jobs :: "job list"
  uuids :: nat
  trace :: "event list"

text \<open>
  What the module takes from its host and from files that are not among the sources:
  whether the host \<open>WebSocket.send\<close> throws, \<open>serialize.serialize\<close>,
  \<open>validate.validateKernelMessage\<close> (true when it does not throw),
  \<open>KernelFutureHandler.handleMsg\<close>, the sequence of values of \<open>utils.uuid\<close>, whether
  \<open>requirejs\<close> is defined, and the url helpers of \<open>jupyter-js-utils\<close>.
\<close>

record env =
  send_throws :: "WebSocket \<Rightarrow> wire \<Rightarrow> bool"
  serialize :: "IKernelMessage \<Rightarrow> wire"
  validateKernelMessage :: "IKernelMessage \<Rightarrow> bool"
  handleMsg :: "KernelFutureHandler \<Rightarrow> IKernelMessage \<Rightarrow> fut_effect"
  uuid :: "nat \<Rightarrow> string"
  requirejs_defined :: bool
  getBaseUrl :: string
  getWsUrl :: "string \<Rightarrow> string"
  urlPathJoin :: "string list \<Rightarrow> string"
  urlJoinEncode :: "string list \<Rightarrow> string"

record IKernelOptions =
  opt_baseUrl :: "string option"
  opt_wsUrl :: "string option"
  opt_name :: string
  opt_clientId :: "string option"
  opt_username :: "string option"

text \<open>
  The state outside a kernel object: the socket objects, the module-wide store
  \<open>Private.runningKernels\<close> (kernel id to socket), the timers set with \<open>setTimeout\<close>
  (delay in milliseconds, socket whose \<open>_createSocket\<close> will run), the websockets on which
  \<open>close\<close> was called, and the console output of the socket.
\<close>

datatype socket_log = Starting_WebSocket string | Connection_lost nat

record world =
  sockets :: "KernelSocket list"
  runningKernels :: "(string \<times> nat) list"
  timers :: "(nat \<times> nat) list"
  closedWs :: "WebSocket list"
  console :: "socket_log list"

definition put_socket :: "nat \<Rightarrow> KernelSocket \<Rightarrow> world \<Rightarrow> world" where
  "put_socket r s w = w\<lparr>sockets := (sockets w)[r := s]\<rparr>"


section \<open>KernelSocket: construction, disposal, websocket events\<close>

text \<open>
  \<open>KernelSocket._createSocket\<close>.  The session id in the url is \<open>this._clientId\<close>, which
  class \<open>KernelSocket\<close> does not declare, so the text \<open>undefined\<close> is appended.  The host
  constructor \<open>new WebSocket(url)\<close> is taken to return.
\<close>

definition createSocket :: "env \<Rightarrow> nat \<Rightarrow> world \<Rightarrow> world" where
  "createSocket H r w =
     (case nth_opt (sockets w) r of
        None \<Rightarrow> w
      | Some s \<Rightarrow>
          (let partialUrl = urlPathJoin H [wsUrl s, ''api/kernels'', urlJoinEncode H [socket_id s]];
               w1 = w\<lparr>console := console w @ [Starting_WebSocket partialUrl]\<rparr>;
               u = urlPathJoin H [partialUrl, ''channels''] @ ''?session_id='' @ ''undefined''
           in put_socket r (s\<lparr>ws := Some \<lparr>url = u, sent = []\<rparr>\<rparr>) w1))"

text \<open>The constructor of \<open>KernelSocket\<close>; the result is the reference to the new object.\<close>

definition new_KernelSocket :: "env \<Rightarrow> IKernelOptions \<Rightarrow> string \<Rightarrow> world \<Rightarrow> nat \<times> world" where
  "new_KernelSocket H options i w =
     (let baseUrl = or_else (opt_baseUrl options) (getBaseUrl H);
          r = length (sockets w);
          s = \<lparr>wsUrl = or_else (opt_wsUrl options) (getWsUrl H baseUrl),
               socket_id = i,
               socket_name = opt_name options,
               ws = None,
               reconnectLimit = 7,
               reconnectAttempt = 0,
               isReady = False,
               pendingMessages = []\<rparr>;
          w1 = w\<lparr>sockets := sockets w @ [s],
                 runningKernels := AList.update i r (runningKernels w)\<rparr>
      in (r, createSocket H r w1))"

text \<open>\<open>KernelSocket.dispose\<close>: the entry it deletes from the store is keyed by \<open>this._wsUrl\<close>.\<close>

definition KernelSocket_dispose :: "nat \<Rightarrow> world \<Rightarrow> world" where
  "KernelSocket_dispose r w =
     (case nth_opt (sockets w) r of
        None \<Rightarrow> w
      | Some s \<Rightarrow>
          (case ws s of
             None \<Rightarrow> w
           | Some x \<Rightarrow>
               put_socket r (s\<lparr>ws := None\<rparr>)
                 (w\<lparr>runningKernels := AList.delete (wsUrl s) (runningKernels w),
                    closedWs := closedWs w @ [x]\<rparr>)))"

text \<open>\<open>KernelSocket._onWSOpen\<close>.\<close>

definition onWSOpen :: "env \<Rightarrow> nat \<Rightarrow> world \<Rightarrow> world outcome" where
  "onWSOpen H r w =
     (case nth_opt (sockets w) r of
        None \<Rightarrow> Returns w
      | Some s \<Rightarrow>
          (case sendPending (send_throws H) (serialize H) (s\<lparr>reconnectAttempt := 0, isReady := False\<rparr>) of
             Returns s' \<Rightarrow> Returns (put_socket r s' w)
           | Throws e s' \<Rightarrow> Throws e (put_socket r s' w)))"

text \<open>
  \<open>KernelSocket._onWSClose\<close>, the handler of both the close and the error event.  It reads
  \<open>this.status\<close> and calls \<open>this._updateStatus\<close>.  The two members are arguments here:
  \<open>st\<close> is the value read (\<open>None\<close> for \<open>undefined\<close>), \<open>upd\<close> the method (\<open>None\<close> when
  the object has none, so that the call is a \<open>TypeError\<close>).
\<close>

definition call_member ::
  "(string \<Rightarrow> world \<Rightarrow> world outcome) option \<Rightarrow> string \<Rightarrow> world \<Rightarrow> world outcome" where
  "call_member upd a w =
     (case upd of
        None \<Rightarrow> Throws (TypeError ''this._updateStatus is not a function'') w
      | Some f \<Rightarrow> f a w)"

definition onWSClose ::
  "KernelStatus option \<Rightarrow> (string \<Rightarrow> world \<Rightarrow> world outcome) option \<Rightarrow> nat \<Rightarrow> world \<Rightarrow> world outcome" where
  "onWSClose st upd r w =
     (case nth_opt (sockets w) r of
        None \<Rightarrow> Returns w
      | Some s \<Rightarrow>
          if st = Some Dead then Returns w
          else (case ws s of
                  None \<Rightarrow> Throws (TypeError ''this._ws is null'') w
                | Some x \<Rightarrow>
                    (let w1 = put_socket r (s\<lparr>ws := None\<rparr>) w in
                     if reconnectAttempt s < reconnectLimit s then
                       and_then (call_member upd ''reconnecting'' w1)
                         (\<lambda>w2. case nth_opt (sockets w2) r of
                                  None \<Rightarrow> Returns w2
                                | Some s2 \<Rightarrow>
                                    (let timeout = 2 ^ reconnectAttempt s2;
                                         w3 = w2\<lparr>console := console w2 @ [Connection_lost timeout],
                                                 timers := timers w2 @ [(1000 * timeout, r)]\<rparr>
                                     in Returns (put_socket r
                                          (s2\<lparr>reconnectAttempt := reconnectAttempt s2 + 1\<rparr>) w3)))
                     else call_member upd ''dead'' w1)))"

text \<open>
  Class \<open>KernelSocket\<close> (its fields are the record \<open>KernelSocket\<close> above) declares neither a
  \<open>status\<close> property nor an \<open>_updateStatus\<close> method; both belong to class \<open>Kernel\<close>.
  The handler as it runs on a \<open>KernelSocket\<close> object is therefore:
\<close>

definition KernelSocket_onWSClose :: "nat \<Rightarrow> world \<Rightarrow> world outcome" where
  "KernelSocket_onWSClose = onWSClose None None"


section \<open>Kernel: disposal and status\<close>

type_synonym sys = "Kernel \<times> world"

definition emit :: "event \<Rightarrow> Kernel \<Rightarrow> Kernel" where
  "emit e k = k\<lparr>trace := trace k @ [e]\<rparr>"

definition lift :: "Kernel outcome \<Rightarrow> world \<Rightarrow> sys outcome" where
  "lift r w = (case r of Returns k \<Rightarrow> Returns (k, w) | Throws e k \<Rightarrow> Throws e (k, w))"

definition isDisposed :: "Kernel \<Rightarrow> bool" where
  "isDisposed k = (futures k = None)"

text \<open>\<open>Map.delete\<close> with a key that may be \<open>null\<close> (no string key equals \<open>null\<close>).\<close>

fun del_key :: "string option \<Rightarrow> (string \<times> 'a) list \<Rightarrow> (string \<times> 'a) list" where
  "del_key None xs = xs"
| "del_key (Some i) xs = AList.delete i xs"

text \<open>\<open>Kernel._unregisterComm\<close>.\<close>

definition unregisterComm :: "string option \<Rightarrow> Kernel \<Rightarrow> Kernel outcome" where
  "unregisterComm i k =
     (case comms k of
        None \<Rightarrow> Throws (TypeError ''this._comms is null'') k
      | Some cs \<Rightarrow>
          (case commPromises k of
             None \<Rightarrow> Throws (TypeError ''this._commPromises is null'') (k\<lparr>comms := Some (del_key i cs)\<rparr>)
           | Some ps \<Rightarrow>
               Returns (k\<lparr>comms := Some (del_key i cs), commPromises := Some (del_key i ps)\<rparr>)))"

text \<open>
  \<open>Comm.dispose\<close>: the fields are nulled, then \<open>DisposableDelegate.dispose\<close> runs the
  dispose callback if it has not run before.
\<close>

definition disposed_comm :: "Comm \<Rightarrow> Comm" where
  "disposed_comm cm =
     cm\<lparr>c_onClose := None, c_onMsg := None, c_msgFunc := False, c_id := None, c_disposeCb := None\<rparr>"

definition Comm_dispose :: "nat \<Rightarrow> Kernel \<Rightarrow> Kernel outcome" where
  "Comm_dispose c k =
     (case nth_opt (commObjs k) c of
        None \<Rightarrow> Returns k
      | Some cm \<Rightarrow>
          (let k1 = emit (CommDisposed c) (k\<lparr>commObjs := (commObjs k)[c := disposed_comm cm]\<rparr>)
           in case c_disposeCb cm of
                None \<Rightarrow> Returns k1
              | Some (UnregisterId i) \<Rightarrow> unregisterComm (Some i) k1
              | Some UnregisterOwnId \<Rightarrow> unregisterComm (c_id (disposed_comm cm)) k1))"

text \<open>
  Modelled from the spec: \<open>KernelFutureHandler.dispose\<close> (\<open>kernelfuture.ts\<close> is not among
  the sources).  The spec has a future unregistered on explicit dispose; the only means to
  unregister that \<open>kernel.ts\<close> gives the handler is its dispose callback, which deletes the
  message id from \<open>_futures\<close>.
\<close>

definition Future_dispose :: "string \<Rightarrow> Kernel \<Rightarrow> Kernel outcome" where
  "Future_dispose i k =
     (let k1 = emit (FutureDisposed i) k in
      case futures k1 of
        None \<Rightarrow> Throws (TypeError ''this._futures is null'') k1
      | Some fs \<Rightarrow> Returns (k1\<lparr>futures := Some (AList.delete i fs)\<rparr>))"

text \<open>
  The two \<open>forEach\<close> loops of \<open>dispose\<close>, over the entries in insertion order.  A dispose
  callback deletes the entry of the object it belongs to and no other, so no entry is
  removed from a map before its loop reaches it.
\<close>

fun dispose_futures :: "(string \<times> KernelFutureHandler) list \<Rightarrow> Kernel \<Rightarrow> Kernel outcome" where
  "dispose_futures [] k = Returns k"
| "dispose_futures (p # ps) k = and_then (Future_dispose (fst p) k) (dispose_futures ps)"

fun dispose_comms :: "(string \<times> nat) list \<Rightarrow> Kernel \<Rightarrow> Kernel outcome" where
  "dispose_comms [] k = Returns k"
| "dispose_comms (p # ps) k = and_then (Comm_dispose (snd p) k) (dispose_comms ps)"

text \<open>\<open>Kernel.dispose\<close>.\<close>

definition Kernel_dispose :: "sys \<Rightarrow> sys outcome" where
  "Kernel_dispose = (\<lambda>(k, w).
     if isDisposed k then Returns (k, w)
     else (let k1 = k\<lparr>status := Dead\<rparr> in
           case socket k1 of
             None \<Rightarrow> Throws (TypeError ''this._socket is null'') (k1, w)
           | Some r \<Rightarrow>
               (let w1 = KernelSocket_dispose r w in
                case futures k1 of
                  None \<Rightarrow> Throws (TypeError ''this._futures is null'') (k1, w1)
                | Some fs \<Rightarrow>
                    (case dispose_futures fs k1 of
                       Throws e k2 \<Rightarrow> Throws e (k2, w1)
                     | Returns k2 \<Rightarrow>
                         (case comms k2 of
                            None \<Rightarrow> Throws (TypeError ''this._comms is null'') (k2, w1)
                          | Some cs \<Rightarrow>
                              (case dispose_comms cs k2 of
                                 Throws e k3 \<Rightarrow> Throws e (k3, w1)
                               | Returns k3 \<Rightarrow>
                                   Returns (emit SignalsCleared
                                              (k3\<lparr>futures := None, commPromises := None,
                                                  comms := None, status := Dead,
                                                  targetRegistry := None\<rparr>), w1)))))))"

text \<open>The \<open>switch\<close> of \<open>_updateStatus\<close>; \<open>None\<close> is its \<open>default\<close> branch.\<close>

definition status_of_state :: "string \<Rightarrow> KernelStatus option" where
  "status_of_state state =
     (if state = ''starting'' then Some Starting
      else if state = ''idle'' then Some Idle
      else if state = ''busy'' then Some Busy
      else if state = ''restarting'' then Some Restarting
      else if state = ''reconnecting'' then Some Reconnecting
      else if state = ''dead'' then Some Dead
      else None)"

text \<open>\<open>Private.logKernelStatus\<close>; it reads \<open>kernel.id\<close>, which is \<open>this._socket.id\<close>.\<close>

definition status_text :: "KernelStatus \<Rightarrow> string" where
  "status_text st =
     (case st of Starting \<Rightarrow> ''starting'' | Restarting \<Rightarrow> ''restarting'' | Dead \<Rightarrow> ''dead'' | _ \<Rightarrow> [])"

definition logKernelStatus :: "sys \<Rightarrow> sys outcome" where
  "logKernelStatus = (\<lambda>(k, w).
     if status k = Idle \<or> status k = Busy \<or> status k = Unknown then Returns (k, w)
     else (case socket k of
             None \<Rightarrow> Throws (TypeError ''this._socket is null'') (k, w)
           | Some r \<Rightarrow>
               (case nth_opt (sockets w) r of
                  None \<Rightarrow> Returns (k, w)
                | Some s \<Rightarrow>
                    Returns (emit (ConsoleLog (''Kernel: '' @ status_text (status k) @ '' ('' @ socket_id s @ '')'')) k,
                             w))))"

text \<open>\<open>Kernel._updateStatus\<close>.\<close>

definition updateStatus :: "string \<Rightarrow> sys \<Rightarrow> sys outcome" where
  "updateStatus state = (\<lambda>(k, w).
     case status_of_state state of
       None \<Rightarrow> Returns (emit (ConsoleError ''invalid kernel status:'') k, w)
     | Some st \<Rightarrow>
         if st \<noteq> status k then
           and_then (logKernelStatus (k\<lparr>status := st\<rparr>, w))
             (\<lambda>(k1, w1).
                let k2 = emit (StatusChanged st) k1 in
                if st = Dead then Kernel_dispose (k2, w1) else Returns (k2, w1))
         else Returns (k, w))"

text \<open>
  Calls of \<open>_updateStatus\<close> for a sequence of states.  Each call is made on its own (by
  the handler of one message), so a call that throws does not keep the later ones from
  running on the state it left.
\<close>

fun updateStatus_each :: "string list \<Rightarrow> sys \<Rightarrow> sys" where
  "updateStatus_each [] x = x"
| "updateStatus_each (state # states) x = updateStatus_each states (state_of (updateStatus state x))"


section \<open>Kernel: sending\<close>

definition empty_content :: IContent where
  "empty_content =
     \<lparr>execution_state = [], comm_id = [], target_name = [], target_module = None, payload = []\<rparr>"

text \<open>\<open>createKernelMessage\<close> as the kernel methods call it (no \<open>msgId\<close> option).\<close>

definition createKernelMessage ::
  "env \<Rightarrow> string \<Rightarrow> string \<Rightarrow> IContent \<Rightarrow> Kernel \<Rightarrow> IKernelMessage \<times> Kernel" where
  "createKernelMessage H msgType chan c k =
     (\<lparr>header = \<lparr>h_username = username k, h_version = ''5.0'', h_session = clientId k,
                  msg_id = uuid H (uuids k), msg_type = msgType\<rparr>,
        parent_id = None, channel = chan, content = c\<rparr>,
      k\<lparr>uuids := uuids k + 1\<rparr>)"

text \<open>The call \<open>this._socket.send(msg)\<close>.\<close>

definition socket_send :: "env \<Rightarrow> nat option \<Rightarrow> IKernelMessage \<Rightarrow> world \<Rightarrow> world outcome" where
  "socket_send H so m w =
     (case so of
        None \<Rightarrow> Throws (TypeError ''this._socket is null'') w
      | Some r \<Rightarrow>
          (case nth_opt (sockets w) r of
             None \<Rightarrow> Returns w
           | Some s \<Rightarrow>
               (case send (send_throws H) (serialize H) s m of
                  Returns s' \<Rightarrow> Returns (put_socket r s' w)
                | Throws e s' \<Rightarrow> Throws e (put_socket r s' w))))"

text \<open>\<open>Kernel.sendShellMessage\<close>; the future it returns is the entry it puts in the map.\<close>

definition sendShellMessage :: "env \<Rightarrow> IKernelMessage \<Rightarrow> bool \<Rightarrow> bool \<Rightarrow> sys \<Rightarrow> sys outcome" where
  "sendShellMessage H m expectReply disposeOnDone = (\<lambda>(k, w).
     if status k = Dead then Throws (Error ''Kernel is dead'') (k, w)
     else (case socket_send H (socket k) m w of
             Throws e w1 \<Rightarrow> Throws e (k, w1)
           | Returns w1 \<Rightarrow>
               (case futures k of
                  None \<Rightarrow> Throws (TypeError ''this._futures is null'') (k, w1)
                | Some fs \<Rightarrow>
                    Returns (k\<lparr>futures := Some (AList.update (msg_id (header m))
                                \<lparr>f_msg = m, f_expectReply = expectReply,
                                 f_disposeOnDone = disposeOnDone, f_onReply = None, f_seen = []\<rparr> fs)\<rparr>,
                             w1))))"

text \<open>
  \<open>Private.sendKernelMessage\<close>.  The promise it returns is the new last entry of
  \<open>replies\<close>: rejected at once when \<open>sendShellMessage\<close> threw, else pending with its
  \<open>resolve\<close> stored as the \<open>onReply\<close> of the future.  The \<open>reject\<close> of the executor is
  not stored anywhere.
\<close>

definition sendKernelMessage :: "env \<Rightarrow> IKernelMessage \<Rightarrow> sys \<Rightarrow> sys" where
  "sendKernelMessage H m x =
     (case sendShellMessage H m True True x of
        Throws e (k, w) \<Rightarrow> (k\<lparr>replies := replies k @ [Rejected e]\<rparr>, w)
      | Returns (k, w) \<Rightarrow>
          (k\<lparr>replies := replies k @ [Pending],
             futures := map_option
                 (AList.map_entry (msg_id (header m)) (\<lambda>f. f\<lparr>f_onReply := Some (length (replies k))\<rparr>))
                 (futures k)\<rparr>, w))"

definition request :: "env \<Rightarrow> string \<Rightarrow> IContent \<Rightarrow> sys \<Rightarrow> sys" where
  "request H msgType c = (\<lambda>(k, w).
     case createKernelMessage H msgType ''shell'' c k of (m, k1) \<Rightarrow> sendKernelMessage H m (k1, w))"

definition kernelInfo :: "env \<Rightarrow> sys \<Rightarrow> sys" where
  "kernelInfo H = request H ''kernel_info_request'' empty_content"

definition complete :: "env \<Rightarrow> IContent \<Rightarrow> sys \<Rightarrow> sys" where
  "complete H contents = request H ''complete_request'' contents"

definition inspect :: "env \<Rightarrow> IContent \<Rightarrow> sys \<Rightarrow> sys" where
  "inspect H contents = request H ''inspect_request'' contents"

definition history :: "env \<Rightarrow> IContent \<Rightarrow> sys \<Rightarrow> sys" where
  "history H contents = request H ''history_request'' contents"

definition isComplete :: "env \<Rightarrow> IContent \<Rightarrow> sys \<Rightarrow> sys" where
  "isComplete H contents = request H ''is_complete_request'' contents"

definition commInfo :: "env \<Rightarrow> IContent \<Rightarrow> sys \<Rightarrow> sys" where
  "commInfo H contents = request H ''comm_info_request'' contents"

text \<open>\<open>Kernel.execute\<close>; the defaults it merges into the contents are part of the payload.\<close>

definition execute :: "env \<Rightarrow> IContent \<Rightarrow> bool \<Rightarrow> sys \<Rightarrow> sys outcome" where
  "execute H contents disposeOnDone = (\<lambda>(k, w).
     case createKernelMessage H ''execute_request'' ''shell'' contents k of
       (m, k1) \<Rightarrow> sendShellMessage H m True disposeOnDone (k1, w))"

text \<open>\<open>Kernel.sendInputReply\<close>.\<close>

definition sendInputReply :: "env \<Rightarrow> IContent \<Rightarrow> sys \<Rightarrow> sys outcome" where
  "sendInputReply H contents = (\<lambda>(k, w).
     if status k = Dead then Throws (Error ''Kernel is dead'') (k, w)
     else (case createKernelMessage H ''input_reply'' ''stdin'' contents k of
             (m, k1) \<Rightarrow>
               (case socket_send H (socket k1) m w of
                  Returns w1 \<Rightarrow> Returns (k1, w1)
                | Throws e w1 \<Rightarrow> Throws e (k1, w1))))"

text \<open>\<open>Kernel._sendCommMessage\<close>.\<close>

definition sendCommMessage :: "env \<Rightarrow> string \<Rightarrow> IContent \<Rightarrow> bool \<Rightarrow> sys \<Rightarrow> IKernelMessage \<times> sys outcome" where
  "sendCommMessage H msgType c disposeOnDone = (\<lambda>(k, w).
     case createKernelMessage H msgType ''shell'' c k of
       (m, k1) \<Rightarrow> (m, sendShellMessage H m False disposeOnDone (k1, w)))"

text \<open>A user callback stored in a comm is called with a message, if it is set.\<close>

definition call_handler ::
  "handler option \<Rightarrow> (string \<Rightarrow> IKernelMessage \<Rightarrow> event) \<Rightarrow> IKernelMessage \<Rightarrow> Kernel \<Rightarrow> Kernel outcome" where
  "call_handler ho ev m k =
     (case ho of
        None \<Rightarrow> Returns k
      | Some h \<Rightarrow>
          if h_throws h then Throws (Error (h_name h)) (emit (ev (h_name h) m) k)
          else Returns (emit (ev (h_name h) m) k))"

text \<open>\<open>Comm.close\<close>: sends \<open>comm_close\<close>, calls \<open>onClose\<close> with the sent message, disposes.\<close>

definition Comm_close :: "env \<Rightarrow> nat \<Rightarrow> sys \<Rightarrow> sys outcome" where
  "Comm_close H c = (\<lambda>(k, w).
     case nth_opt (commObjs k) c of
       None \<Rightarrow> Returns (k, w)
     | Some cm \<Rightarrow>
         if \<not> c_msgFunc cm then Returns (k, w)
         else (case sendCommMessage H ''comm_close''
                      (empty_content\<lparr>comm_id := (case c_id cm of None \<Rightarrow> [] | Some i \<Rightarrow> i)\<rparr>) True (k, w) of
                 (m, r) \<Rightarrow>
                   and_then r
                     (\<lambda>(k1, w1). and_then (lift (call_handler (c_onClose cm) OnCloseCalled m k1) w1)
                        (\<lambda>(k2, w2). lift (Comm_dispose c k2) w2))))"


section \<open>Comm targets and the comm handlers\<close>

definition not_found_in_registry :: "string \<Rightarrow> js_error" where
  "not_found_in_registry name = Error (''Object '' @ [CHR 0x27] @ name @ [CHR 0x27] @ '' not found in registry'')"

definition not_found_in_module :: "string \<Rightarrow> string \<Rightarrow> js_error" where
  "not_found_in_module name moduleName =
     Error (''Object '' @ [CHR 0x27] @ name @ [CHR 0x27] @ '' not found in module '' @ [CHR 0x27] @ moduleName @ [CHR 0x27])"

text \<open>
  \<open>utils.loadObject\<close>, up to the point where its executor returns: the state of the promise
  it hands back.  With a module name the promise stays pending until \<open>requirejs\<close> calls
  back (\<open>module_loaded\<close>) or fails; the registry is read only when no module name is given.
\<close>

definition loadObject :: "bool \<Rightarrow> string \<Rightarrow> string option \<Rightarrow> (string \<times> target) list option \<Rightarrow> target pstate" where
  "loadObject rq name moduleName registry =
     (if truthy moduleName then
        (if \<not> rq then Rejected (Error ''requirejs not found'') else Pending)
      else (case registry of
              None \<Rightarrow> Rejected (not_found_in_registry name)
            | Some reg \<Rightarrow>
                (case map_of reg name of
                   Some t \<Rightarrow> Fulfilled t
                 | None \<Rightarrow> Rejected (not_found_in_registry name))))"

text \<open>The callback \<open>loadObject\<close> passes to \<open>requirejs\<close>, given the exports of the module.\<close>

definition module_loaded :: "string \<Rightarrow> string \<Rightarrow> (string \<times> target) list \<Rightarrow> target pstate" where
  "module_loaded name moduleName exports =
     (case map_of exports name of
        None \<Rightarrow> Rejected (not_found_in_module name moduleName)
      | Some t \<Rightarrow> Fulfilled t)"

text \<open>\<open>Kernel._handleCommOpen\<close>.\<close>

definition handleCommOpen :: "env \<Rightarrow> IKernelMessage \<Rightarrow> Kernel \<Rightarrow> Kernel outcome" where
  "handleCommOpen H m k =
     (let c = content m;
          load = loadObject (requirejs_defined H) (target_name c) (target_module c) (targetRegistry k);
          p = length (opens k);
          k1 = k\<lparr>opens := opens k @ [\<lparr>o_msg = m, o_load = load, o_result = Pending, o_chain = []\<rparr>],
                 jobs := (if load = Pending then jobs k else jobs k @ [OpenJob p])\<rparr>
      in case commPromises k1 of
           None \<Rightarrow> Throws (TypeError ''this._commPromises is null'') k1
         | Some ps \<Rightarrow> Returns (k1\<lparr>commPromises := Some (AList.update (comm_id c) p ps)\<rparr>))"

text \<open>
  \<open>promise.then(cb)\<close> on a stored comm-open promise: the reaction waits while the promise
  is pending, is queued as a job when it is fulfilled, and never runs when it is rejected.
\<close>

fun job_of :: "nat \<Rightarrow> reaction \<Rightarrow> job" where
  "job_of c (MsgThen m) = MsgJob c m"
| "job_of c (CloseThen m) = CloseJob c m"

definition then_promise :: "nat \<Rightarrow> reaction \<Rightarrow> Kernel \<Rightarrow> Kernel" where
  "then_promise p rc k =
     (case nth_opt (opens k) p of
        None \<Rightarrow> k
      | Some op \<Rightarrow>
          (case o_result op of
             Pending \<Rightarrow> k\<lparr>opens := (opens k)[p := op\<lparr>o_chain := o_chain op @ [rc]\<rparr>]\<rparr>
           | Fulfilled c \<Rightarrow> k\<lparr>jobs := jobs k @ [job_of c rc]\<rparr>
           | Rejected e \<Rightarrow> k))"

text \<open>\<open>Kernel._handleCommMsg\<close>.\<close>

definition handleCommMsg :: "IKernelMessage \<Rightarrow> Kernel \<Rightarrow> Kernel outcome" where
  "handleCommMsg m k =
     (case commPromises k of
        None \<Rightarrow> Throws (TypeError ''this._commPromises is null'') k
      | Some ps \<Rightarrow>
          (case map_of ps (comm_id (content m)) of
             None \<Rightarrow>
               (case comms k of
                  None \<Rightarrow> Throws (TypeError ''this._comms is null'') k
                | Some cs \<Rightarrow>
                    (case map_of cs (comm_id (content m)) of
                       None \<Rightarrow> Returns (emit (ConsoleError (''Comm not found for comm id '' @ comm_id (content m))) k)
                     | Some c \<Rightarrow>
                         (case nth_opt (commObjs k) c of
                            None \<Rightarrow> Returns k
                          | Some cm \<Rightarrow> call_handler (c_onMsg cm) OnMsgCalled m k)))
           | Some p \<Rightarrow> Returns (then_promise p (MsgThen m) k)))"

text \<open>Calls of \<open>_handleCommMsg\<close> for the messages of a list, one after the other.\<close>

fun handleCommMsg_each :: "IKernelMessage list \<Rightarrow> Kernel \<Rightarrow> Kernel outcome" where
  "handleCommMsg_each [] k = Returns k"
| "handleCommMsg_each (m # ms) k = and_then (handleCommMsg m k) (handleCommMsg_each ms)"

text \<open>\<open>Kernel._handleCommClose\<close>.\<close>

definition handleCommClose :: "IKernelMessage \<Rightarrow> Kernel \<Rightarrow> Kernel outcome" where
  "handleCommClose m k =
     (case commPromises k of
        None \<Rightarrow> Throws (TypeError ''this._commPromises is null'') k
      | Some ps \<Rightarrow>
          (case map_of ps (comm_id (content m)) of
             None \<Rightarrow>
               (case comms k of
                  None \<Rightarrow> Throws (TypeError ''this._comms is null'') k
                | Some cs \<Rightarrow>
                    (case map_of cs (comm_id (content m)) of
                       None \<Rightarrow> Returns (emit (ConsoleError (''Comm not found for comm id '' @ comm_id (content m))) k)
                     | Some c \<Rightarrow> Returns (k\<lparr>jobs := jobs k @ [CloseJob c m]\<rparr>)))
           | Some p \<Rightarrow> Returns (then_promise p (CloseThen m) k)))"


section \<open>Promise reactions\<close>

text \<open>The reaction of \<open>_handleCommMsg\<close>: \<open>onMsg\<close> in a \<open>try\<close>, the exception logged.\<close>

definition run_MsgJob :: "nat \<Rightarrow> IKernelMessage \<Rightarrow> Kernel \<Rightarrow> Kernel" where
  "run_MsgJob c m k =
     (case nth_opt (commObjs k) c of
        None \<Rightarrow> k
      | Some cm \<Rightarrow>
          (case call_handler (c_onMsg cm) OnMsgCalled m k of
             Returns k1 \<Rightarrow> k1
           | Throws e k1 \<Rightarrow> emit (ConsoleError ''Exception handling comm msg: '') k1))"

text \<open>
  The reaction of \<open>_handleCommClose\<close>: unregister, then \<open>onClose\<close> and \<open>dispose\<close> in a
  \<open>try\<close>.  An exception of the unregistering rejects the derived promise, which nobody
  observes.
\<close>

definition run_CloseJob :: "nat \<Rightarrow> IKernelMessage \<Rightarrow> Kernel \<Rightarrow> Kernel" where
  "run_CloseJob c m k =
     (case nth_opt (commObjs k) c of
        None \<Rightarrow> k
      | Some cm \<Rightarrow>
          (case unregisterComm (c_id cm) k of
             Throws e k1 \<Rightarrow> k1
           | Returns k1 \<Rightarrow>
               (case and_then (call_handler (c_onClose cm) OnCloseCalled m k1) (Comm_dispose c) of
                  Returns k2 \<Rightarrow> k2
                | Throws e k2 \<Rightarrow> emit (ConsoleError ''Exception closing comm: '') k2)))"

text \<open>Settling a stored comm-open promise queues the reactions chained to it, in order.\<close>

definition settle :: "nat \<Rightarrow> nat pstate \<Rightarrow> Kernel \<Rightarrow> Kernel" where
  "settle p res k =
     (case nth_opt (opens k) p of
        None \<Rightarrow> k
      | Some op \<Rightarrow>
          k\<lparr>opens := (opens k)[p := op\<lparr>o_result := res\<rparr>],
            jobs := (case res of
                       Fulfilled c \<Rightarrow> jobs k @ map (job_of c) (o_chain op)
                     | _ \<Rightarrow> jobs k)\<rparr>)"

text \<open>
  The reaction of \<open>_handleCommOpen\<close> on the promise of \<open>loadObject\<close>.  When that promise
  was rejected, the stored promise is rejected with the same reason.  Otherwise the
  callback body runs: a new \<open>Comm\<close>, the target callback (which installs its handlers),
  and on its exception \<open>comm.close()\<close>, the log and the rethrow.
\<close>

definition run_OpenJob :: "env \<Rightarrow> nat \<Rightarrow> sys \<Rightarrow> sys" where
  "run_OpenJob H p = (\<lambda>(k, w).
     case nth_opt (opens k) p of
       None \<Rightarrow> (k, w)
     | Some op \<Rightarrow>
         (case o_load op of
            Pending \<Rightarrow> (k, w)
          | Rejected e \<Rightarrow> (settle p (Rejected e) k, w)
          | Fulfilled t \<Rightarrow>
              (let m = o_msg op;
                   i = comm_id (content m);
                   c = length (commObjs k);
                   cm = \<lparr>c_target = target_name (content m), c_id = Some i,
                         c_onClose = cb_onClose t, c_onMsg = cb_onMsg t, c_msgFunc = True,
                         c_disposeCb = Some (UnregisterId i)\<rparr>;
                   k1 = emit (TargetCalled (cb_name t) c m) (k\<lparr>commObjs := commObjs k @ [cm]\<rparr>)
               in if cb_throws t then
                    (case Comm_close H c (k1, w) of
                       Throws e (k2, w2) \<Rightarrow> (settle p (Rejected e) k2, w2)
                     | Returns (k2, w2) \<Rightarrow>
                         (settle p (Rejected (Error (cb_name t)))
                            (emit (ConsoleError ''Exception opening new comm'') k2), w2))
                  else (case commPromises k1 of
                          None \<Rightarrow> (settle p (Rejected (TypeError ''this._commPromises is null'')) k1, w)
                        | Some ps \<Rightarrow>
                            (case comms k1 of
                               None \<Rightarrow>
                                 (settle p (Rejected (TypeError ''this._comms is null''))
                                    (k1\<lparr>commPromises := Some (AList.delete i ps)\<rparr>), w)
                             | Some cs \<Rightarrow>
                                 (settle p (Fulfilled c)
                                    (k1\<lparr>commPromises := Some (AList.delete i ps),
                                        comms := Some (AList.update i c cs)\<rparr>), w))))))"

fun run_job :: "env \<Rightarrow> job \<Rightarrow> sys \<Rightarrow> sys" where
  "run_job H (OpenJob p) x = run_OpenJob H p x"
| "run_job H (MsgJob c m) x = (run_MsgJob c m (fst x), snd x)"
| "run_job H (CloseJob c m) x = (run_CloseJob c m (fst x), snd x)"

text \<open>
  The microtask queue is emptied after each handler.  A job of the first round can queue
  only message and close reactions, which queue nothing; two rounds empty the queue.
\<close>

definition run_round :: "env \<Rightarrow> sys \<Rightarrow> sys" where
  "run_round H x = fold (run_job H) (jobs (fst x)) ((fst x)\<lparr>jobs := []\<rparr>, snd x)"

definition drain :: "env \<Rightarrow> sys \<Rightarrow> sys" where
  "drain H x = run_round H (run_round H x)"

text \<open>
  \<open>requirejs\<close> calls back for the module of a pending comm-open promise \<open>p\<close>: the promise
  of \<open>loadObject\<close> settles, its reaction is queued, the queue is emptied.  \<open>res\<close> is the
  exports of the module, or the error \<open>requirejs\<close> reports.
\<close>

definition module_arrives :: "env \<Rightarrow> nat \<Rightarrow> js_error + (string \<times> target) list \<Rightarrow> sys \<Rightarrow> sys" where
  "module_arrives H p res = (\<lambda>(k, w).
     case nth_opt (opens k) p of
       None \<Rightarrow> (k, w)
     | Some op \<Rightarrow>
         (if o_load op \<noteq> Pending then (k, w)
          else (let c = content (o_msg op);
                    load = (case res of
                              Inl e \<Rightarrow> Rejected e
                            | Inr exports \<Rightarrow>
                                module_loaded (target_name c)
                                  (case target_module c of None \<Rightarrow> [] | Some mn \<Rightarrow> mn) exports)
                in drain H (k\<lparr>opens := (opens k)[p := op\<lparr>o_load := load\<rparr>],
                              jobs := jobs k @ [OpenJob p]\<rparr>, w))))"


section \<open>Kernel: routing of a received message\<close>

definition resolve_reply :: "nat \<Rightarrow> IContent \<Rightarrow> Kernel \<Rightarrow> Kernel" where
  "resolve_reply q c k =
     (case nth_opt (replies k) q of
        Some Pending \<Rightarrow> k\<lparr>replies := (replies k)[q := Fulfilled c]\<rparr>
      | _ \<Rightarrow> k)"

text \<open>
  The call \<open>future.handleMsg(msg)\<close> on the registered future \<open>f\<close> with id \<open>p\<close>: the call
  is recorded, then the handler does what the parameter says with the two things
  \<open>kernel.ts\<close> gave it, the \<open>onReply\<close> callback and the dispose callback.
\<close>

definition Future_handleMsg :: "env \<Rightarrow> string \<Rightarrow> KernelFutureHandler \<Rightarrow> IKernelMessage \<Rightarrow> Kernel \<Rightarrow> Kernel" where
  "Future_handleMsg H p f m k =
     (let k1 = emit (HandleMsg p m) k;
          k2 = k1\<lparr>futures := map_option (AList.map_entry p (\<lambda>g. g\<lparr>f_seen := f_seen g @ [m]\<rparr>)) (futures k1)\<rparr>;
          k3 = (if fe_reply (handleMsg H f m)
                then (case f_onReply f of None \<Rightarrow> k2 | Some q \<Rightarrow> resolve_reply q (content m) k2)
                else k2)
      in if fe_dispose (handleMsg H f m) then state_of (Future_dispose p k3) else k3)"

text \<open>The lookup \<open>this._futures && this._futures.get(parentHeader.msg_id)\<close>.\<close>

definition lookup_future :: "Kernel \<Rightarrow> IKernelMessage \<Rightarrow> (string \<times> KernelFutureHandler) option" where
  "lookup_future k m =
     (case parent_id m of
        None \<Rightarrow> None
      | Some p \<Rightarrow>
          (case futures k of
             None \<Rightarrow> None
           | Some fs \<Rightarrow> (case map_of fs p of None \<Rightarrow> None | Some f \<Rightarrow> Some (p, f))))"

text \<open>The \<open>switch\<close> on the message type of an iopub message.\<close>

definition iopub_switch :: "env \<Rightarrow> IKernelMessage \<Rightarrow> sys \<Rightarrow> sys outcome" where
  "iopub_switch H m = (\<lambda>(k, w).
     if msg_type (header m) = ''status'' then updateStatus (execution_state (content m)) (k, w)
     else if msg_type (header m) = ''comm_open'' then lift (handleCommOpen H m k) w
     else if msg_type (header m) = ''comm_msg'' then lift (handleCommMsg m k) w
     else if msg_type (header m) = ''comm_close'' then lift (handleCommClose m k) w
     else Returns (k, w))"

text \<open>\<open>Kernel._onKernelMessage\<close>.\<close>

definition onKernelMessage :: "env \<Rightarrow> IKernelMessage \<Rightarrow> sys \<Rightarrow> sys outcome" where
  "onKernelMessage H m = (\<lambda>(k, w).
     if \<not> validateKernelMessage H m then Returns (emit (ConsoleError ''invalid message'') k, w)
     else (let handled = (lookup_future k m \<noteq> None);
               k1 = (case lookup_future k m of
                       None \<Rightarrow> k
                     | Some (p, f) \<Rightarrow> Future_handleMsg H p f m k)
           in and_then
                (if channel m = ''iopub'' then
                   and_then (iopub_switch H m (k1, w))
                     (\<lambda>(k2, w2). Returns (emit (IopubReceived m) k2, w2))
                 else Returns (k1, w))
                (\<lambda>(k3, w3).
                   if \<not> handled then Returns (emit (UnhandledMessage m) k3, w3)
                   else Returns (k3, w3))))"

text \<open>A websocket message reaches the kernel, then the microtask queue is emptied.\<close>

definition receive :: "env \<Rightarrow> IKernelMessage \<Rightarrow> sys \<Rightarrow> sys" where
  "receive H m x = drain H (state_of (onKernelMessage H m x))"

fun receive_each :: "env \<Rightarrow> IKernelMessage list \<Rightarrow> sys \<Rightarrow> sys" where
  "receive_each H [] x = x"
| "receive_each H (m # ms) x = receive_each H ms (receive H m x)"


section \<open>Creating and finding kernels\<close>

text \<open>
  The constructor of \<open>Kernel\<close>.  It takes the socket and does not store it: \<open>_socket\<close>
  keeps its initial value \<open>null\<close>.  Its last statement is \<open>this.kernelInfo()\<close>.
\<close>

definition new_Kernel :: "env \<Rightarrow> IKernelOptions \<Rightarrow> nat \<Rightarrow> world \<Rightarrow> sys" where
  "new_Kernel H options r w =
     kernelInfo H
       (\<lparr>status = Unknown, socket = None, futures = Some [], commPromises = Some [],
         comms = Some [], targetRegistry = Some [],
         baseUrl = or_else (opt_baseUrl options) (getBaseUrl H),
         clientId = or_else (opt_clientId options) (uuid H 0),
         username = or_else (opt_username options) [],
         spec = None,
         commObjs = [], opens = [], replies = [], rest = [], jobs = [],
         uuids = (if truthy (opt_clientId options) then 0 else 1),
         trace = []\<rparr>, w)"

text \<open>
  \<open>connectToKernel\<close>.  \<open>known\<close> says whether \<open>Private.getKernelId\<close> fulfils, that is
  whether the server answers 200 with a valid model.  The result names the socket the
  kernel was constructed with, or is \<open>None\<close> when the promise is rejected.
\<close>

definition connectToKernel ::
  "env \<Rightarrow> string \<Rightarrow> IKernelOptions \<Rightarrow> bool \<Rightarrow> world \<Rightarrow> (nat \<times> Kernel) option \<times> world" where
  "connectToKernel H i options known w =
     (case map_of (runningKernels w) i of
        Some r \<Rightarrow> (case new_Kernel H options r w of (k, w1) \<Rightarrow> (Some (r, k), w1))
      | None \<Rightarrow>
          if known then
            (case new_KernelSocket H options i w of
               (r, w1) \<Rightarrow> (case new_Kernel H options r w1 of (k, w2) \<Rightarrow> (Some (r, k), w2)))
          else (None, w))"

text \<open>
  \<open>startNewKernel\<close>, from the answer of the server on: \<open>i\<close> is the id in the validated
  model of a 201 response.
\<close>

definition startNewKernel ::
  "env \<Rightarrow> IKernelOptions \<Rightarrow> string \<Rightarrow> world \<Rightarrow> (nat \<times> Kernel) \<times> world" where
  "startNewKernel H options i w =
     (case map_of (runningKernels w) i of
        Some r \<Rightarrow> (case new_Kernel H options r w of (k, w1) \<Rightarrow> ((r, k), w1))
      | None \<Rightarrow>
          (case new_KernelSocket H options i w of
             (r, w1) \<Rightarrow> (case new_Kernel H options r w1 of (k, w2) \<Rightarrow> ((r, k), w2))))"


section \<open>Kernel: the other public methods\<close>

text \<open>\<open>Kernel._clearState\<close>: the two loops of \<open>dispose\<close>, then three new maps.\<close>

definition clearState :: "Kernel \<Rightarrow> Kernel outcome" where
  "clearState k =
     (case futures k of
        None \<Rightarrow> Throws (TypeError ''this._futures is null'') k
      | Some fs \<Rightarrow>
          and_then (dispose_futures fs k)
            (\<lambda>k1. case comms k1 of
                     None \<Rightarrow> Throws (TypeError ''this._comms is null'') k1
                   | Some cs \<Rightarrow>
                       and_then (dispose_comms cs k1)
                         (\<lambda>k2. Returns (k2\<lparr>futures := Some [], commPromises := Some [],
                                            comms := Some []\<rparr>))))"

text \<open>
  The getters \<open>id\<close> and \<open>name\<close> of class \<open>Kernel\<close>, which read \<open>this._socket.id\<close> and
  \<open>this._socket.name\<close>.
\<close>

definition Kernel_id :: "sys \<Rightarrow> js_error + string" where
  "Kernel_id = (\<lambda>(k, w).
     case socket k of
       None \<Rightarrow> Inl (TypeError ''this._socket is null'')
     | Some r \<Rightarrow> (case nth_opt (sockets w) r of None \<Rightarrow> Inr [] | Some s \<Rightarrow> Inr (socket_id s)))"

definition Kernel_name :: "sys \<Rightarrow> js_error + string" where
  "Kernel_name = (\<lambda>(k, w).
     case socket k of
       None \<Rightarrow> Inl (TypeError ''this._socket is null'')
     | Some r \<Rightarrow> (case nth_opt (sockets w) r of None \<Rightarrow> Inr [] | Some s \<Rightarrow> Inr (socket_name s)))"

text \<open>
  \<open>Private.restartKernel\<close>, \<open>Private.interruptKernel\<close> and \<open>Private.shutdownKernel\<close>
  up to the point where they return: a promise rejected at once when the status is
  \<open>Dead\<close>, else the request to the url made from \<open>kernel.id\<close>.  The promise is the new
  last entry of \<open>rest\<close>.  \<open>utils.ajaxRequest\<close> is taken to return its promise.
\<close>

definition rest_request :: "env \<Rightarrow> string list \<Rightarrow> string \<Rightarrow> sys \<Rightarrow> sys outcome" where
  "rest_request H action method = (\<lambda>(k, w).
     if status k = Dead then
       Returns (k\<lparr>rest := rest k @ [RejectedAtOnce (Error ''Kernel is dead'')]\<rparr>, w)
     else (case Kernel_id (k, w) of
             Inl e \<Rightarrow> Throws e (k, w)
           | Inr i \<Rightarrow>
               Returns (k\<lparr>rest := rest k @
                           [Awaits (urlPathJoin H [baseUrl k, ''api/kernels'', urlJoinEncode H (i # action)])
                              method]\<rparr>, w)))"

definition restartKernel :: "env \<Rightarrow> sys \<Rightarrow> sys outcome" where
  "restartKernel H = rest_request H [''restart''] ''POST''"

definition interruptKernel :: "env \<Rightarrow> sys \<Rightarrow> sys outcome" where
  "interruptKernel H = rest_request H [''interrupt''] ''POST''"

definition shutdownKernel :: "env \<Rightarrow> sys \<Rightarrow> sys outcome" where
  "shutdownKernel H = rest_request H [] ''DELETE''"

text \<open>\<open>Kernel.interrupt\<close>, \<open>Kernel.restart\<close> and \<open>Kernel.shutdown\<close>.\<close>

definition interrupt :: "env \<Rightarrow> sys \<Rightarrow> sys outcome" where
  "interrupt H = interruptKernel H"

definition restart :: "env \<Rightarrow> sys \<Rightarrow> sys outcome" where
  "restart H = (\<lambda>(k, w).
     and_then (lift (clearState k) w)
       (\<lambda>x. and_then (updateStatus ''restarting'' x) (restartKernel H)))"

definition shutdown :: "env \<Rightarrow> sys \<Rightarrow> sys outcome" where
  "shutdown H = (\<lambda>(k, w). and_then (lift (clearState k) w) (shutdownKernel H))"

text \<open>
  \<open>Kernel.registerCommTarget\<close>; the disposable it returns, which deletes the entry again,
  is not part of the state.
\<close>

definition registerCommTarget :: "string \<Rightarrow> target \<Rightarrow> Kernel \<Rightarrow> Kernel outcome" where
  "registerCommTarget targetName callback k =
     (case targetRegistry k of
        None \<Rightarrow> Throws (TypeError ''this._targetRegistry is null'') k
      | Some reg \<Rightarrow> Returns (k\<lparr>targetRegistry := Some (AList.update targetName callback reg)\<rparr>))"

text \<open>
  \<open>Kernel.connectToComm\<close>: the comm registered under the id, or a new one, whose handlers
  are unset and whose dispose callback unregisters \<open>comm.commId\<close>.
\<close>

definition connectToComm :: "env \<Rightarrow> string \<Rightarrow> string option \<Rightarrow> Kernel \<Rightarrow> Kernel outcome" where
  "connectToComm H targetName commId k =
     (let i = (case commId of None \<Rightarrow> uuid H (uuids k) | Some j \<Rightarrow> j);
          k1 = (case commId of None \<Rightarrow> k\<lparr>uuids := uuids k + 1\<rparr> | Some j \<Rightarrow> k)
      in case comms k1 of
           None \<Rightarrow> Throws (TypeError ''this._comms is null'') k1
         | Some cs \<Rightarrow>
             (case map_of cs i of
                Some c \<Rightarrow> Returns k1
              | None \<Rightarrow>
                  Returns (k1\<lparr>commObjs := commObjs k1 @
                                 [\<lparr>c_target = targetName, c_id = Some i, c_onClose = None,
                                   c_onMsg = None, c_msgFunc = True,
                                   c_disposeCb = Some UnregisterOwnId\<rparr>],
                               comms := Some (AList.update i (length (commObjs k1)) cs)\<rparr>)))"

text \<open>The setter \<open>onMsg\<close> of a comm.\<close>

definition set_onMsg :: "nat \<Rightarrow> handler option \<Rightarrow> Kernel \<Rightarrow> Kernel" where
  "set_onMsg c h k =
     (case nth_opt (commObjs k) c of
        None \<Rightarrow> k
      | Some cm \<Rightarrow> k\<lparr>commObjs := (commObjs k)[c := cm\<lparr>c_onMsg := h\<rparr>]\<rparr>)"

text \<open>
  \<open>Kernel.getKernelSpec\<close> up to the point where it returns.  With a cached spec it returns
  a fulfilled promise.  Otherwise it reads \<open>this.name\<close> and calls \<open>getKernelSpecs\<close> with
  the string \<open>this._ajaxSettings\<close> as \<open>ajaxSettings\<close>; \<open>getKernelSpecs\<close> copies the
  string and assigns \<open>method\<close> on the copy, which in the strict mode of \<open>kernel.ts\<close>
  throws a \<open>TypeError\<close>.  \<open>_spec\<close> is set only by the reaction to the answer.
\<close>

definition getKernelSpec :: "sys \<Rightarrow> sys outcome" where
  "getKernelSpec = (\<lambda>(k, w).
     case spec k of
       Some sp \<Rightarrow> Returns (k\<lparr>rest := rest k @ [FulfilledAtOnce sp]\<rparr>, w)
     | None \<Rightarrow>
         (case Kernel_name (k, w) of
            Inl e \<Rightarrow> Throws e (k, w)
          | Inr n \<Rightarrow> Throws (TypeError ''cannot create property method on a string'') (k, w)))"

text \<open>
  The methods of class \<open>Kernel\<close> with their arguments, and a call of one of them.  The
  methods that return a promise in every case are total functions above; here they return.
\<close>

datatype public_op =
    Dispose
  | SendShellMessage IKernelMessage bool bool
  | Interrupt
  | Restart
  | Shutdown
  | KernelInfo
  | Complete IContent
  | Inspect IContent
  | History IContent
  | Execute IContent bool
  | IsComplete IContent
  | CommInfo IContent
  | SendInputReply IContent
  | RegisterCommTarget string target
  | ConnectToComm string "string option"
  | GetKernelSpec

fun call :: "env \<Rightarrow> public_op \<Rightarrow> sys \<Rightarrow> sys outcome" where
  "call H Dispose x = Kernel_dispose x"
| "call H (SendShellMessage m expectReply disposeOnDone) x = sendShellMessage H m expectReply disposeOnDone x"
| "call H Interrupt x = interrupt H x"
| "call H Restart x = restart H x"
| "call H Shutdown x = shutdown H x"
| "call H KernelInfo x = Returns (kernelInfo H x)"
| "call H (Complete c) x = Returns (complete H c x)"
| "call H (Inspect c) x = Returns (inspect H c x)"
| "call H (History c) x = Returns (history H c x)"
| "call H (Execute c disposeOnDone) x = execute H c disposeOnDone x"
| "call H (IsComplete c) x = Returns (isComplete H c x)"
| "call H (CommInfo c) x = Returns (commInfo H c x)"
| "call H (SendInputReply c) x = sendInputReply H c x"
| "call H (RegisterCommTarget n t) x = lift (registerCommTarget n t (fst x)) (snd x)"
| "call H (ConnectToComm n i) x = lift (connectToComm H n i (fst x)) (snd x)"
| "call H GetKernelSpec x = getKernelSpec x"




section \<open>Reading the trace\<close>

text \<open>The statuses emitted on \<open>statusChanged\<close>, in order.\<close>

fun status_changes :: "event list \<Rightarrow> KernelStatus list" where
  "status_changes [] = []"
| "status_changes (StatusChanged st # es) = st # status_changes es"
| "status_changes (e # es) = status_changes es"

text \<open>
  The routing of received messages: deliveries to futures and emissions on the
  \<open>iopubReceived\<close> and \<open>unhandledMessage\<close> signals, in order.
\<close>

fun is_routing :: "event \<Rightarrow> bool" where
  "is_routing (HandleMsg p m) = True"
| "is_routing (IopubReceived m) = True"
| "is_routing (UnhandledMessage m) = True"
| "is_routing e = False"

definition routing :: "event list \<Rightarrow> event list" where
  "routing es = filter is_routing es"

text \<open>The calls of comm target callbacks and of \<open>onMsg\<close> handlers, in order.\<close>

fun is_comm_call :: "event \<Rightarrow> bool" where
  "is_comm_call (TargetCalled t c m) = True"
| "is_comm_call (OnMsgCalled h m) = True"
| "is_comm_call e = False"

definition comm_calls :: "event list \<Rightarrow> event list" where
  "comm_calls es = filter is_comm_call es"

text \<open>
  The three maps of a kernel are nulled together by \<open>dispose\<close> and replaced together by
  \<open>_clearState\<close>; a kernel object is consistent when they are all set or all \<open>null\<close>.
\<close>

definition consistent :: "Kernel \<Rightarrow> bool" where
  "consistent k =
     ((futures k = None \<longleftrightarrow> comms k = None) \<and> (comms k = None \<longleftrightarrow> commPromises k = None))"

text \<open>
  Events that are neither a delivery to a future nor an emission on one of the three
  signals of the kernel.
\<close>

fun is_internal :: "event \<Rightarrow> bool" where
  "is_internal (HandleMsg p m) = False"
| "is_internal (StatusChanged st) = False"
| "is_internal (IopubReceived m) = False"
| "is_internal (UnhandledMessage m) = False"
| "is_internal e = True"

definition extends_internal :: "Kernel \<Rightarrow> Kernel \<Rightarrow> bool" where
  "extends_internal k k' = (\<exists>evs. trace k' = trace k @ evs \<and> list_all is_internal evs)"

text \<open>The second kernel has the trace of the first, extended by events that route nothing.\<close>

definition adds_no_routing :: "Kernel \<Rightarrow> Kernel \<Rightarrow> bool" where
  "adds_no_routing k k' = (\<exists>evs. trace k' = trace k @ evs \<and> routing evs = [])"

text \<open>
  A kernel in working order: not disposed, its maps set, a socket attached, and no
  \<open>onMsg\<close> handler installed on a comm that throws.
\<close>

definition healthy :: "Kernel \<Rightarrow> world \<Rightarrow> bool" where
  "healthy k w =
     (futures k \<noteq> None \<and> comms k \<noteq> None \<and> commPromises k \<noteq> None
      \<and> (\<exists>r. socket k = Some r \<and> r < length (sockets w))
      \<and> (\<forall>cm \<in> set (commObjs k). \<forall>h. c_onMsg cm = Some h \<longrightarrow> \<not> h_throws h))"

text \<open>The comm objects after the comm loop of \<open>dispose\<close> visited the entries \<open>l\<close>.\<close>

definition dispose_objs :: "(string \<times> nat) list \<Rightarrow> Comm list \<Rightarrow> Comm list" where
  "dispose_objs l xs = fold (\<lambda>p ys. ys[snd p := disposed_comm (ys ! snd p)]) l xs"


section \<open>Shutting down a session\<close>

text \<open>
  The parts of an \<open>XMLHttpRequest\<close> the session code reads, and the two ways the promise
  of \<open>utils.ajaxRequest\<close> settles: fulfilled with a success object or rejected with an
  error object.  \<open>throwError\<close> is the property \<open>shutdownSession\<close> sets on the error
  object; \<open>statusText\<close> and \<open>error_message\<close> are the properties the older
  \<open>onSessionError\<close> reads (\<open>error_message\<close> is \<open>None\<close> when \<open>error.error\<close> is
  undefined).
\<close>

record XMLHttpRequest =
  xhr_status :: nat
  xhr_statusText :: string
  responseText :: string

record IAjaxError =
  xhr :: XMLHttpRequest
  throwError :: "string option"
  statusText :: "string option"
  error_message :: "string option option"

datatype ajax = Success XMLHttpRequest | Failure IAjaxError

text \<open>How the promise returned to the caller settles, and what a rejection carries.\<close>

datatype rejection =
    AjaxError IAjaxError
  | InvalidStatus nat
  | JsError js_error

datatype settled = Resolved | RejectedWith rejection

datatype session_event =
    Terminated nat
  | SessionDied
  | KernelDisposed
  | ConsoleWarn "string option"
  | ConsoleErrorText string
  | ApiRequestFailed nat string

text \<open>
  \<open>DefaultSession\<close> (\<open>session/default.ts\<close>): the fields \<open>dispose\<close> and \<open>shutdown\<close>
  touch.  \<open>ds_options\<close> is false when \<open>_options\<close> is \<open>null\<close>, which is what
  \<open>isDisposed\<close> tests.  \<open>runningSessions\<close> is the module-wide array of session objects.
\<close>

record DefaultSession =
  ds_id :: "string option"
  ds_options :: bool
  ds_kernel :: bool

record sessions =
  session_objs :: "DefaultSession list"
  runningSessions :: "nat list"
  session_log :: "session_event list"

definition slog :: "session_event \<Rightarrow> sessions \<Rightarrow> sessions" where
  "slog e st = st\<lparr>session_log := session_log st @ [e]\<rparr>"

text \<open>\<open>DefaultSession.dispose\<close>.\<close>

definition DefaultSession_dispose :: "nat \<Rightarrow> sessions \<Rightarrow> sessions" where
  "DefaultSession_dispose r st =
     (case nth_opt (session_objs st) r of
        None \<Rightarrow> st
      | Some s \<Rightarrow>
          if \<not> ds_options s then st
          else (let st1 = (if ds_kernel s then slog KernelDisposed st else st) in
                st1\<lparr>session_objs := (session_objs st1)[r := s\<lparr>ds_options := False, ds_kernel := False\<rparr>],
                    runningSessions := remove1 r (runningSessions st1)\<rparr>))"

text \<open>\<open>Private.killSessions\<close>: the loop runs over a copy of the array.\<close>

definition kill_one :: "string option \<Rightarrow> nat \<Rightarrow> sessions \<Rightarrow> sessions" where
  "kill_one i r st =
     (case nth_opt (session_objs st) r of
        None \<Rightarrow> st
      | Some s \<Rightarrow>
          if ds_id s = i then DefaultSession_dispose r (slog (Terminated r) st) else st)"

definition killSessions :: "string option \<Rightarrow> sessions \<Rightarrow> sessions" where
  "killSessions i st = fold (kill_one i) (runningSessions st) st"

text \<open>\<open>Private.onSessionError\<close> of \<open>session/default.ts\<close>: logs, and rejects with the error.\<close>

definition onSessionError :: "IAjaxError \<Rightarrow> sessions \<Rightarrow> settled \<times> sessions" where
  "onSessionError err st =
     (let text = (if truthy (throwError err) then the (throwError err)
                  else if xhr_statusText (xhr err) \<noteq> [] then xhr_statusText (xhr err)
                  else responseText (xhr err))
      in (RejectedWith (AjaxError err), slog (ConsoleErrorText (''API request failed: '' @ text)) st))"

text \<open>
  What \<open>JSON.parse\<close> returns, as far as \<open>shutdownSession\<close> reads it: \<open>null\<close>, or
  another value with its \<open>message\<close> property as \<open>console.warn\<close> prints it (\<open>None\<close>
  when the value has none, as a number, a string, a boolean, an array and an object
  without that key).
\<close>

datatype json = JsonNull | JsonValue "string option"

text \<open>
  \<open>Private.shutdownSession\<close>, from the answer of the server on.  \<open>parse\<close> is
  \<open>JSON.parse\<close>: the exception it throws, or the value it returns.  The read of
  \<open>response['message']\<close> throws a \<open>TypeError\<close> when the value is \<open>null\<close>.  An
  exception in the rejection handler rejects the promise it returns.
\<close>

definition shutdownSession ::
  "(string \<Rightarrow> js_error + json) \<Rightarrow> string option \<Rightarrow> ajax \<Rightarrow> sessions \<Rightarrow> settled \<times> sessions" where
  "shutdownSession parse i res st =
     (case res of
        Success x \<Rightarrow>
          if xhr_status x \<noteq> 204 then (RejectedWith (InvalidStatus (xhr_status x)), st)
          else (Resolved, killSessions i st)
      | Failure err \<Rightarrow>
          if xhr_status (xhr err) = 404 then
            (case parse (responseText (xhr err)) of
               Inl e \<Rightarrow> (RejectedWith (JsError e), st)
             | Inr JsonNull \<Rightarrow> (RejectedWith (JsError (TypeError ''response is null'')), st)
             | Inr (JsonValue msg) \<Rightarrow> (Resolved, killSessions i (slog (ConsoleWarn msg) st)))
          else onSessionError
                 (if xhr_status (xhr err) = 410
                  then err\<lparr>throwError := Some ''The kernel was deleted but the session was not''\<rparr>
                  else err) st)"

text \<open>\<open>DefaultSession.shutdown\<close>: it nulls the id of the session before the request.\<close>

definition DefaultSession_shutdown ::
  "(string \<Rightarrow> js_error + json) \<Rightarrow> nat \<Rightarrow> ajax \<Rightarrow> sessions \<Rightarrow> settled \<times> sessions" where
  "DefaultSession_shutdown parse r res st =
     (case nth_opt (session_objs st) r of
        None \<Rightarrow> (Resolved, st)
      | Some s \<Rightarrow>
          if \<not> ds_options s then (RejectedWith (JsError (Error ''Session is disposed'')), st)
          else shutdownSession parse (ds_id s) res
                 (st\<lparr>session_objs := (session_objs st)[r := s\<lparr>ds_id := None\<rparr>]\<rparr>))"

text \<open>
  The older class \<open>Session\<close> with its own \<open>shutdown\<close> and \<open>Private.onSessionError\<close>,
  which throws.  \<open>s_options\<close> is false when the session is disposed.
\<close>

record Session =
  s_options :: bool
  s_kernel :: bool
  s_log :: "session_event list"

definition Session_onSessionError :: "IAjaxError \<Rightarrow> js_error \<times> session_event list" where
  "Session_onSessionError err =
     (if truthy (statusText err) then
        (Error (the (statusText err)), [ApiRequestFailed (xhr_status (xhr err)) (the (statusText err))])
      else (case error_message err of
              None \<Rightarrow> (TypeError ''error.error is undefined'', [])
            | Some m \<Rightarrow>
                (let text = (if truthy m then the m else responseText (xhr err))
                 in (Error text, [ApiRequestFailed (xhr_status (xhr err)) text]))))"

definition Session_shutdown :: "ajax \<Rightarrow> Session \<Rightarrow> settled \<times> Session" where
  "Session_shutdown res s =
     (if \<not> s_options s then (RejectedWith (JsError (Error ''Session is disposed'')), s)
      else (case res of
              Success x \<Rightarrow>
                if xhr_status x \<noteq> 204 then (RejectedWith (InvalidStatus (xhr_status x)), s)
                else if \<not> s_kernel s then
                  (RejectedWith (JsError (TypeError ''this._kernel is null'')), s)
                else (Resolved, s\<lparr>s_kernel := False, s_log := s_log s @ [KernelDisposed, SessionDied]\<rparr>)
            | Failure err \<Rightarrow>
                if xhr_status (xhr err) = 410 then
                  (RejectedWith (JsError (Error ''The kernel was deleted but the session was not'')), s)
                else (case Session_onSessionError err of
                        (e, evs) \<Rightarrow> (RejectedWith (JsError e), s\<lparr>s_log := s_log s @ evs\<rparr>))))"

text \<open>
  What a run of the session killing loop may change: it disposes sessions and appends
  \<open>Terminated\<close> and \<open>KernelDisposed\<close> events, and leaves ids and the number of session
  objects alone.
\<close>

definition kills_only :: "sessions \<Rightarrow> sessions \<Rightarrow> bool" where
  "kills_only st st' =
     (length (session_objs st') = length (session_objs st)
      \<and> (\<forall>q < length (session_objs st).
            ds_id (session_objs st' ! q) = ds_id (session_objs st ! q)
          \<and> (\<not> ds_options (session_objs st ! q) \<longrightarrow> \<not> ds_options (session_objs st' ! q)))
      \<and> (\<exists>evs. session_log st' = session_log st @ evs
             \<and> (\<forall>e \<in> set evs. (\<exists>r. e = Terminated r) \<or> e = KernelDisposed)))"


section \<open>Sample values\<close>

text \<open>Concrete objects on which the properties below are run.\<close>

definition sample_msg :: "string \<Rightarrow> string \<Rightarrow> string \<Rightarrow> string option \<Rightarrow> IKernelMessage" where
  "sample_msg i t ch p =
     \<lparr>header = \<lparr>h_username = ''u'', h_version = ''5.0'', h_session = ''s'', msg_id = i, msg_type = t\<rparr>,
      parent_id = p, channel = ch, content = empty_content\<rparr>"

definition sample_socket :: KernelSocket where
  "sample_socket =
     \<lparr>wsUrl = ''ws://localhost:8888'', socket_id = ''k1'', socket_name = ''python'',
      ws = Some \<lparr>url = ''ws://localhost:8888/api/kernels/k1/channels'', sent = []\<rparr>,
      reconnectLimit = 7, reconnectAttempt = 0, isReady = False, pendingMessages = []\<rparr>"

definition sample_ser :: "IKernelMessage \<Rightarrow> wire" where
  "sample_ser m = Text (msg_id (header m))"

text \<open>A host socket whose \<open>send\<close> throws once it has accepted one frame.\<close>

definition throws_after_one :: "WebSocket \<Rightarrow> wire \<Rightarrow> bool" where
  "throws_after_one w f = (length (sent w) = 1)"

definition never_throws :: "WebSocket \<Rightarrow> wire \<Rightarrow> bool" where
  "never_throws w f = False"

fun join_slash :: "string list \<Rightarrow> string" where
  "join_slash [] = []"
| "join_slash [x] = x"
| "join_slash (x # y # ys) = x @ ''/'' @ join_slash (y # ys)"

definition sample_env :: env where
  "sample_env =
     \<lparr>send_throws = never_throws,
      serialize = sample_ser,
      validateKernelMessage = (\<lambda>m. True),
      handleMsg = (\<lambda>f m. \<lparr>fe_reply = False, fe_dispose = False\<rparr>),
      uuid = (\<lambda>n. ''uuid-'' @ replicate n (CHR ''x'')),
      requirejs_defined = False,
      getBaseUrl = ''http://localhost:8888'',
      getWsUrl = (\<lambda>b. ''ws://localhost:8888''),
      urlPathJoin = join_slash,
      urlJoinEncode = join_slash\<rparr>"

definition sample_options :: IKernelOptions where
  "sample_options =
     \<lparr>opt_baseUrl = None, opt_wsUrl = Some ''ws://localhost:8888'', opt_name = ''python'',
      opt_clientId = Some ''client'', opt_username = None\<rparr>"

definition empty_world :: world where
  "empty_world = \<lparr>sockets = [], runningKernels = [], timers = [], closedWs = [], console = []\<rparr>"

definition sample_world :: world where
  "sample_world = empty_world\<lparr>sockets := [sample_socket], runningKernels := [(''k1'', 0)]\<rparr>"

text \<open>A live kernel object with the socket of \<open>sample_world\<close> attached.\<close>

definition sample_kernel :: Kernel where
  "sample_kernel =
     \<lparr>status = Idle, socket = Some 0, futures = Some [], commPromises = Some [],
      comms = Some [], targetRegistry = Some [], baseUrl = ''http://localhost:8888'',
      clientId = ''client'', username = ''u'', spec = None,
      commObjs = [], opens = [], replies = [], rest = [], jobs = [], uuids = 0, trace = []\<rparr>"

text \<open>
  A server-initiated \<open>comm_open\<close> for target \<open>tgt\<close> in module \<open>m\<close>, two \<open>comm_msg\<close>
  for the same comm, a callback registered locally for \<open>tgt\<close> and one exported by the
  module.
\<close>

definition comm_msg_for :: "string \<Rightarrow> string \<Rightarrow> string \<Rightarrow> string option \<Rightarrow> IKernelMessage" where
  "comm_msg_for i t tgt mn =
     (sample_msg i t ''iopub'' None)
       \<lparr>content := empty_content\<lparr>comm_id := ''c1'', target_name := tgt, target_module := mn\<rparr>\<rparr>"

definition local_target :: target where
  "local_target =
     \<lparr>cb_name = ''local'', cb_onMsg = Some \<lparr>h_name = ''local.onMsg'', h_throws = False\<rparr>,
      cb_onClose = None, cb_throws = False\<rparr>"

definition module_target :: target where
  "module_target =
     \<lparr>cb_name = ''from_module'', cb_onMsg = Some \<lparr>h_name = ''module.onMsg'', h_throws = False\<rparr>,
      cb_onClose = None, cb_throws = False\<rparr>"

definition registering_kernel :: Kernel where
  "registering_kernel = sample_kernel\<lparr>targetRegistry := Some [(''tgt'', local_target)]\<rparr>"

definition env_with_requirejs :: env where
  "env_with_requirejs = sample_env\<lparr>requirejs_defined := True\<rparr>"

text \<open>
  Error answers of the server to a session DELETE, and two running sessions, of which the
  first has the id \<open>s1\<close>.  \<open>sample_body\<close> is a JSON object with a \<open>message\<close>;
  \<open>sample_parse\<close> agrees with \<open>JSON.parse\<close> on the three bodies used: the object, the
  text \<open>null\<close>, and the empty text, on which it throws.
\<close>

definition sample_failure :: "nat \<Rightarrow> string \<Rightarrow> string \<Rightarrow> ajax" where
  "sample_failure code text body =
     Failure \<lparr>xhr = \<lparr>xhr_status = code, xhr_statusText = text, responseText = body\<rparr>,
              throwError = None, statusText = Some text, error_message = None\<rparr>"

definition sample_body :: string where
  "sample_body =
     ''{'' @ [CHR 0x22] @ ''message'' @ [CHR 0x22] @ '': '' @ [CHR 0x22] @ ''Session not found''
       @ [CHR 0x22] @ ''}''"

definition sample_parse :: "string \<Rightarrow> js_error + json" where
  "sample_parse body =
     (if body = sample_body then Inr (JsonValue (Some ''Session not found''))
      else if body = ''null'' then Inr JsonNull
      else Inl (HostError ''SyntaxError''))"

definition sample_sessions :: sessions where
  "sample_sessions =
     \<lparr>session_objs = [\<lparr>ds_id = Some ''s1'', ds_options = True, ds_kernel = True\<rparr>,
                      \<lparr>ds_id = Some ''s2'', ds_options = True, ds_kernel = True\<rparr>],
      runningSessions = [0, 1],
      session_log = []\<rparr>"

definition sample_old_session :: Session where
  "sample_old_session = \<lparr>s_options = True, s_kernel = True, s_log = []\<rparr>"


text \<open>
  The kernel object that \<open>connectToKernel\<close> builds for the running kernel \<open>k1\<close> of
  \<open>sample_world\<close>, as its constructor leaves it.
\<close>

definition constructed :: sys where
  "constructed = new_Kernel sample_env sample_options 0 sample_world"

text \<open>
  A comm target callback that installs an \<open>onMsg\<close> handler which throws, and iopub
  messages: a status message, and a \<open>comm_open\<close> and a \<open>comm_msg\<close> for comm \<open>c1\<close>.
\<close>

definition careless_target :: target where
  "careless_target =
     \<lparr>cb_name = ''careless'', cb_onMsg = Some \<lparr>h_name = ''careless.onMsg'', h_throws = True\<rparr>,
      cb_onClose = None, cb_throws = False\<rparr>"

definition status_msg :: "string \<Rightarrow> string \<Rightarrow> IKernelMessage" where
  "status_msg i state =
     (sample_msg i ''status'' ''iopub'' None)\<lparr>content := empty_content\<lparr>execution_state := state\<rparr>\<rparr>"


text \<open>
  The constructed kernel after \<open>connectToComm('tgt', 'c1')\<close>, and after a comm target
  with the careless callback was registered and the server opened comm \<open>c1\<close> on it.
\<close>

definition with_comm :: sys where
  "with_comm = state_of (call sample_env (ConnectToComm ''tgt'' (Some ''c1'')) constructed)"

definition with_careless_comm :: sys where
  "with_careless_comm =
     receive sample_env (comm_msg_for ''o1'' ''comm_open'' ''tgt'' None)
       (state_of (call sample_env (RegisterCommTarget ''tgt'' careless_target) constructed))"
section \<open>The pending queue of the socket\<close>

lemma send_each_queues:
  "\<not> isReady s \<Longrightarrow>
     send_each thr ser s ms = Returns (s\<lparr>pendingMessages := pendingMessages s @ ms\<rparr>)"
proof (induction ms arbitrary: s)
  case Nil
  then show ?case by simp
next
  case (Cons m ms)
  let ?s1 = "s\<lparr>pendingMessages := pendingMessages s @ [m]\<rparr>"
  have ready: "\<not> isReady ?s1" using Cons.prems by simp
  have "send_each thr ser s (m # ms) = send_each thr ser ?s1 ms"
    using Cons.prems by (simp add: send_def)
  also have "\<dots> = Returns (?s1\<lparr>pendingMessages := pendingMessages ?s1 @ ms\<rparr>)"
    by (rule Cons.IH [OF ready])
  finally show ?case by simp
qed

text \<open>
  One run of the flush sends a prefix of the queue, in queue order, and leaves exactly the
  rest; it returns iff the prefix is the whole queue.
\<close>

lemma sendPending_prefix:
  "\<exists>k \<le> length (pendingMessages s).
      pendingMessages (state_of (sendPending thr ser s)) = drop k (pendingMessages s)
    \<and> sent_frames (state_of (sendPending thr ser s))
        = sent_frames s @ map ser (take k (pendingMessages s))
    \<and> (returns (sendPending thr ser s) \<longleftrightarrow> k = length (pendingMessages s))"
proof (induction thr ser s rule: sendPending.induct)
  case (1 thr ser s)
  show ?case
  proof (cases "pendingMessages s")
    case Nil
    then show ?thesis by (simp add: sendPending.simps [of thr ser s])
  next
    case (Cons m rest)
    show ?thesis
    proof (cases "ws s")
      case None
      have "sendPending thr ser s = Throws (TypeError ''this._ws is null'') s"
        using Cons None by (simp add: sendPending.simps [of thr ser s])
      then show ?thesis using Cons by (intro exI [of _ 0]) simp
    next
      case (Some w)
      show ?thesis
      proof (cases "ws_send thr w (ser m)")
        case (Inl e)
        have "sendPending thr ser s = Throws e s"
          using Cons Some Inl by (simp add: sendPending.simps [of thr ser s])
        then show ?thesis using Cons by (intro exI [of _ 0]) simp
      next
        case (Inr w')
        let ?s1 = "s\<lparr>ws := Some w', pendingMessages := rest\<rparr>"
        have step: "sendPending thr ser s = sendPending thr ser ?s1"
          using Cons Some Inr by (simp add: sendPending.simps [of thr ser s])
        have w': "sent w' = sent w @ [ser m]"
          using Inr by (auto simp: ws_send_def split: if_splits)
        from "1.IH" [OF Cons Some Inr] obtain k where k:
          "k \<le> length rest"
          "pendingMessages (state_of (sendPending thr ser ?s1)) = drop k rest"
          "sent_frames (state_of (sendPending thr ser ?s1))
             = sent_frames ?s1 @ map ser (take k rest)"
          "returns (sendPending thr ser ?s1) \<longleftrightarrow> k = length rest"
          by auto
        have "sent_frames ?s1 = sent_frames s @ [ser m]"
          using Some w' by (simp add: sent_frames_def)
        then show ?thesis
          using k Cons step by (intro exI [of _ "Suc k"]) simp
      qed
    qed
  qed
qed

text \<open>A run that throws leaves the message whose send threw at the head of the queue.\<close>

lemma sendPending_throws_head:
  "sendPending thr ser s = Throws e s' \<Longrightarrow>
     \<exists>m rest. pendingMessages s' = m # rest \<and>
       (case ws s' of None \<Rightarrow> True | Some w \<Rightarrow> thr w (ser m))"
proof (induction thr ser s rule: sendPending.induct)
  case (1 thr ser s)
  show ?case
  proof (cases "pendingMessages s")
    case Nil
    then show ?thesis using "1.prems" by (simp add: sendPending.simps [of thr ser s])
  next
    case (Cons m rest)
    show ?thesis
    proof (cases "ws s")
      case None
      then show ?thesis
        using Cons "1.prems" by (simp add: sendPending.simps [of thr ser s])
    next
      case (Some w)
      show ?thesis
      proof (cases "ws_send thr w (ser m)")
        case (Inl e')
        then have "thr w (ser m)" by (auto simp: ws_send_def split: if_splits)
        moreover have "s' = s"
          using Cons Some Inl "1.prems" by (simp add: sendPending.simps [of thr ser s])
        ultimately show ?thesis using Cons Some by simp
      next
        case (Inr w')
        have "sendPending thr ser (s\<lparr>ws := Some w', pendingMessages := rest\<rparr>) = Throws e s'"
          using Cons Some Inr "1.prems" by (simp add: sendPending.simps [of thr ser s])
        then show ?thesis by (rule "1.IH" [OF Cons Some Inr])
      qed
    qed
  qed
qed


lemma sendPending_keeps_ws:
  "ws s \<noteq> None \<Longrightarrow> ws (state_of (sendPending thr ser s)) \<noteq> None"
proof (induction thr ser s rule: sendPending.induct)
  case (1 thr ser s)
  from "1.prems" obtain w where w: "ws s = Some w" by auto
  show ?case
  proof (cases "pendingMessages s")
    case Nil
    then show ?thesis using w by (simp add: sendPending.simps [of thr ser s])
  next
    case (Cons m rest)
    show ?thesis
    proof (cases "ws_send thr w (ser m)")
      case (Inl e)
      then show ?thesis using Cons w by (simp add: sendPending.simps [of thr ser s])
    next
      case (Inr w')
      have "ws (state_of (sendPending thr ser (s\<lparr>ws := Some w', pendingMessages := rest\<rparr>))) \<noteq> None"
        by (rule "1.IH" [OF Cons w Inr]) simp
      then show ?thesis using Cons w Inr by (simp add: sendPending.simps [of thr ser s])
    qed
  qed
qed

lemma sendPending_all:
  assumes "ws s \<noteq> None" and "\<forall>w f. \<not> thr w f"
  shows "returns (sendPending thr ser s)"
proof (cases "sendPending thr ser s")
  case (Returns s')
  then show ?thesis by simp
next
  case (Throws e s')
  from sendPending_throws_head [OF Throws] obtain m rest where
    h: "pendingMessages s' = m # rest" "case ws s' of None \<Rightarrow> True | Some w \<Rightarrow> thr w (ser m)"
    by blast
  have "ws s' \<noteq> None" using sendPending_keeps_ws [OF assms(1), of thr ser] Throws by simp
  then show ?thesis using h(2) assms(2) by (auto split: option.splits)
qed

text \<open>
  C3.  Messages passed to \<open>send\<close> while the socket is not ready are appended to the
  pending queue in call order.  A flush sends a prefix of the queue to the websocket in
  queue order and removes exactly that prefix; it returns iff the whole queue was sent.
  When it throws, the message at the head of the remaining queue is the one whose send
  threw (or there is no websocket), nothing before it is sent twice, and a later flush on
  a websocket that accepts the frames sends the rest: over both flushes every message of
  the queue is sent once, in order.
\<close>

theorem pending_queue_fifo_retry:
  "(\<not> isReady s \<longrightarrow>
      send_each thr ser s ms = Returns (s\<lparr>pendingMessages := pendingMessages s @ ms\<rparr>))
   \<and> (\<exists>k \<le> length (pendingMessages s).
         pendingMessages (state_of (sendPending thr ser s)) = drop k (pendingMessages s)
       \<and> sent_frames (state_of (sendPending thr ser s))
           = sent_frames s @ map ser (take k (pendingMessages s))
       \<and> (returns (sendPending thr ser s) \<longleftrightarrow> k = length (pendingMessages s))
       \<and> (\<not> returns (sendPending thr ser s) \<longrightarrow>
            (case ws (state_of (sendPending thr ser s)) of
               None \<Rightarrow> True
             | Some w \<Rightarrow> thr w (ser (pendingMessages s ! k)))))
   \<and> (\<not> returns (sendPending thr ser s) \<and> ws s \<noteq> None \<and> (\<forall>w f. \<not> thr2 w f) \<longrightarrow>
         returns (sendPending thr2 ser (state_of (sendPending thr ser s)))
       \<and> pendingMessages (state_of (sendPending thr2 ser (state_of (sendPending thr ser s)))) = []
       \<and> sent_frames (state_of (sendPending thr2 ser (state_of (sendPending thr ser s))))
           = sent_frames s @ map ser (pendingMessages s))"
proof (intro conjI)
  show "\<not> isReady s \<longrightarrow>
      send_each thr ser s ms = Returns (s\<lparr>pendingMessages := pendingMessages s @ ms\<rparr>)"
    by (simp add: send_each_queues)
next
  let ?r = "sendPending thr ser s"
  from sendPending_prefix [of s thr ser] obtain k where k:
    "k \<le> length (pendingMessages s)"
    "pendingMessages (state_of ?r) = drop k (pendingMessages s)"
    "sent_frames (state_of ?r) = sent_frames s @ map ser (take k (pendingMessages s))"
    "returns ?r \<longleftrightarrow> k = length (pendingMessages s)"
    by blast
  have "case ws (state_of ?r) of None \<Rightarrow> True | Some w \<Rightarrow> thr w (ser (pendingMessages s ! k))"
    if nr: "\<not> returns ?r"
  proof -
    from nr obtain e s' where t: "?r = Throws e s'" by (cases ?r) auto
    from sendPending_throws_head [OF t] obtain m rest where
      h: "pendingMessages s' = m # rest" "case ws s' of None \<Rightarrow> True | Some w \<Rightarrow> thr w (ser m)"
      by blast
    have "k < length (pendingMessages s)" using nr k(1,4) by auto
    then have "hd (drop k (pendingMessages s)) = pendingMessages s ! k"
      by (simp add: hd_drop_conv_nth)
    moreover have "drop k (pendingMessages s) = m # rest" using h(1) k(2) t by simp
    ultimately have "m = pendingMessages s ! k" by simp
    then show ?thesis using h(2) t by (auto split: option.splits)
  qed
  then show "\<exists>k \<le> length (pendingMessages s).
         pendingMessages (state_of ?r) = drop k (pendingMessages s)
       \<and> sent_frames (state_of ?r) = sent_frames s @ map ser (take k (pendingMessages s))
       \<and> (returns ?r \<longleftrightarrow> k = length (pendingMessages s))
       \<and> (\<not> returns ?r \<longrightarrow>
            (case ws (state_of ?r) of
               None \<Rightarrow> True
             | Some w \<Rightarrow> thr w (ser (pendingMessages s ! k))))"
    using k by blast
next
  let ?s1 = "state_of (sendPending thr ser s)"
  let ?r2 = "sendPending thr2 ser ?s1"
  show "\<not> returns (sendPending thr ser s) \<and> ws s \<noteq> None \<and> (\<forall>w f. \<not> thr2 w f) \<longrightarrow>
         returns ?r2 \<and> pendingMessages (state_of ?r2) = []
       \<and> sent_frames (state_of ?r2) = sent_frames s @ map ser (pendingMessages s)"
  proof (intro impI, elim conjE)
    assume a: "ws s \<noteq> None" "\<forall>w f. \<not> thr2 w f"
    from sendPending_prefix [of s thr ser] obtain k where k:
      "k \<le> length (pendingMessages s)"
      "pendingMessages ?s1 = drop k (pendingMessages s)"
      "sent_frames ?s1 = sent_frames s @ map ser (take k (pendingMessages s))"
      by blast
    have ws1: "ws ?s1 \<noteq> None" by (rule sendPending_keeps_ws [OF a(1)])
    have ret: "returns ?r2" by (rule sendPending_all [OF ws1 a(2)])
    from sendPending_prefix [of ?s1 thr2 ser] obtain j where j:
      "pendingMessages (state_of ?r2) = drop j (pendingMessages ?s1)"
      "sent_frames (state_of ?r2) = sent_frames ?s1 @ map ser (take j (pendingMessages ?s1))"
      "returns ?r2 \<longleftrightarrow> j = length (pendingMessages ?s1)"
      by blast
    have jl: "j = length (pendingMessages ?s1)" using ret j(3) by simp
    have "sent_frames (state_of ?r2)
            = sent_frames s @ map ser (take k (pendingMessages s)) @ map ser (drop k (pendingMessages s))"
      using j(2) jl k(2,3) by simp
    also have "\<dots> = sent_frames s @ map ser (pendingMessages s)"
      by (simp flip: map_append)
    finally show "returns ?r2 \<and> pendingMessages (state_of ?r2) = []
       \<and> sent_frames (state_of ?r2) = sent_frames s @ map ser (pendingMessages s)"
      using ret j(1) jl by simp
  qed
qed

theorem pending_queue_fifo_retry_witness:
  "\<not> isReady sample_socket
   \<and> send_each throws_after_one sample_ser sample_socket
        [sample_msg ''a'' ''t'' ''shell'' None, sample_msg ''b'' ''t'' ''shell'' None]
       = Returns (sample_socket\<lparr>pendingMessages :=
            [sample_msg ''a'' ''t'' ''shell'' None, sample_msg ''b'' ''t'' ''shell'' None]\<rparr>)
   \<and> \<not> returns (sendPending throws_after_one sample_ser
         (sample_socket\<lparr>pendingMessages :=
            [sample_msg ''a'' ''t'' ''shell'' None, sample_msg ''b'' ''t'' ''shell'' None]\<rparr>))
   \<and> pendingMessages (state_of (sendPending throws_after_one sample_ser
         (sample_socket\<lparr>pendingMessages :=
            [sample_msg ''a'' ''t'' ''shell'' None, sample_msg ''b'' ''t'' ''shell'' None]\<rparr>)))
       = [sample_msg ''b'' ''t'' ''shell'' None]
   \<and> (\<forall>w f. \<not> never_throws w f)
   \<and> sent_frames (state_of (sendPending never_throws sample_ser
         (state_of (sendPending throws_after_one sample_ser
            (sample_socket\<lparr>pendingMessages :=
               [sample_msg ''a'' ''t'' ''shell'' None, sample_msg ''b'' ''t'' ''shell'' None]\<rparr>)))))
       = [Text ''a'', Text ''b'']"
proof -
  let ?q = "[sample_msg ''a'' ''t'' ''shell'' None, sample_msg ''b'' ''t'' ''shell'' None]"
  let ?s = "sample_socket\<lparr>pendingMessages := ?q\<rparr>"
  have ready: "\<not> isReady sample_socket" by (simp add: sample_socket_def)
  have queue: "send_each throws_after_one sample_ser sample_socket ?q = Returns ?s"
    using pending_queue_fifo_retry [of sample_socket throws_after_one sample_ser ?q never_throws] ready
    by (simp add: sample_socket_def)
  have run: "sendPending throws_after_one sample_ser ?s
      = Throws (HostError ''WebSocket.send'')
          (sample_socket\<lparr>ws := Some \<lparr>url = ''ws://localhost:8888/api/kernels/k1/channels'',
                                      sent = [Text ''a'']\<rparr>,
                          pendingMessages := [sample_msg ''b'' ''t'' ''shell'' None]\<rparr>)"
    by (simp add: sendPending.simps sample_socket_def ws_send_def throws_after_one_def
          sample_ser_def sample_msg_def)
  have nt: "\<forall>w f. \<not> never_throws w f" by (simp add: never_throws_def)
  have wss: "ws ?s \<noteq> None" by (simp add: sample_socket_def)
  have "sent_frames (state_of (sendPending never_throws sample_ser
           (state_of (sendPending throws_after_one sample_ser ?s))))
         = sent_frames ?s @ map sample_ser (pendingMessages ?s)"
    using pending_queue_fifo_retry [of ?s throws_after_one sample_ser "[]" never_throws] run nt wss
    by simp
  also have "\<dots> = [Text ''a'', Text ''b'']"
    by (simp add: sample_socket_def sent_frames_def sample_ser_def sample_msg_def)
  finally show ?thesis using ready queue run nt by simp
qed

section \<open>The registry of running kernels\<close>

lemma nth_opt_append_new [simp]: "nth_opt (xs @ [x]) (length xs) = Some x"
  by (simp add: nth_opt_def)

lemma nth_opt_update_same [simp]: "i < length xs \<Longrightarrow> nth_opt (xs[i := x]) i = Some x"
  by (simp add: nth_opt_def)

lemma nth_opt_Some_less: "nth_opt xs i = Some x \<Longrightarrow> i < length xs \<and> xs ! i = x"
  by (auto simp: nth_opt_def split: if_splits)

text \<open>The constructor stores the socket under the kernel id.\<close>

lemma new_KernelSocket_registers:
  "new_KernelSocket H options i w = (r, w1) \<Longrightarrow>
     r = length (sockets w) \<and> map_of (runningKernels w1) i = Some r"
  by (auto simp: new_KernelSocket_def createSocket_def put_socket_def Let_def update_conv'
           split: option.splits)

text \<open>
  \<open>dispose\<close> deletes the entry whose key is the websocket url of the socket, and no other:
  the entry under the kernel id stays unless the id and the url are the same text.
\<close>

lemma KernelSocket_dispose_registry:
  "nth_opt (sockets w) r = Some s \<Longrightarrow> ws s \<noteq> None \<Longrightarrow>
     runningKernels (KernelSocket_dispose r w) = AList.delete (wsUrl s) (runningKernels w)"
  by (auto simp: KernelSocket_dispose_def put_socket_def)

lemma KernelSocket_dispose_keeps_id:
  "nth_opt (sockets w) r = Some s \<Longrightarrow> socket_id s \<noteq> wsUrl s \<Longrightarrow>
     map_of (runningKernels (KernelSocket_dispose r w)) (socket_id s)
       = map_of (runningKernels w) (socket_id s)"
  by (auto simp: KernelSocket_dispose_def put_socket_def delete_conv' split: option.splits)

text \<open>
  C10, run on a socket for kernel id \<open>k1\<close> at \<open>ws://localhost:8888\<close>.  The constructor
  registers the socket under \<open>k1\<close>.  After \<open>dispose\<close> the socket is disposed (its
  websocket is \<open>null\<close>) and the store still maps \<open>k1\<close> to it; \<open>connectToKernel\<close> with
  the same id then builds the kernel on that disposed socket and creates no new one.
\<close>

theorem dispose_keeps_registry_entry:
  "(case new_KernelSocket sample_env sample_options ''k1'' empty_world of
      (r, w1) \<Rightarrow>
        map_of (runningKernels w1) ''k1'' = Some r
      \<and> map_of (runningKernels (KernelSocket_dispose r w1)) ''k1'' = Some r
      \<and> map_option ws (nth_opt (sockets (KernelSocket_dispose r w1)) r) = Some None
      \<and> (case connectToKernel sample_env ''k1'' sample_options True (KernelSocket_dispose r w1) of
            (res, w3) \<Rightarrow> map_option fst res = Some r \<and> length (sockets w3) = 1))"
  by (simp add: new_KernelSocket_def createSocket_def put_socket_def KernelSocket_dispose_def
        connectToKernel_def new_Kernel_def kernelInfo_def request_def createKernelMessage_def
        sendKernelMessage_def sendShellMessage_def socket_send_def
        sample_env_def sample_options_def empty_world_def or_else_def truthy_def nth_opt_def
        Let_def split: prod.splits)

section \<open>The close handler of the socket\<close>

text \<open>
  What the body of \<open>_onWSClose\<close> does on an object that has the two members: with the
  status not \<open>Dead\<close>, an open websocket and attempts left, and an \<open>_updateStatus\<close> that
  returns and leaves the sockets alone, it calls \<open>_updateStatus('reconnecting')\<close>, sets a
  timer of \<open>2 ^ attempt\<close> seconds and increments the attempt counter.
\<close>

lemma onWSClose_with_members:
  assumes "nth_opt (sockets w) r = Some s" and "ws s = Some x" and "st \<noteq> Some Dead"
    and "reconnectAttempt s < reconnectLimit s"
    and "f ''reconnecting'' (put_socket r (s\<lparr>ws := None\<rparr>) w) = Returns w2"
    and "sockets w2 = sockets (put_socket r (s\<lparr>ws := None\<rparr>) w)"
  shows "onWSClose st (Some f) r w =
           Returns (put_socket r (s\<lparr>ws := None, reconnectAttempt := reconnectAttempt s + 1\<rparr>)
             (w2\<lparr>console := console w2 @ [Connection_lost (2 ^ reconnectAttempt s)],
                 timers := timers w2 @ [(1000 * 2 ^ reconnectAttempt s, r)]\<rparr>))"
proof -
  from assms(1) have r: "r < length (sockets w)" by (auto dest: nth_opt_Some_less)
  have "nth_opt (sockets w2) r = Some (s\<lparr>ws := None\<rparr>)"
    using r assms(6) by (simp add: put_socket_def)
  then show ?thesis
    using assms by (simp add: onWSClose_def call_member_def Let_def put_socket_def)
qed

text \<open>
  C4, run on \<open>KernelSocket\<close> objects as the class declares them.  With attempts left
  (0 of 7) the handler drops the websocket and then throws at
  \<open>this._updateStatus('reconnecting')\<close>: no timer is set and the attempt counter stays 0.
  With no attempt left (7 of 7) it throws at \<open>this._updateStatus('dead')\<close>.
\<close>

theorem onWSClose_throws_before_reconnect:
  "KernelSocket_onWSClose 0 sample_world
     = Throws (TypeError ''this._updateStatus is not a function'')
         (sample_world\<lparr>sockets := [sample_socket\<lparr>ws := None\<rparr>]\<rparr>)
   \<and> timers (state_of (KernelSocket_onWSClose 0 sample_world)) = []
   \<and> map_option reconnectAttempt (nth_opt (sockets (state_of (KernelSocket_onWSClose 0 sample_world))) 0)
       = Some 0
   \<and> KernelSocket_onWSClose 0 (sample_world\<lparr>sockets := [sample_socket\<lparr>reconnectAttempt := 7\<rparr>]\<rparr>)
     = Throws (TypeError ''this._updateStatus is not a function'')
         (sample_world\<lparr>sockets := [sample_socket\<lparr>reconnectAttempt := 7, ws := None\<rparr>]\<rparr>)"
  by (simp add: KernelSocket_onWSClose_def onWSClose_def call_member_def put_socket_def
        sample_world_def empty_world_def sample_socket_def nth_opt_def)

section \<open>The kernel object as the constructor leaves it\<close>

text \<open>
  The constructor stores no socket, so the \<open>kernelInfo\<close> request it ends with fails in
  \<open>sendShellMessage\<close> and its promise is rejected at once; no future is registered.
\<close>

lemma constructed_value:
  "constructed =
      (\<lparr>status = Unknown, socket = None, futures = Some [], commPromises = Some [],
        comms = Some [], targetRegistry = Some [], baseUrl = ''http://localhost:8888'',
        clientId = ''client'', username = [], spec = None, commObjs = [], opens = [],
        replies = [Rejected (TypeError ''this._socket is null'')], rest = [], jobs = [],
        uuids = 1, trace = []\<rparr>, sample_world)"
  by (simp add: constructed_def new_Kernel_def kernelInfo_def request_def
        createKernelMessage_def sendKernelMessage_def sendShellMessage_def socket_send_def
        sample_env_def sample_options_def or_else_def truthy_def)

lemma connect_constructed:
  "connectToKernel sample_env ''k1'' sample_options True sample_world
     = (Some (0, fst constructed), snd constructed)"
  by (simp add: connectToKernel_def constructed_def sample_world_def empty_world_def
        split: prod.splits)

section \<open>Traces\<close>

lemma status_changes_append [simp]:
  "status_changes (xs @ ys) = status_changes xs @ status_changes ys"
  by (induction xs rule: status_changes.induct) auto

lemma routing_append [simp]: "routing (xs @ ys) = routing xs @ routing ys"
  by (simp add: routing_def)

lemma internal_no_status: "list_all is_internal evs \<Longrightarrow> status_changes evs = []"
  by (induction evs rule: status_changes.induct) auto

lemma internal_no_routing: "list_all is_internal evs \<Longrightarrow> routing evs = []"
proof (induction evs)
  case Nil
  then show ?case by (simp add: routing_def)
next
  case (Cons e evs)
  then show ?case by (cases e) (auto simp: routing_def)
qed

lemma extends_internal_refl [simp]: "extends_internal k k"
  by (simp add: extends_internal_def)

lemma extends_internal_trans:
  "extends_internal k k1 \<Longrightarrow> extends_internal k1 k2 \<Longrightarrow> extends_internal k k2"
  by (auto simp: extends_internal_def)

lemma extends_internal_same: "trace k' = trace k \<Longrightarrow> extends_internal k k'"
  by (simp add: extends_internal_def)

lemma extends_internal_emit: "is_internal e \<Longrightarrow> extends_internal k (emit e k)"
  by (simp add: extends_internal_def emit_def)

lemma extends_internal_status:
  "extends_internal k k' \<Longrightarrow> status_changes (trace k') = status_changes (trace k)"
  by (auto simp: extends_internal_def internal_no_status)

lemma extends_internal_routing:
  "extends_internal k k' \<Longrightarrow> routing (trace k') = routing (trace k)"
  by (auto simp: extends_internal_def internal_no_routing)

lemma and_then_extends:
  assumes "extends_internal k (state_of r)"
    and "\<And>k1. r = Returns k1 \<Longrightarrow> extends_internal k1 (state_of (f k1))"
  shows "extends_internal k (state_of (and_then r f))"
proof (cases r)
  case (Returns k1)
  then show ?thesis using assms extends_internal_trans by fastforce
next
  case (Throws e k1)
  then show ?thesis using assms(1) by simp
qed


section \<open>Disposal\<close>

lemma Future_dispose_extends: "extends_internal k (state_of (Future_dispose i k))"
  by (auto simp: Future_dispose_def Let_def emit_def extends_internal_def split: option.splits)

lemma dispose_futures_extends: "extends_internal k (state_of (dispose_futures ps k))"
proof (induction ps arbitrary: k)
  case Nil
  then show ?case by simp
next
  case (Cons p ps)
  show ?case
    unfolding dispose_futures.simps
    by (rule and_then_extends [OF Future_dispose_extends]) (rule Cons.IH)
qed

lemma unregisterComm_trace: "trace (state_of (unregisterComm i k)) = trace k"
  by (simp add: unregisterComm_def split: option.splits)

lemma Comm_dispose_extends: "extends_internal k (state_of (Comm_dispose c k))"
  by (auto simp: Comm_dispose_def Let_def emit_def extends_internal_def unregisterComm_trace
           split: option.splits dispose_cb.splits)

lemma dispose_comms_extends: "extends_internal k (state_of (dispose_comms ps k))"
proof (induction ps arbitrary: k)
  case Nil
  then show ?case by simp
next
  case (Cons p ps)
  show ?case
    unfolding dispose_comms.simps
    by (rule and_then_extends [OF Comm_dispose_extends]) (rule Cons.IH)
qed

lemma Kernel_dispose_extends:
  "extends_internal k (fst (state_of (Kernel_dispose (k, w))))"
proof (cases "isDisposed k")
  case True
  then show ?thesis by (simp add: Kernel_dispose_def)
next
  case False
  let ?k1 = "k\<lparr>status := Dead\<rparr>"
  have k1: "extends_internal k ?k1" by (simp add: extends_internal_same)
  show ?thesis
  proof (cases "socket k")
    case None
    then show ?thesis using False k1 by (simp add: Kernel_dispose_def)
  next
    case (Some r)
    show ?thesis
    proof (cases "futures k")
      case None
      then show ?thesis using False by (simp add: isDisposed_def)
    next
      case fs: (Some fs)
      have e2: "extends_internal k (state_of (dispose_futures fs ?k1))"
        by (rule extends_internal_trans [OF k1 dispose_futures_extends])
      show ?thesis
      proof (cases "dispose_futures fs ?k1")
        case (Throws e k2)
        then show ?thesis using False Some fs e2 by (simp add: Kernel_dispose_def Let_def)
      next
        case (Returns k2)
        with e2 have k2: "extends_internal k k2" by simp
        show ?thesis
        proof (cases "comms k2")
          case None
          then show ?thesis using False Some fs Returns k2 by (simp add: Kernel_dispose_def Let_def)
        next
          case cs: (Some cs)
          have e3: "extends_internal k (state_of (dispose_comms cs k2))"
            by (rule extends_internal_trans [OF k2 dispose_comms_extends])
          show ?thesis
          proof (cases "dispose_comms cs k2")
            case (Throws e k3)
            then show ?thesis
              using False Some fs Returns cs e3 by (simp add: Kernel_dispose_def Let_def)
          next
            case r3: (Returns k3)
            let ?k4 = "k3\<lparr>futures := None, commPromises := None, comms := None, status := Dead,
                           targetRegistry := None\<rparr>"
            from e3 r3 have "extends_internal k k3" by simp
            then have "extends_internal k ?k4"
              by (rule extends_internal_trans) (simp add: extends_internal_same)
            then have "extends_internal k (emit SignalsCleared ?k4)"
              by (rule extends_internal_trans) (simp add: extends_internal_emit)
            then show ?thesis
              using False Some fs Returns cs r3 by (simp add: Kernel_dispose_def Let_def)
          qed
        qed
      qed
    qed
  qed
qed

text \<open>What the two loops do on a kernel whose maps are set.\<close>

lemma dispose_futures_char:
  "futures k = Some fs \<Longrightarrow>
     dispose_futures ps k =
       Returns (k\<lparr>futures := Some (fold (\<lambda>p. AList.delete (fst p)) ps fs),
                  trace := trace k @ map (\<lambda>p. FutureDisposed (fst p)) ps\<rparr>)"
proof (induction ps arbitrary: k fs)
  case Nil
  then show ?case by (cases k) simp
next
  case (Cons p ps)
  let ?k1 = "k\<lparr>futures := Some (AList.delete (fst p) fs), trace := trace k @ [FutureDisposed (fst p)]\<rparr>"
  have step: "Future_dispose (fst p) k = Returns ?k1"
    using Cons.prems by (simp add: Future_dispose_def Let_def emit_def)
  have "futures ?k1 = Some (AList.delete (fst p) fs)" by simp
  from Cons.IH [OF this] show ?case by (simp add: step)
qed

lemma Comm_dispose_char:
  assumes "comms k = Some cs" and "commPromises k = Some ps"
  shows "\<exists>cs' ps' evs.
           Comm_dispose c k =
             Returns (k\<lparr>commObjs := (commObjs k)[c := disposed_comm (commObjs k ! c)],
                        comms := Some cs', commPromises := Some ps', trace := trace k @ evs\<rparr>)
         \<and> list_all is_internal evs"
proof (cases "nth_opt (commObjs k) c")
  case None
  then have "length (commObjs k) \<le> c" by (simp add: nth_opt_def split: if_splits)
  then have "(commObjs k)[c := disposed_comm (commObjs k ! c)] = commObjs k"
    by (rule list_update_beyond)
  then have "Comm_dispose c k =
      Returns (k\<lparr>commObjs := (commObjs k)[c := disposed_comm (commObjs k ! c)],
                 comms := Some cs, commPromises := Some ps, trace := trace k @ []\<rparr>)"
    using None assms by (cases k) (simp add: Comm_dispose_def)
  then show ?thesis by (intro exI [of _ cs] exI [of _ ps] exI [of _ "[]"]) simp
next
  case (Some cm)
  then have cm: "commObjs k ! c = cm" by (auto dest: nth_opt_Some_less)
  show ?thesis
  proof (cases "c_disposeCb cm")
    case None
    have "Comm_dispose c k =
      Returns (k\<lparr>commObjs := (commObjs k)[c := disposed_comm (commObjs k ! c)],
                 comms := Some cs, commPromises := Some ps, trace := trace k @ [CommDisposed c]\<rparr>)"
      using None Some cm assms by (cases k) (simp add: Comm_dispose_def Let_def emit_def)
    then show ?thesis
      by (intro exI [of _ cs] exI [of _ ps] exI [of _ "[CommDisposed c]"]) simp
  next
    case cb: (Some cb)
    obtain j where j: "(case cb of UnregisterId i \<Rightarrow> Some i | UnregisterOwnId \<Rightarrow> c_id (disposed_comm cm)) = j"
      by simp
    have "Comm_dispose c k =
      Returns (k\<lparr>commObjs := (commObjs k)[c := disposed_comm (commObjs k ! c)],
                 comms := Some (del_key j cs), commPromises := Some (del_key j ps),
                 trace := trace k @ [CommDisposed c]\<rparr>)"
      using cb Some cm assms j
      by (cases cb) (simp_all add: Comm_dispose_def Let_def emit_def unregisterComm_def)
    then show ?thesis
      by (intro exI [of _ "del_key j cs"] exI [of _ "del_key j ps"] exI [of _ "[CommDisposed c]"]) simp
  qed
qed

lemma dispose_comms_char:
  "comms k = Some cs \<Longrightarrow> commPromises k = Some ps \<Longrightarrow>
     \<exists>cs' ps' evs.
        dispose_comms l k =
          Returns (k\<lparr>commObjs := dispose_objs l (commObjs k),
                     comms := Some cs', commPromises := Some ps', trace := trace k @ evs\<rparr>)
      \<and> list_all is_internal evs"
proof (induction l arbitrary: k cs ps)
  case Nil
  have "dispose_comms [] k =
     Returns (k\<lparr>commObjs := dispose_objs [] (commObjs k),
                comms := Some cs, commPromises := Some ps, trace := trace k @ []\<rparr>)"
    using Nil by (cases k) (simp add: dispose_objs_def)
  then show ?case by (intro exI [of _ cs] exI [of _ ps] exI [of _ "[]"]) simp
next
  case (Cons p l)
  from Comm_dispose_char [OF Cons.prems, of "snd p"] obtain cs1 ps1 evs1 where
    s1: "Comm_dispose (snd p) k =
           Returns (k\<lparr>commObjs := (commObjs k)[snd p := disposed_comm (commObjs k ! snd p)],
                      comms := Some cs1, commPromises := Some ps1, trace := trace k @ evs1\<rparr>)"
    and i1: "list_all is_internal evs1"
    by blast
  let ?k1 = "k\<lparr>commObjs := (commObjs k)[snd p := disposed_comm (commObjs k ! snd p)],
               comms := Some cs1, commPromises := Some ps1, trace := trace k @ evs1\<rparr>"
  have "comms ?k1 = Some cs1" "commPromises ?k1 = Some ps1" by simp_all
  from Cons.IH [OF this] obtain cs2 ps2 evs2 where
    s2: "dispose_comms l ?k1 =
           Returns (?k1\<lparr>commObjs := dispose_objs l (commObjs ?k1),
                        comms := Some cs2, commPromises := Some ps2, trace := trace ?k1 @ evs2\<rparr>)"
    and i2: "list_all is_internal evs2"
    by blast
  have "dispose_comms (p # l) k =
          Returns (k\<lparr>commObjs := dispose_objs (p # l) (commObjs k),
                     comms := Some cs2, commPromises := Some ps2, trace := trace k @ (evs1 @ evs2)\<rparr>)"
    using s1 s2 by (simp add: dispose_objs_def)
  then show ?case
    using i1 i2 by (intro exI [of _ cs2] exI [of _ ps2] exI [of _ "evs1 @ evs2"]) simp
qed

text \<open>Every comm the loop visits is disposed afterwards.\<close>

lemma dispose_objs_length [simp]: "length (dispose_objs l xs) = length xs"
  unfolding dispose_objs_def by (induction l arbitrary: xs) auto

lemma dispose_objs_keeps_disposed:
  "c < length xs \<Longrightarrow> \<not> c_msgFunc (xs ! c) \<Longrightarrow> \<not> c_msgFunc (dispose_objs l xs ! c)"
  unfolding dispose_objs_def
proof (induction l arbitrary: xs)
  case Nil
  then show ?case by simp
next
  case (Cons p l)
  let ?ys = "xs[snd p := disposed_comm (xs ! snd p)]"
  have "c < length ?ys" using Cons.prems by simp
  moreover have "\<not> c_msgFunc (?ys ! c)"
    using Cons.prems by (cases "c = snd p") (simp_all add: disposed_comm_def)
  ultimately show ?case using Cons.IH [of ?ys] by simp
qed

lemma dispose_objs_disposes:
  "p \<in> set l \<Longrightarrow> snd p < length xs \<Longrightarrow> \<not> c_msgFunc (dispose_objs l xs ! snd p)"
proof (induction l arbitrary: xs)
  case Nil
  then show ?case by simp
next
  case (Cons q l)
  let ?ys = "xs[snd q := disposed_comm (xs ! snd q)]"
  have unfold: "dispose_objs (q # l) xs = dispose_objs l ?ys" by (simp add: dispose_objs_def)
  show ?case
  proof (cases "p = q")
    case True
    have "\<not> c_msgFunc (?ys ! snd p)" using True Cons.prems by (simp add: disposed_comm_def)
    then show ?thesis
      unfolding unfold using Cons.prems by (intro dispose_objs_keeps_disposed) simp_all
  next
    case False
    then have "p \<in> set l" using Cons.prems by simp
    then show ?thesis unfolding unfold using Cons.prems by (intro Cons.IH) simp_all
  qed
qed

text \<open>\<open>dispose\<close> on a consistent, live kernel with a socket attached.\<close>

lemma Kernel_dispose_char:
  assumes "futures k = Some fs" and "comms k = Some cs" and "commPromises k = Some ps"
    and "socket k = Some r"
  shows "\<exists>evs.
           Kernel_dispose (k, w) =
             Returns (k\<lparr>status := Dead, futures := None, commPromises := None, comms := None,
                        targetRegistry := None, commObjs := dispose_objs cs (commObjs k),
                        trace := trace k @ map (\<lambda>p. FutureDisposed (fst p)) fs @ evs @ [SignalsCleared]\<rparr>,
                      KernelSocket_dispose r w)
         \<and> list_all is_internal evs"
proof -
  let ?k1 = "k\<lparr>status := Dead\<rparr>"
  let ?k2 = "?k1\<lparr>futures := Some (fold (\<lambda>p. AList.delete (fst p)) fs fs),
                 trace := trace ?k1 @ map (\<lambda>p. FutureDisposed (fst p)) fs\<rparr>"
  have f: "dispose_futures fs ?k1 = Returns ?k2"
    by (rule dispose_futures_char) (simp add: assms)
  have "comms ?k2 = Some cs" "commPromises ?k2 = Some ps" using assms by simp_all
  from dispose_comms_char [OF this, of cs] obtain cs' ps' evs where
    c: "dispose_comms cs ?k2 =
          Returns (?k2\<lparr>commObjs := dispose_objs cs (commObjs ?k2),
                       comms := Some cs', commPromises := Some ps', trace := trace ?k2 @ evs\<rparr>)"
    and i: "list_all is_internal evs"
    by blast
  have "Kernel_dispose (k, w) =
          Returns (k\<lparr>status := Dead, futures := None, commPromises := None, comms := None,
                     targetRegistry := None, commObjs := dispose_objs cs (commObjs k),
                     trace := trace k @ map (\<lambda>p. FutureDisposed (fst p)) fs @ evs @ [SignalsCleared]\<rparr>,
                   KernelSocket_dispose r w)"
    using assms f c by (simp add: Kernel_dispose_def isDisposed_def Let_def emit_def)
  then show ?thesis using i by blast
qed

section \<open>Status updates\<close>

lemma logKernelStatus_extends:
  "extends_internal k (fst (state_of (logKernelStatus (k, w))))"
  by (auto simp: logKernelStatus_def extends_internal_emit split: option.splits)

lemma logKernelStatus_attached:
  "socket k = Some r \<Longrightarrow> r < length (sockets w) \<Longrightarrow>
     \<exists>evs. logKernelStatus (k, w) = Returns (k\<lparr>trace := trace k @ evs\<rparr>, w) \<and> list_all is_internal evs"
proof -
  assume a: "socket k = Some r" "r < length (sockets w)"
  show ?thesis
  proof (cases "status k = Idle \<or> status k = Busy \<or> status k = Unknown")
    case True
    then have "logKernelStatus (k, w) = Returns (k\<lparr>trace := trace k @ []\<rparr>, w)"
      by (simp add: logKernelStatus_def)
    then show ?thesis by (intro exI [of _ "[]"]) simp
  next
    case False
    let ?e = "ConsoleLog (''Kernel: '' @ status_text (status k) @ '' ('' @ socket_id (sockets w ! r) @ '')'')"
    have "logKernelStatus (k, w) = Returns (k\<lparr>trace := trace k @ [?e]\<rparr>, w)"
      using False a by (simp add: logKernelStatus_def nth_opt_def emit_def)
    then show ?thesis by (intro exI [of _ "[?e]"]) simp
  qed
qed

text \<open>One call emits \<open>statusChanged\<close> at most once, and only with a status that differs.\<close>

lemma updateStatus_changes:
  "status_changes (trace (fst (state_of (updateStatus state (k, w))))) = status_changes (trace k)
   \<or> (\<exists>st. status_of_state state = Some st \<and> st \<noteq> status k
          \<and> status_changes (trace (fst (state_of (updateStatus state (k, w)))))
              = status_changes (trace k) @ [st])"
proof (cases "status_of_state state")
  case None
  then show ?thesis by (simp add: updateStatus_def emit_def)
next
  case (Some st)
  show ?thesis
  proof (cases "st = status k")
    case True
    then show ?thesis using Some by (simp add: updateStatus_def)
  next
    case False
    let ?k0 = "k\<lparr>status := st\<rparr>"
    have l: "extends_internal ?k0 (fst (state_of (logKernelStatus (?k0, w))))"
      by (rule logKernelStatus_extends)
    show ?thesis
    proof (cases "logKernelStatus (?k0, w)")
      case (Throws e x)
      then have "status_changes (trace (fst x)) = status_changes (trace k)"
        using l by (auto dest: extends_internal_status)
      then show ?thesis using Some False Throws by (simp add: updateStatus_def)
    next
      case (Returns x)
      obtain k1 w1 where x: "x = (k1, w1)" by (cases x)
      have t1: "status_changes (trace k1) = status_changes (trace k)"
        using l Returns x by (auto dest: extends_internal_status)
      let ?k2 = "emit (StatusChanged st) k1"
      have t2: "status_changes (trace ?k2) = status_changes (trace k) @ [st]"
        using t1 by (simp add: emit_def)
      have "status_changes (trace (fst (state_of (updateStatus state (k, w)))))
              = status_changes (trace k) @ [st]"
      proof (cases "st = Dead")
        case True
        have "status_changes (trace (fst (state_of (Kernel_dispose (?k2, w1)))))
                = status_changes (trace ?k2)"
          by (rule extends_internal_status [OF Kernel_dispose_extends])
        then show ?thesis using Some False Returns x True t2 by (simp add: updateStatus_def Let_def)
      next
        case nd: False
        then show ?thesis using Some False Returns x t2 by (simp add: updateStatus_def Let_def)
      qed
      then show ?thesis using Some False by blast
    qed
  qed
qed

text \<open>
  A recognised state that differs from the current status is adopted, whatever the
  current status is; the step to \<open>Dead\<close> disposes the kernel.
\<close>

lemma updateStatus_adopts:
  assumes "status_of_state state = Some st" and "st \<noteq> status k"
    and "socket k = Some r" and "r < length (sockets w)" and "consistent k"
  shows "returns (updateStatus state (k, w))
       \<and> status (fst (state_of (updateStatus state (k, w)))) = st
       \<and> (st = Dead \<longrightarrow> isDisposed (fst (state_of (updateStatus state (k, w)))))"
proof -
  let ?k0 = "k\<lparr>status := st\<rparr>"
  have "socket ?k0 = Some r" using assms(3) by simp
  from logKernelStatus_attached [OF this assms(4)] obtain evs where
    l: "logKernelStatus (?k0, w) = Returns (?k0\<lparr>trace := trace ?k0 @ evs\<rparr>, w)"
    by blast
  let ?k2 = "emit (StatusChanged st) (?k0\<lparr>trace := trace ?k0 @ evs\<rparr>)"
  have u: "updateStatus state (k, w) = (if st = Dead then Kernel_dispose (?k2, w) else Returns (?k2, w))"
    using assms(1,2) l by (simp add: updateStatus_def Let_def)
  show ?thesis
  proof (cases "st = Dead")
    case False
    then show ?thesis using u by (simp add: emit_def)
  next
    case True
    show ?thesis
    proof (cases "futures k")
      case None
      then have "Kernel_dispose (?k2, w) = Returns (?k2, w)"
        by (simp add: Kernel_dispose_def isDisposed_def emit_def)
      then show ?thesis using u True None by (simp add: emit_def isDisposed_def)
    next
      case (Some fs)
      then obtain cs ps where m: "comms k = Some cs" "commPromises k = Some ps"
        using assms(5) by (auto simp: consistent_def)
      have "futures ?k2 = Some fs" "comms ?k2 = Some cs" "commPromises ?k2 = Some ps"
        "socket ?k2 = Some r"
        using Some m assms(3) by (simp_all add: emit_def)
      from Kernel_dispose_char [OF this, of w] obtain evs2 where
        "Kernel_dispose (?k2, w) =
           Returns (?k2\<lparr>status := Dead, futures := None, commPromises := None, comms := None,
                        targetRegistry := None, commObjs := dispose_objs cs (commObjs ?k2),
                        trace := trace ?k2 @ map (\<lambda>p. FutureDisposed (fst p)) fs @ evs2 @ [SignalsCleared]\<rparr>,
                    KernelSocket_dispose r w)"
        by blast
      then show ?thesis using u True by (simp add: isDisposed_def)
    qed
  qed
qed

text \<open>
  What the body of \<open>_updateStatus\<close> does.  A call emits \<open>statusChanged\<close> at most
  once, and only for a recognised state whose status differs from the current one.  On a
  kernel object whose \<open>_socket\<close> field is set, which the constructor does not do, such
  a state is adopted and emitted, and the kernel is disposed when the new status is
  \<open>Dead\<close>; nothing in the method keeps a \<open>Dead\<close> kernel from adopting a later status.
\<close>

lemma updateStatus_transitions:
  "(status_changes (trace (fst (state_of (updateStatus state (k, w))))) = status_changes (trace k)
    \<or> (\<exists>st'. status_of_state state = Some st' \<and> st' \<noteq> status k
          \<and> status_changes (trace (fst (state_of (updateStatus state (k, w)))))
              = status_changes (trace k) @ [st']))
   \<and> (status_of_state state = Some st \<and> st \<noteq> status k \<and> socket k = Some r
        \<and> r < length (sockets w) \<and> consistent k \<longrightarrow>
          returns (updateStatus state (k, w))
        \<and> status (fst (state_of (updateStatus state (k, w)))) = st
        \<and> status_changes (trace (fst (state_of (updateStatus state (k, w)))))
            = status_changes (trace k) @ [st]
        \<and> (st = Dead \<longrightarrow> isDisposed (fst (state_of (updateStatus state (k, w))))))"
proof (intro conjI impI)
  show "status_changes (trace (fst (state_of (updateStatus state (k, w))))) = status_changes (trace k)
    \<or> (\<exists>st'. status_of_state state = Some st' \<and> st' \<noteq> status k
          \<and> status_changes (trace (fst (state_of (updateStatus state (k, w)))))
              = status_changes (trace k) @ [st'])"
    by (rule updateStatus_changes)
next
  assume a: "status_of_state state = Some st \<and> st \<noteq> status k \<and> socket k = Some r
        \<and> r < length (sockets w) \<and> consistent k"
  then have a1: "status_of_state state = Some st" and a2: "st \<noteq> status k"
    and a3: "socket k = Some r" and a4: "r < length (sockets w)" and a5: "consistent k"
    by blast+
  have ad: "returns (updateStatus state (k, w))
       \<and> status (fst (state_of (updateStatus state (k, w)))) = st
       \<and> (st = Dead \<longrightarrow> isDisposed (fst (state_of (updateStatus state (k, w)))))"
    by (rule updateStatus_adopts [OF a1 a2 a3 a4 a5])
  show "returns (updateStatus state (k, w))" using ad by simp
  show "status (fst (state_of (updateStatus state (k, w)))) = st" using ad by simp
  show "st = Dead \<Longrightarrow> isDisposed (fst (state_of (updateStatus state (k, w))))" using ad by simp
  show "status_changes (trace (fst (state_of (updateStatus state (k, w)))))
            = status_changes (trace k) @ [st]"
  proof -
    let ?k0 = "k\<lparr>status := st\<rparr>"
    have s0: "socket ?k0 = Some r" using a3 by simp
    from logKernelStatus_attached [OF s0 a4] obtain evs where
      l: "logKernelStatus (?k0, w) = Returns (?k0\<lparr>trace := trace ?k0 @ evs\<rparr>, w)"
      and i: "list_all is_internal evs"
      by blast
    let ?k2 = "emit (StatusChanged st) (?k0\<lparr>trace := trace ?k0 @ evs\<rparr>)"
    have t2: "status_changes (trace ?k2) = status_changes (trace k) @ [st]"
      using i by (simp add: emit_def internal_no_status)
    have u: "updateStatus state (k, w) = (if st = Dead then Kernel_dispose (?k2, w) else Returns (?k2, w))"
      using a1 a2 l by (simp add: updateStatus_def Let_def)
    have "status_changes (trace (fst (state_of (Kernel_dispose (?k2, w))))) = status_changes (trace ?k2)"
      by (rule extends_internal_status [OF Kernel_dispose_extends])
    then show ?thesis using u t2 by (cases "st = Dead") simp_all
  qed
qed

text \<open>
  C2, run on the kernel that \<open>connectToKernel\<close> builds for a running kernel.  The update
  \<open>dead\<close> sets the status to \<open>Dead\<close> and then throws in \<open>logKernelStatus\<close>, which reads
  the id of the socket that was never stored: \<open>statusChanged\<close> is not emitted and the
  kernel is not disposed.  The update \<open>idle\<close> that follows is adopted: the status leaves
  \<open>Dead\<close> and \<open>statusChanged\<close> is emitted with \<open>Idle\<close>.  The same happens when the
  two states arrive as iopub status messages.
\<close>

theorem dead_is_not_absorbing:
  "connectToKernel sample_env ''k1'' sample_options True sample_world
     = (Some (0, fst constructed), snd constructed)
   \<and> updateStatus ''dead'' constructed
     = Throws (TypeError ''this._socket is null'') ((fst constructed)\<lparr>status := Dead\<rparr>, snd constructed)
   \<and> \<not> isDisposed (fst (updateStatus_each [''dead''] constructed))
   \<and> status_changes (trace (fst (updateStatus_each [''dead''] constructed))) = []
   \<and> status (fst (updateStatus_each [''dead'', ''idle''] constructed)) = Idle
   \<and> status_changes (trace (fst (updateStatus_each [''dead'', ''idle''] constructed))) = [Idle]
   \<and> status (fst (receive_each sample_env [status_msg ''s1'' ''dead'', status_msg ''s2'' ''idle'']
         constructed)) = Idle
   \<and> status_changes (trace (fst (receive_each sample_env
         [status_msg ''s1'' ''dead'', status_msg ''s2'' ''idle''] constructed))) = [Idle]"
  unfolding connect_constructed
  by (simp add: constructed_value updateStatus_def status_of_state_def logKernelStatus_def
        isDisposed_def emit_def receive_def onKernelMessage_def lookup_future_def
        iopub_switch_def drain_def run_round_def status_msg_def sample_msg_def sample_env_def
        empty_content_def)

section \<open>Synchronous exceptions of the public methods\<close>


lemma thrown_lift [simp]: "thrown (lift r w) = thrown r"
  by (cases r) (simp_all add: lift_def)

lemma returns_lift [simp]: "returns (lift r w) = returns r"
  by (cases r) (simp_all add: lift_def)


































section \<open>Disposal and what is pending\<close>

lemma KernelSocket_dispose_pending:
  "map pendingMessages (sockets (KernelSocket_dispose r w)) = map pendingMessages (sockets w)"
proof (cases "nth_opt (sockets w) r")
  case None
  then show ?thesis by (simp add: KernelSocket_dispose_def)
next
  case (Some s)
  then have "r < length (sockets w)" "sockets w ! r = s" by (auto dest: nth_opt_Some_less)
  then have "(map pendingMessages (sockets w))[r := pendingMessages s] = map pendingMessages (sockets w)"
    by (metis length_map list_update_id nth_map)
  then show ?thesis
    using Some by (simp add: KernelSocket_dispose_def put_socket_def map_update split: option.splits)
qed

lemma KernelSocket_dispose_ws:
  assumes "nth_opt (sockets (KernelSocket_dispose r w)) r' = Some s'"
  shows "ws s' = None \<or> nth_opt (sockets w) r' = Some s'"
proof (cases "nth_opt (sockets w) r")
  case None
  then show ?thesis using assms by (simp add: KernelSocket_dispose_def)
next
  case (Some s)
  show ?thesis
  proof (cases "ws s")
    case None
    then show ?thesis using assms Some by (simp add: KernelSocket_dispose_def)
  next
    case x: (Some x)
    then show ?thesis
      using assms Some
      by (cases "r' = r")
         (auto simp: KernelSocket_dispose_def put_socket_def nth_opt_def split: if_splits)
  qed
qed

text \<open>
  What the body of \<open>dispose\<close> does on a kernel object whose \<open>_socket\<close> field is set,
  which the constructor does not do: it returns; afterwards the kernel is disposed and
  \<open>Dead\<close>; every registered future was disposed; no promise returned by a request method
  is settled; every comm in the comm map is disposed; and nothing is sent: the pending
  queue of every socket is as before, and a socket either lost its websocket or is
  unchanged.
\<close>

lemma dispose_effects:
  "futures k = Some fs \<and> comms k = Some cs \<and> commPromises k = Some ps \<and> socket k = Some r \<longrightarrow>
     returns (Kernel_dispose (k, w))
   \<and> isDisposed (fst (state_of (Kernel_dispose (k, w))))
   \<and> status (fst (state_of (Kernel_dispose (k, w)))) = Dead
   \<and> (\<forall>p \<in> set fs. FutureDisposed (fst p) \<in> set (trace (fst (state_of (Kernel_dispose (k, w))))))
   \<and> replies (fst (state_of (Kernel_dispose (k, w)))) = replies k
   \<and> (\<forall>p \<in> set cs. snd p < length (commObjs k) \<longrightarrow>
         \<not> c_msgFunc (commObjs (fst (state_of (Kernel_dispose (k, w)))) ! snd p))
   \<and> map pendingMessages (sockets (snd (state_of (Kernel_dispose (k, w)))))
       = map pendingMessages (sockets w)
   \<and> (\<forall>r' s'. nth_opt (sockets (snd (state_of (Kernel_dispose (k, w))))) r' = Some s' \<longrightarrow>
         ws s' = None \<or> nth_opt (sockets w) r' = Some s')"
proof (intro impI)
  assume a: "futures k = Some fs \<and> comms k = Some cs \<and> commPromises k = Some ps \<and> socket k = Some r"
  then have a1: "futures k = Some fs" and a2: "comms k = Some cs" and a3: "commPromises k = Some ps"
    and a4: "socket k = Some r"
    by blast+
  from Kernel_dispose_char [OF a1 a2 a3 a4, of w] obtain evs where
    d: "Kernel_dispose (k, w) =
          Returns (k\<lparr>status := Dead, futures := None, commPromises := None, comms := None,
                     targetRegistry := None, commObjs := dispose_objs cs (commObjs k),
                     trace := trace k @ map (\<lambda>p. FutureDisposed (fst p)) fs @ evs @ [SignalsCleared]\<rparr>,
                   KernelSocket_dispose r w)"
    by blast
  have objs: "\<forall>p \<in> set cs. snd p < length (commObjs k) \<longrightarrow>
                \<not> c_msgFunc (dispose_objs cs (commObjs k) ! snd p)"
    using dispose_objs_disposes [of _ cs "commObjs k"] by blast
  have wsx: "\<forall>r' s'. nth_opt (sockets (KernelSocket_dispose r w)) r' = Some s' \<longrightarrow>
               ws s' = None \<or> nth_opt (sockets w) r' = Some s'"
    by (auto dest: KernelSocket_dispose_ws)
  show "returns (Kernel_dispose (k, w))
   \<and> isDisposed (fst (state_of (Kernel_dispose (k, w))))
   \<and> status (fst (state_of (Kernel_dispose (k, w)))) = Dead
   \<and> (\<forall>p \<in> set fs. FutureDisposed (fst p) \<in> set (trace (fst (state_of (Kernel_dispose (k, w))))))
   \<and> replies (fst (state_of (Kernel_dispose (k, w)))) = replies k
   \<and> (\<forall>p \<in> set cs. snd p < length (commObjs k) \<longrightarrow>
         \<not> c_msgFunc (commObjs (fst (state_of (Kernel_dispose (k, w)))) ! snd p))
   \<and> map pendingMessages (sockets (snd (state_of (Kernel_dispose (k, w)))))
       = map pendingMessages (sockets w)
   \<and> (\<forall>r' s'. nth_opt (sockets (snd (state_of (Kernel_dispose (k, w))))) r' = Some s' \<longrightarrow>
         ws s' = None \<or> nth_opt (sockets w) r' = Some s')"
    unfolding d using objs wsx by (simp add: isDisposed_def KernelSocket_dispose_pending)
qed

text \<open>
  C7, run on the kernel that \<open>connectToKernel\<close> builds for a running kernel, after
  \<open>connectToComm('tgt', 'c1')\<close>.  One live comm is registered; no future is, and the
  promise of the \<open>kernelInfo\<close> request of the constructor was rejected at once with a
  \<open>TypeError\<close>.  When the iopub status message \<open>dead\<close> arrives, the status becomes
  \<open>Dead\<close> and \<open>logKernelStatus\<close> throws: \<open>dispose\<close> is not called, the comm stays
  registered and live, and nothing was emitted.  A call of \<open>dispose\<close> itself throws at
  \<open>this._socket.dispose()\<close>, before the loop over the comms.  And the close handler of
  the socket, with no reconnect attempt left, throws before any kernel is told.
\<close>

theorem dead_kernel_keeps_comms:
  "comms (fst with_comm) = Some [(''c1'', 0)]
   \<and> c_msgFunc (commObjs (fst with_comm) ! 0)
   \<and> futures (fst with_comm) = Some []
   \<and> replies (fst with_comm) = [Rejected (TypeError ''this._socket is null'')]
   \<and> thrown (onKernelMessage sample_env (status_msg ''s1'' ''dead'') with_comm)
       = Some (TypeError ''this._socket is null'')
   \<and> status (fst (receive sample_env (status_msg ''s1'' ''dead'') with_comm)) = Dead
   \<and> \<not> isDisposed (fst (receive sample_env (status_msg ''s1'' ''dead'') with_comm))
   \<and> comms (fst (receive sample_env (status_msg ''s1'' ''dead'') with_comm)) = Some [(''c1'', 0)]
   \<and> c_msgFunc (commObjs (fst (receive sample_env (status_msg ''s1'' ''dead'') with_comm)) ! 0)
   \<and> trace (fst (receive sample_env (status_msg ''s1'' ''dead'') with_comm)) = []
   \<and> thrown (Kernel_dispose (receive sample_env (status_msg ''s1'' ''dead'') with_comm))
       = Some (TypeError ''this._socket is null'')
   \<and> comms (fst (state_of (Kernel_dispose (receive sample_env (status_msg ''s1'' ''dead'') with_comm))))
       = Some [(''c1'', 0)]
   \<and> c_msgFunc (commObjs (fst (state_of (Kernel_dispose
         (receive sample_env (status_msg ''s1'' ''dead'') with_comm)))) ! 0)
   \<and> thrown (KernelSocket_onWSClose 0
         (put_socket 0 (sample_socket\<lparr>reconnectAttempt := 7\<rparr>) (snd with_comm)))
       = Some (TypeError ''this._updateStatus is not a function'')"
  by (simp add: with_comm_def constructed_value connectToComm_def lift_def
        receive_def onKernelMessage_def lookup_future_def iopub_switch_def updateStatus_def
        status_of_state_def logKernelStatus_def drain_def run_round_def Kernel_dispose_def
        isDisposed_def KernelSocket_onWSClose_def onWSClose_def call_member_def put_socket_def
        nth_opt_def status_msg_def sample_msg_def sample_env_def sample_world_def
        empty_world_def sample_socket_def empty_content_def Let_def)

section \<open>Routing of a received message\<close>

lemma adds_no_routing_refl [simp]: "adds_no_routing k k"
  by (simp add: adds_no_routing_def routing_def)

lemma adds_no_routing_trans:
  "adds_no_routing k k1 \<Longrightarrow> adds_no_routing k1 k2 \<Longrightarrow> adds_no_routing k k2"
  by (auto simp: adds_no_routing_def)

lemma internal_adds_no_routing: "extends_internal k k' \<Longrightarrow> adds_no_routing k k'"
  by (auto simp: extends_internal_def adds_no_routing_def internal_no_routing)

lemma adds_no_routing_same: "trace k' = trace k \<Longrightarrow> adds_no_routing k k'"
  by (simp add: adds_no_routing_def routing_def)

lemma adds_no_routing_eq: "adds_no_routing k k' \<Longrightarrow> routing (trace k') = routing (trace k)"
  by (auto simp: adds_no_routing_def)

lemma updateStatus_no_routing:
  "adds_no_routing k (fst (state_of (updateStatus state (k, w))))"
proof (cases "status_of_state state")
  case None
  then show ?thesis
    by (simp add: updateStatus_def internal_adds_no_routing extends_internal_emit)
next
  case (Some st)
  show ?thesis
  proof (cases "st = status k")
    case True
    then show ?thesis using Some by (simp add: updateStatus_def)
  next
    case False
    let ?k0 = "k\<lparr>status := st\<rparr>"
    have k0: "adds_no_routing k ?k0" by (simp add: adds_no_routing_same)
    have l: "adds_no_routing k (fst (state_of (logKernelStatus (?k0, w))))"
      by (rule adds_no_routing_trans [OF k0 internal_adds_no_routing [OF logKernelStatus_extends]])
    show ?thesis
    proof (cases "logKernelStatus (?k0, w)")
      case (Throws e x)
      then show ?thesis using Some False l by (simp add: updateStatus_def)
    next
      case (Returns x)
      obtain k1 w1 where x: "x = (k1, w1)" by (cases x)
      let ?k2 = "emit (StatusChanged st) k1"
      have "adds_no_routing k1 ?k2" by (simp add: adds_no_routing_def emit_def routing_def)
      with l Returns x have k2: "adds_no_routing k ?k2" by (auto intro: adds_no_routing_trans)
      have "adds_no_routing k (fst (state_of (Kernel_dispose (?k2, w1))))"
        by (rule adds_no_routing_trans [OF k2 internal_adds_no_routing [OF Kernel_dispose_extends]])
      then show ?thesis
        using Some False Returns x k2
        by (cases "st = Dead") (simp_all add: updateStatus_def Let_def)
    qed
  qed
qed

lemma then_promise_trace [simp]: "trace (then_promise p rc k) = trace k"
  by (simp add: then_promise_def split: option.splits pstate.splits)

lemma call_handler_extends: "extends_internal k (state_of (call_handler ho ev m k))"
  if "\<And>h. is_internal (ev h m)"
  using that by (auto simp: call_handler_def extends_internal_emit split: option.splits)

lemma handleCommOpen_trace: "trace (state_of (handleCommOpen H m k)) = trace k"
  by (simp add: handleCommOpen_def Let_def split: option.splits)

lemma handleCommMsg_extends: "extends_internal k (state_of (handleCommMsg m k))"
  by (auto simp: handleCommMsg_def extends_internal_emit extends_internal_same
           intro!: call_handler_extends split: option.splits)

lemma handleCommClose_extends: "extends_internal k (state_of (handleCommClose m k))"
  by (auto simp: handleCommClose_def extends_internal_emit extends_internal_same
           split: option.splits)

lemma fst_state_of_lift [simp]: "fst (state_of (lift r w)) = state_of r"
  by (cases r) (simp_all add: lift_def)

lemma iopub_switch_no_routing:
  "adds_no_routing k (fst (state_of (iopub_switch H m (k, w))))"
  by (simp add: iopub_switch_def updateStatus_no_routing internal_adds_no_routing
        handleCommMsg_extends handleCommClose_extends adds_no_routing_same handleCommOpen_trace)

lemma Future_handleMsg_routing:
  "routing (trace (Future_handleMsg H p f m k)) = routing (trace k) @ [HandleMsg p m]"
proof -
  have r: "trace (resolve_reply q c k') = trace k'" for q c k'
    by (simp add: resolve_reply_def split: option.splits pstate.splits)
  define k3 where "k3 =
    (if fe_reply (handleMsg H f m)
     then (case f_onReply f of
             None \<Rightarrow> (emit (HandleMsg p m) k)\<lparr>futures :=
                 map_option (AList.map_entry p (\<lambda>g. g\<lparr>f_seen := f_seen g @ [m]\<rparr>))
                   (futures (emit (HandleMsg p m) k))\<rparr>
           | Some q \<Rightarrow> resolve_reply q (content m)
               ((emit (HandleMsg p m) k)\<lparr>futures :=
                 map_option (AList.map_entry p (\<lambda>g. g\<lparr>f_seen := f_seen g @ [m]\<rparr>))
                   (futures (emit (HandleMsg p m) k))\<rparr>))
     else (emit (HandleMsg p m) k)\<lparr>futures :=
                 map_option (AList.map_entry p (\<lambda>g. g\<lparr>f_seen := f_seen g @ [m]\<rparr>))
                   (futures (emit (HandleMsg p m) k))\<rparr>)"
  have t3: "trace k3 = trace k @ [HandleMsg p m]"
    by (simp add: k3_def r emit_def split: option.splits)
  have d: "routing (trace (state_of (Future_dispose p k3))) = routing (trace k3)"
    by (rule extends_internal_routing [OF Future_dispose_extends])
  have u: "Future_handleMsg H p f m k
             = (if fe_dispose (handleMsg H f m) then state_of (Future_dispose p k3) else k3)"
    unfolding Future_handleMsg_def Let_def k3_def by (rule refl)
  have "routing (trace (Future_handleMsg H p f m k)) = routing (trace k3)"
    unfolding u using d by (cases "fe_dispose (handleMsg H f m)") simp_all
  then show ?thesis using t3 by (simp add: routing_def)
qed

lemma healthy_consistent: "healthy k w \<Longrightarrow> consistent k"
  by (auto simp: healthy_def consistent_def)

lemma updateStatus_returns:
  assumes "healthy k w"
  shows "returns (updateStatus state (k, w))"
proof (cases "status_of_state state")
  case None
  then show ?thesis by (simp add: updateStatus_def)
next
  case (Some st)
  show ?thesis
  proof (cases "st = status k")
    case True
    then show ?thesis using Some by (simp add: updateStatus_def)
  next
    case False
    from assms obtain r where "socket k = Some r" "r < length (sockets w)"
      by (auto simp: healthy_def)
    with updateStatus_adopts [OF Some False _ _ healthy_consistent [OF assms]]
    show ?thesis by blast
  qed
qed

lemma iopub_switch_returns:
  assumes "healthy k w"
  shows "returns (iopub_switch H m (k, w))"
proof -
  from assms obtain ps cs where m: "commPromises k = Some ps" "comms k = Some cs"
    by (auto simp: healthy_def)
  have h: "\<not> h_throws h" if "nth_opt (commObjs k) c = Some cm" "c_onMsg cm = Some h" for c cm h
  proof -
    from that(1) have "cm \<in> set (commObjs k)" by (auto dest: nth_opt_Some_less)
    then show ?thesis using assms that(2) by (auto simp: healthy_def)
  qed
  have o: "returns (handleCommOpen H m k)"
    using m by (simp add: handleCommOpen_def Let_def)
  have g: "returns (handleCommMsg m k)"
    using m h by (auto simp: handleCommMsg_def call_handler_def split: option.splits)
  have c: "returns (handleCommClose m k)"
    using m by (auto simp: handleCommClose_def split: option.splits)
  have l: "returns (lift r w)" if "returns r" for r
    using that by (cases r) (simp_all add: lift_def)
  show ?thesis
    using updateStatus_returns [OF assms] o g c by (simp add: iopub_switch_def l)
qed

lemma Future_handleMsg_healthy:
  assumes "healthy k w"
  shows "healthy (Future_handleMsg H p f m k) w"
proof -
  from assms obtain fs where fs: "futures k = Some fs" by (auto simp: healthy_def)
  have r: "futures (resolve_reply q c k') = futures k' \<and> comms (resolve_reply q c k') = comms k'
         \<and> commPromises (resolve_reply q c k') = commPromises k'
         \<and> socket (resolve_reply q c k') = socket k'
         \<and> commObjs (resolve_reply q c k') = commObjs k'" for q c k'
    by (simp add: resolve_reply_def split: option.splits pstate.splits)
  show ?thesis
    using assms fs
    by (auto simp: healthy_def Future_handleMsg_def Let_def emit_def r Future_dispose_def
             split: option.splits)
qed

text \<open>
  What the body of \<open>_onKernelMessage\<close> does in every state.  Let a validated message
  name a live future in its parent header.  Then, among the deliveries to futures and the
  emissions on \<open>iopubReceived\<close> and \<open>unhandledMessage\<close>, the method adds exactly: one
  delivery of the message to that future and, after it, for an iopub message whose
  handling returns, one emission on \<open>iopubReceived\<close>; nothing is emitted on
  \<open>unhandledMessage\<close>.  A validated message that names no live future is delivered to
  no future and, when its handling returns, emitted on \<open>unhandledMessage\<close> (after the
  emission on \<open>iopubReceived\<close> if it is an iopub message).  The handling returns unless
  the message is an iopub message of type \<open>status\<close>, \<open>comm_open\<close>, \<open>comm_msg\<close> or
  \<open>comm_close\<close> whose handler throws.
\<close>

lemma routing_of_received_message:
  "(validateKernelMessage H m \<and> lookup_future k m = Some (p, f) \<longrightarrow>
      (channel m = ''iopub'' \<and> returns (onKernelMessage H m (k, w)) \<longrightarrow>
         routing (trace (fst (state_of (onKernelMessage H m (k, w)))))
           = routing (trace k) @ [HandleMsg p m, IopubReceived m])
    \<and> (channel m \<noteq> ''iopub'' \<or> \<not> returns (onKernelMessage H m (k, w)) \<longrightarrow>
         routing (trace (fst (state_of (onKernelMessage H m (k, w)))))
           = routing (trace k) @ [HandleMsg p m]))
   \<and> (validateKernelMessage H m \<and> lookup_future k m = None \<and> returns (onKernelMessage H m (k, w)) \<longrightarrow>
         routing (trace (fst (state_of (onKernelMessage H m (k, w)))))
           = routing (trace k) @ (if channel m = ''iopub'' then [IopubReceived m] else [])
               @ [UnhandledMessage m])
   \<and> (validateKernelMessage H m
        \<and> (channel m \<noteq> ''iopub''
             \<or> msg_type (header m) \<notin> {''status'', ''comm_open'', ''comm_msg'', ''comm_close''}
             \<or> healthy k w) \<longrightarrow>
         returns (onKernelMessage H m (k, w)))"
proof -
  define k1 where "k1 = (case lookup_future k m of None \<Rightarrow> k | Some (p, f) \<Rightarrow> Future_handleMsg H p f m k)"
  define handled where "handled = (lookup_future k m \<noteq> None)"
  define sw where "sw = iopub_switch H m (k1, w)"
  have sw_r: "routing (trace (fst (state_of sw))) = routing (trace k1)"
    unfolding sw_def by (rule adds_no_routing_eq [OF iopub_switch_no_routing])
  have unfold: "onKernelMessage H m (k, w) =
      and_then
        (if channel m = ''iopub'' then
           and_then sw (\<lambda>(k2, w2). Returns (emit (IopubReceived m) k2, w2))
         else Returns (k1, w))
        (\<lambda>(k3, w3). if \<not> handled then Returns (emit (UnhandledMessage m) k3, w3) else Returns (k3, w3))"
    if "validateKernelMessage H m"
    using that by (simp add: onKernelMessage_def Let_def k1_def handled_def sw_def)
  have res: "routing (trace (fst (state_of (onKernelMessage H m (k, w)))))
        = routing (trace k1)
            @ (if channel m = ''iopub'' \<and> returns sw then [IopubReceived m] else [])
            @ (if \<not> handled \<and> (channel m = ''iopub'' \<longrightarrow> returns sw) then [UnhandledMessage m] else [])"
    and ret: "returns (onKernelMessage H m (k, w)) \<longleftrightarrow> (channel m = ''iopub'' \<longrightarrow> returns sw)"
    if v: "validateKernelMessage H m"
  proof -
    show "routing (trace (fst (state_of (onKernelMessage H m (k, w)))))
        = routing (trace k1)
            @ (if channel m = ''iopub'' \<and> returns sw then [IopubReceived m] else [])
            @ (if \<not> handled \<and> (channel m = ''iopub'' \<longrightarrow> returns sw) then [UnhandledMessage m] else [])"
      unfolding unfold [OF v] using sw_r
      by (cases sw) (auto simp: emit_def routing_def split: prod.splits)
    show "returns (onKernelMessage H m (k, w)) \<longleftrightarrow> (channel m = ''iopub'' \<longrightarrow> returns sw)"
      unfolding unfold [OF v] by (cases sw) (auto split: prod.splits)
  qed
  have A: "(channel m = ''iopub'' \<and> returns (onKernelMessage H m (k, w)) \<longrightarrow>
         routing (trace (fst (state_of (onKernelMessage H m (k, w)))))
           = routing (trace k) @ [HandleMsg p m, IopubReceived m])
    \<and> (channel m \<noteq> ''iopub'' \<or> \<not> returns (onKernelMessage H m (k, w)) \<longrightarrow>
         routing (trace (fst (state_of (onKernelMessage H m (k, w)))))
           = routing (trace k) @ [HandleMsg p m])"
    if v: "validateKernelMessage H m" and l: "lookup_future k m = Some (p, f)"
  proof -
    have "routing (trace k1) = routing (trace k) @ [HandleMsg p m]"
      using l by (simp add: k1_def Future_handleMsg_routing)
    moreover have "handled" using l by (simp add: handled_def)
    ultimately show ?thesis using res [OF v] ret [OF v] by auto
  qed
  have B: "routing (trace (fst (state_of (onKernelMessage H m (k, w)))))
           = routing (trace k) @ (if channel m = ''iopub'' then [IopubReceived m] else [])
               @ [UnhandledMessage m]"
    if v: "validateKernelMessage H m" and l: "lookup_future k m = None"
      and r: "returns (onKernelMessage H m (k, w))"
  proof -
    have "k1 = k" "\<not> handled" using l by (simp_all add: k1_def handled_def)
    then show ?thesis using res [OF v] ret [OF v] r by auto
  qed
  have C: "returns (onKernelMessage H m (k, w))"
    if v: "validateKernelMessage H m"
      and t: "channel m \<noteq> ''iopub''
             \<or> msg_type (header m) \<notin> {''status'', ''comm_open'', ''comm_msg'', ''comm_close''}
             \<or> healthy k w"
  proof (cases "channel m = ''iopub''")
    case False
    then show ?thesis using ret [OF v] by simp
  next
    case True
    show ?thesis
    proof (cases "healthy k w")
      case h: True
      have "healthy k1 w"
        using h by (auto simp: k1_def Future_handleMsg_healthy split: option.splits)
      then have "returns sw" unfolding sw_def by (rule iopub_switch_returns)
      then show ?thesis using ret [OF v] by simp
    next
      case False
      then have "sw = Returns (k1, w)" using t True by (simp add: sw_def iopub_switch_def)
      then show ?thesis using ret [OF v] by simp
    qed
  qed
  show ?thesis using A B C by blast
qed

text \<open>
  C1, run on the kernel that \<open>connectToKernel\<close> builds for a running kernel.  An iopub
  status message \<open>starting\<close> that names no future is validated, then \<open>_updateStatus\<close>
  throws in \<open>logKernelStatus\<close>, which reads the id of the socket that was never stored:
  the message is emitted on neither \<open>iopubReceived\<close> nor \<open>unhandledMessage\<close>.  And
  after the server opened comm \<open>c1\<close> on a registered target whose callback installed an
  \<open>onMsg\<close> handler that throws, a \<open>comm_msg\<close> for \<open>c1\<close> that names no future is
  handed to that handler by \<open>_handleCommMsg\<close> outside any \<open>try\<close>: the exception leaves
  \<open>_onKernelMessage\<close> and the message is emitted on neither signal (the only emissions
  are those of the \<open>comm_open\<close> message before).
\<close>

theorem unhandled_message_not_emitted:
  "validateKernelMessage sample_env (status_msg ''x1'' ''starting'')
   \<and> lookup_future (fst constructed) (status_msg ''x1'' ''starting'') = None
   \<and> thrown (onKernelMessage sample_env (status_msg ''x1'' ''starting'') constructed)
       = Some (TypeError ''this._socket is null'')
   \<and> routing (trace (fst (receive sample_env (status_msg ''x1'' ''starting'') constructed))) = []
   \<and> routing (trace (fst with_careless_comm))
       = [IopubReceived (comm_msg_for ''o1'' ''comm_open'' ''tgt'' None),
          UnhandledMessage (comm_msg_for ''o1'' ''comm_open'' ''tgt'' None)]
   \<and> comms (fst with_careless_comm) = Some [(''c1'', 0)]
   \<and> lookup_future (fst with_careless_comm) (comm_msg_for ''x2'' ''comm_msg'' ''tgt'' None) = None
   \<and> thrown (onKernelMessage sample_env (comm_msg_for ''x2'' ''comm_msg'' ''tgt'' None) with_careless_comm)
       = Some (Error ''careless.onMsg'')
   \<and> routing (trace (fst (receive sample_env (comm_msg_for ''x2'' ''comm_msg'' ''tgt'' None)
         with_careless_comm)))
       = [IopubReceived (comm_msg_for ''o1'' ''comm_open'' ''tgt'' None),
          UnhandledMessage (comm_msg_for ''o1'' ''comm_open'' ''tgt'' None)]
   \<and> comm_calls (trace (fst (receive sample_env (comm_msg_for ''x2'' ''comm_msg'' ''tgt'' None)
         with_careless_comm)))
       = [TargetCalled ''careless'' 0 (comm_msg_for ''o1'' ''comm_open'' ''tgt'' None),
          OnMsgCalled ''careless.onMsg'' (comm_msg_for ''x2'' ''comm_msg'' ''tgt'' None)]"
  by (simp add: with_careless_comm_def constructed_value registerCommTarget_def lift_def
        receive_def onKernelMessage_def lookup_future_def iopub_switch_def updateStatus_def
        status_of_state_def logKernelStatus_def drain_def run_round_def run_OpenJob_def
        handleCommOpen_def handleCommMsg_def loadObject_def settle_def call_handler_def
        emit_def routing_def comm_calls_def nth_opt_def truthy_def
        comm_msg_for_def status_msg_def sample_msg_def sample_env_def careless_target_def
        empty_content_def Let_def)

section \<open>Comm messages that arrive while the target is being resolved\<close>

lemma handleCommMsg_chains:
  assumes "commPromises k = Some ps" and "map_of ps (comm_id (content m)) = Some p"
    and "nth_opt (opens k) p = Some op" and "o_result op = Pending"
  shows "handleCommMsg m k = Returns (k\<lparr>opens := (opens k)[p := op\<lparr>o_chain := o_chain op @ [MsgThen m]\<rparr>]\<rparr>)"
  using assms by (simp add: handleCommMsg_def then_promise_def)

lemma handleCommMsg_each_chains:
  assumes "commPromises k = Some ps" and "map_of ps i = Some p"
    and "\<forall>m \<in> set ms. comm_id (content m) = i"
    and "nth_opt (opens k) p = Some op" and "o_result op = Pending"
  shows "handleCommMsg_each ms k
           = Returns (k\<lparr>opens := (opens k)[p := op\<lparr>o_chain := o_chain op @ map MsgThen ms\<rparr>]\<rparr>)"
  using assms
proof (induction ms arbitrary: k op)
  case Nil
  from Nil(4) have "p < length (opens k)" "opens k ! p = op" by (auto dest: nth_opt_Some_less)
  then have "(opens k)[p := op] = opens k" by (metis list_update_id)
  then show ?case by (cases k) simp
next
  case (Cons m ms)
  let ?op1 = "op\<lparr>o_chain := o_chain op @ [MsgThen m]\<rparr>"
  let ?k1 = "k\<lparr>opens := (opens k)[p := ?op1]\<rparr>"
  have i: "map_of ps (comm_id (content m)) = Some p" using Cons.prems(2,3) by simp
  have step: "handleCommMsg m k = Returns ?k1"
    by (rule handleCommMsg_chains [OF Cons.prems(1) i Cons.prems(4,5)])
  have p: "p < length (opens k)" using Cons.prems(4) by (auto dest: nth_opt_Some_less)
  have "handleCommMsg_each ms ?k1
          = Returns (?k1\<lparr>opens := (opens ?k1)[p := ?op1\<lparr>o_chain := o_chain ?op1 @ map MsgThen ms\<rparr>]\<rparr>)"
    using Cons.prems p by (intro Cons.IH) simp_all
  then show ?case using step by simp
qed

lemma settle_fulfilled:
  assumes "nth_opt (opens k) p = Some op"
  shows "jobs (settle p (Fulfilled c) k) = jobs k @ map (job_of c) (o_chain op)"
    and "trace (settle p (Fulfilled c) k) = trace k"
    and "commObjs (settle p (Fulfilled c) k) = commObjs k"
  using assms by (simp_all add: settle_def)

lemma run_MsgJob_effect:
  assumes "nth_opt (commObjs k) c = Some cm"
  shows "commObjs (run_MsgJob c m k) = commObjs k"
    and "comm_calls (trace (run_MsgJob c m k))
           = comm_calls (trace k) @ (case c_onMsg cm of None \<Rightarrow> [] | Some h \<Rightarrow> [OnMsgCalled (h_name h) m])"
  using assms
  by (auto simp: run_MsgJob_def call_handler_def emit_def comm_calls_def split: option.splits)

lemma run_MsgJobs_calls:
  assumes "nth_opt (commObjs k) c = Some cm"
  shows "comm_calls (trace (fst (fold (run_job H) (map (MsgJob c) ms) (k, w))))
           = comm_calls (trace k)
               @ (case c_onMsg cm of None \<Rightarrow> [] | Some h \<Rightarrow> map (OnMsgCalled (h_name h)) ms)"
  using assms
proof (induction ms arbitrary: k)
  case Nil
  then show ?case by (simp split: option.splits)
next
  case (Cons m ms)
  let ?k1 = "run_MsgJob c m k"
  have c1: "nth_opt (commObjs ?k1) c = Some cm"
    using Cons.prems run_MsgJob_effect(1) [OF Cons.prems] by simp
  have "comm_calls (trace (fst (fold (run_job H) (map (MsgJob c) ms) (?k1, w))))
          = comm_calls (trace ?k1)
              @ (case c_onMsg cm of None \<Rightarrow> [] | Some h \<Rightarrow> map (OnMsgCalled (h_name h)) ms)"
    by (rule Cons.IH [OF c1])
  then show ?case
    using run_MsgJob_effect(2) [OF Cons.prems, of m] by (simp split: option.splits)
qed

lemma comm_calls_append [simp]: "comm_calls (xs @ ys) = comm_calls xs @ comm_calls ys"
  by (simp add: comm_calls_def)

text \<open>
  C8.  Let a live kernel with an empty microtask queue receive a \<open>comm_open\<close> that names
  a module, with \<open>requirejs\<close> present, so that the target is resolved asynchronously.
  Every \<open>comm_msg\<close> for the same comm id that \<open>_handleCommMsg\<close> handles before the module
  arrives is chained to the stored promise, in arrival order: none is delivered, none is
  dropped, nothing is logged.  When the module arrives with a callback for the target name
  that does not throw, the calls made are the target callback with the open message and,
  after it, the \<open>onMsg\<close> handler it installed with each chained message, in arrival order
  (no call if it installed none).
\<close>

theorem comm_msg_waits_for_open:
  "commPromises k = Some ps \<and> comms k = Some cs \<and> jobs k = []
   \<and> requirejs_defined H \<and> truthy (target_module (content om))
   \<and> (\<forall>m \<in> set ms. comm_id (content m) = comm_id (content om))
   \<and> map_of exports (target_name (content om)) = Some t \<and> \<not> cb_throws t \<longrightarrow>
     returns (handleCommOpen H om k)
   \<and> returns (handleCommMsg_each ms (state_of (handleCommOpen H om k)))
   \<and> trace (state_of (handleCommMsg_each ms (state_of (handleCommOpen H om k)))) = trace k
   \<and> map_option o_chain
        (nth_opt (opens (state_of (handleCommMsg_each ms (state_of (handleCommOpen H om k)))))
           (length (opens k)))
       = Some (map MsgThen ms)
   \<and> comm_calls (trace (fst (module_arrives H (length (opens k)) (Inr exports)
         (state_of (handleCommMsg_each ms (state_of (handleCommOpen H om k))), w))))
       = comm_calls (trace k)
           @ TargetCalled (cb_name t) (length (commObjs k)) om
           # (case cb_onMsg t of None \<Rightarrow> [] | Some h \<Rightarrow> map (OnMsgCalled (h_name h)) ms)"
proof (intro impI)
  assume a: "commPromises k = Some ps \<and> comms k = Some cs \<and> jobs k = []
   \<and> requirejs_defined H \<and> truthy (target_module (content om))
   \<and> (\<forall>m \<in> set ms. comm_id (content m) = comm_id (content om))
   \<and> map_of exports (target_name (content om)) = Some t \<and> \<not> cb_throws t"
  then have a1: "commPromises k = Some ps" and a2: "comms k = Some cs" and a3: "jobs k = []"
    and a4: "requirejs_defined H" and a5: "truthy (target_module (content om))"
    and a6: "\<forall>m \<in> set ms. comm_id (content m) = comm_id (content om)"
    and a7: "map_of exports (target_name (content om)) = Some t" and a8: "\<not> cb_throws t"
    by blast+
  define p where "p = length (opens k)"
  define i where "i = comm_id (content om)"
  define c where "c = length (commObjs k)"
  define op0 where "op0 = \<lparr>o_msg = om, o_load = Pending, o_result = Pending, o_chain = []\<rparr>"
  define k1 where "k1 = k\<lparr>opens := opens k @ [op0], commPromises := Some (AList.update i p ps)\<rparr>"
  have ld: "loadObject (requirejs_defined H) (target_name (content om)) (target_module (content om))
              (targetRegistry k) = Pending"
    using a4 a5 by (simp add: loadObject_def)
  have o: "handleCommOpen H om k = Returns k1"
    using a1 ld by (simp add: handleCommOpen_def Let_def k1_def op0_def p_def i_def)
  have k1p: "commPromises k1 = Some (AList.update i p ps)" "map_of (AList.update i p ps) i = Some p"
    "nth_opt (opens k1) p = Some op0" "o_result op0 = Pending"
    by (simp_all add: k1_def p_def op0_def update_conv')
  have a6': "\<forall>m \<in> set ms. comm_id (content m) = i" using a6 by (simp add: i_def)
  define op1 where "op1 = op0\<lparr>o_chain := o_chain op0 @ map MsgThen ms\<rparr>"
  define k2 where "k2 = k1\<lparr>opens := (opens k1)[p := op1]\<rparr>"
  have e: "handleCommMsg_each ms k1 = Returns k2"
    unfolding k2_def op1_def by (rule handleCommMsg_each_chains [OF k1p(1,2) a6' k1p(3,4)])
  have pl: "p < length (opens k1)" by (simp add: k1_def p_def)
  have k2f: "nth_opt (opens k2) p = Some op1" "trace k2 = trace k" "jobs k2 = []"
    "commPromises k2 = Some (AList.update i p ps)" "comms k2 = Some cs" "commObjs k2 = commObjs k"
    using pl a2 a3 by (simp_all add: k2_def k1_def)
  have op1f: "o_load op1 = Pending" "o_msg op1 = om" "o_chain op1 = map MsgThen ms"
    by (simp_all add: op1_def op0_def)
  \<comment> \<open>the module arrives\<close>
  define op2 where "op2 = op1\<lparr>o_load := Fulfilled t\<rparr>"
  define k3 where "k3 = k2\<lparr>opens := (opens k2)[p := op2], jobs := [OpenJob p]\<rparr>"
  have ml: "module_loaded (target_name (content om))
              (case target_module (content om) of None \<Rightarrow> [] | Some mn \<Rightarrow> mn) exports = Fulfilled t"
    using a7 by (simp add: module_loaded_def)
  have ma: "module_arrives H p (Inr exports) (k2, w) = drain H (k3, w)"
    using k2f(1,3) op1f(1,2) ml by (simp add: module_arrives_def Let_def k3_def op2_def)
  have pl2: "p < length (opens k2)" using k2f(1) by (auto dest: nth_opt_Some_less)
  define k3' where "k3' = k3\<lparr>jobs := []\<rparr>"
  have k3f: "nth_opt (opens k3') p = Some op2" "commPromises k3' = Some (AList.update i p ps)"
    "comms k3' = Some cs" "commObjs k3' = commObjs k" "trace k3' = trace k" "jobs k3' = []"
    using pl2 k2f by (simp_all add: k3'_def k3_def)
  have op2f: "o_load op2 = Fulfilled t" "o_msg op2 = om" "o_chain op2 = map MsgThen ms"
    using op1f by (simp_all add: op2_def)
  define cm where "cm = \<lparr>c_target = target_name (content om), c_id = Some i,
                         c_onClose = cb_onClose t, c_onMsg = cb_onMsg t, c_msgFunc = True,
                         c_disposeCb = Some (UnregisterId i)\<rparr>"
  define k4 where "k4 = (emit (TargetCalled (cb_name t) c om) (k3'\<lparr>commObjs := commObjs k3' @ [cm]\<rparr>))
                          \<lparr>commPromises := Some (AList.delete i (AList.update i p ps)),
                           comms := Some (AList.update i c cs)\<rparr>"
  have r1: "run_OpenJob H p (k3', w) = (settle p (Fulfilled c) k4, w)"
    using k3f op2f a8
    by (simp add: run_OpenJob_def Let_def emit_def k4_def cm_def c_def i_def)
  have k4f: "nth_opt (opens k4) p = Some op2" "jobs k4 = []"
    "trace k4 = trace k @ [TargetCalled (cb_name t) c om]"
    "commObjs k4 = commObjs k @ [cm]"
    using k3f by (simp_all add: k4_def emit_def)
  define k5 where "k5 = settle p (Fulfilled c) k4"
  have k5f: "jobs k5 = map (MsgJob c) ms" "trace k5 = trace k @ [TargetCalled (cb_name t) c om]"
    "commObjs k5 = commObjs k @ [cm]"
    using settle_fulfilled [OF k4f(1), of c] k4f op2f(3) by (simp_all add: k5_def comp_def)
  have round1: "run_round H (k3, w) = (k5, w)"
    using r1 by (simp add: run_round_def k3_def k3'_def k5_def)
  define k5' where "k5' = k5\<lparr>jobs := []\<rparr>"
  have k5'f: "nth_opt (commObjs k5') c = Some cm" "trace k5' = trace k @ [TargetCalled (cb_name t) c om]"
    using k5f by (simp_all add: k5'_def c_def)
  have round2: "run_round H (k5, w) = fold (run_job H) (map (MsgJob c) ms) (k5', w)"
    using k5f(1) by (simp add: run_round_def k5'_def)
  have cm_h: "c_onMsg cm = cb_onMsg t" by (simp add: cm_def)
  have calls: "comm_calls (trace (fst (drain H (k3, w))))
        = comm_calls (trace k) @ TargetCalled (cb_name t) c om
            # (case cb_onMsg t of None \<Rightarrow> [] | Some h \<Rightarrow> map (OnMsgCalled (h_name h)) ms)"
    using run_MsgJobs_calls [OF k5'f(1), of H ms w] k5'f(2) cm_h
    by (simp add: drain_def round1 round2 comm_calls_def)
  show "returns (handleCommOpen H om k)
   \<and> returns (handleCommMsg_each ms (state_of (handleCommOpen H om k)))
   \<and> trace (state_of (handleCommMsg_each ms (state_of (handleCommOpen H om k)))) = trace k
   \<and> map_option o_chain
        (nth_opt (opens (state_of (handleCommMsg_each ms (state_of (handleCommOpen H om k)))))
           (length (opens k)))
       = Some (map MsgThen ms)
   \<and> comm_calls (trace (fst (module_arrives H (length (opens k)) (Inr exports)
         (state_of (handleCommMsg_each ms (state_of (handleCommOpen H om k))), w))))
       = comm_calls (trace k)
           @ TargetCalled (cb_name t) (length (commObjs k)) om
           # (case cb_onMsg t of None \<Rightarrow> [] | Some h \<Rightarrow> map (OnMsgCalled (h_name h)) ms)"
    using o e k2f(1,2) op1f(3) ma calls by (simp add: p_def [symmetric] c_def [symmetric])
qed

theorem comm_msg_waits_for_open_witness:
  "commPromises sample_kernel = Some [] \<and> comms sample_kernel = Some [] \<and> jobs sample_kernel = []
   \<and> requirejs_defined env_with_requirejs
   \<and> truthy (target_module (content (comm_msg_for ''o'' ''comm_open'' ''tgt'' (Some ''m''))))
   \<and> comm_id (content (comm_msg_for ''a'' ''comm_msg'' [] None))
       = comm_id (content (comm_msg_for ''o'' ''comm_open'' ''tgt'' (Some ''m'')))
   \<and> comm_id (content (comm_msg_for ''b'' ''comm_msg'' [] None))
       = comm_id (content (comm_msg_for ''o'' ''comm_open'' ''tgt'' (Some ''m'')))
   \<and> map_of [(''tgt'', module_target)]
        (target_name (content (comm_msg_for ''o'' ''comm_open'' ''tgt'' (Some ''m'')))) = Some module_target
   \<and> \<not> cb_throws module_target
   \<and> comm_calls (trace (fst (module_arrives env_with_requirejs 0 (Inr [(''tgt'', module_target)])
         (state_of (handleCommMsg_each
             [comm_msg_for ''a'' ''comm_msg'' [] None, comm_msg_for ''b'' ''comm_msg'' [] None]
             (state_of (handleCommOpen env_with_requirejs
                (comm_msg_for ''o'' ''comm_open'' ''tgt'' (Some ''m'')) sample_kernel))),
          sample_world))))
       = [TargetCalled ''from_module'' 0 (comm_msg_for ''o'' ''comm_open'' ''tgt'' (Some ''m'')),
          OnMsgCalled ''module.onMsg'' (comm_msg_for ''a'' ''comm_msg'' [] None),
          OnMsgCalled ''module.onMsg'' (comm_msg_for ''b'' ''comm_msg'' [] None)]"
proof -
  let ?om = "comm_msg_for ''o'' ''comm_open'' ''tgt'' (Some ''m'')"
  let ?ms = "[comm_msg_for ''a'' ''comm_msg'' [] None, comm_msg_for ''b'' ''comm_msg'' [] None]"
  have h: "commPromises sample_kernel = Some []" "comms sample_kernel = Some []"
    "jobs sample_kernel = []" "requirejs_defined env_with_requirejs"
    "truthy (target_module (content ?om))"
    "\<forall>m \<in> set ?ms. comm_id (content m) = comm_id (content ?om)"
    "map_of [(''tgt'', module_target)] (target_name (content ?om)) = Some module_target"
    "\<not> cb_throws module_target"
    by (simp_all add: sample_kernel_def env_with_requirejs_def sample_env_def comm_msg_for_def
          sample_msg_def empty_content_def truthy_def module_target_def)
  have z: "opens sample_kernel = []" "commObjs sample_kernel = []" "trace sample_kernel = []"
    by (simp_all add: sample_kernel_def)
  have "comm_calls (trace (fst (module_arrives env_with_requirejs (length (opens sample_kernel))
           (Inr [(''tgt'', module_target)])
           (state_of (handleCommMsg_each ?ms (state_of (handleCommOpen env_with_requirejs ?om sample_kernel))),
            sample_world))))
       = comm_calls (trace sample_kernel)
           @ TargetCalled (cb_name module_target) (length (commObjs sample_kernel)) ?om
           # (case cb_onMsg module_target of None \<Rightarrow> [] | Some h \<Rightarrow> map (OnMsgCalled (h_name h)) ?ms)"
    using comm_msg_waits_for_open
            [of sample_kernel "[]" "[]" env_with_requirejs ?om ?ms "[(''tgt'', module_target)]"
                module_target sample_world] h
    by blast
  then show ?thesis using h z by (simp add: module_target_def comm_calls_def)
qed

section \<open>Which callback opens a server-initiated comm\<close>

text \<open>With a module name, \<open>loadObject\<close> does not read the registry it is given.\<close>

lemma loadObject_module_ignores_registry:
  "truthy moduleName \<Longrightarrow> loadObject rq name moduleName registry = loadObject rq name moduleName None"
  by (simp add: loadObject_def)

lemma loadObject_registry:
  "\<not> truthy moduleName \<Longrightarrow> map_of reg name = Some t \<Longrightarrow>
     loadObject rq name moduleName (Some reg) = Fulfilled t"
  by (simp add: loadObject_def)

text \<open>
  C6, run on a kernel with a callback registered locally for \<open>tgt\<close> and a \<open>comm_open\<close>
  for \<open>tgt\<close> that also names the module \<open>m\<close>.  Without \<open>requirejs\<close> the promise of
  \<open>loadObject\<close> is rejected and no callback is called.  With \<open>requirejs\<close> the promise
  waits for the module, and the callback called is the one the module exports, not the one
  registered locally.  Only for a \<open>comm_open\<close> without a module name is the locally
  registered callback called.
\<close>

theorem module_name_bypasses_local_registry:
  "loadObject False ''tgt'' (Some ''m'') (Some [(''tgt'', local_target)])
     = Rejected (Error ''requirejs not found'')
   \<and> comm_calls (trace (fst (receive sample_env
        (comm_msg_for ''o'' ''comm_open'' ''tgt'' (Some ''m'')) (registering_kernel, sample_world)))) = []
   \<and> map o_result (opens (fst (receive sample_env
        (comm_msg_for ''o'' ''comm_open'' ''tgt'' (Some ''m'')) (registering_kernel, sample_world))))
       = [Rejected (Error ''requirejs not found'')]
   \<and> loadObject True ''tgt'' (Some ''m'') (Some [(''tgt'', local_target)]) = Pending
   \<and> comm_calls (trace (fst (module_arrives env_with_requirejs 0 (Inr [(''tgt'', module_target)])
        (receive env_with_requirejs
           (comm_msg_for ''o'' ''comm_open'' ''tgt'' (Some ''m'')) (registering_kernel, sample_world)))))
       = [TargetCalled ''from_module'' 0 (comm_msg_for ''o'' ''comm_open'' ''tgt'' (Some ''m''))]
   \<and> comm_calls (trace (fst (receive sample_env
        (comm_msg_for ''o'' ''comm_open'' ''tgt'' None) (registering_kernel, sample_world))))
       = [TargetCalled ''local'' 0 (comm_msg_for ''o'' ''comm_open'' ''tgt'' None)]"
  by (simp add: receive_def onKernelMessage_def lookup_future_def iopub_switch_def lift_def
        handleCommOpen_def loadObject_def truthy_def module_arrives_def module_loaded_def
        drain_def run_round_def run_OpenJob_def settle_def emit_def nth_opt_def Let_def
        comm_calls_def
        env_with_requirejs_def sample_env_def registering_kernel_def sample_kernel_def
        comm_msg_for_def sample_msg_def empty_content_def local_target_def module_target_def)

section \<open>Answers to a session DELETE\<close>

lemma kills_only_refl [simp]: "kills_only st st"
  by (simp add: kills_only_def)

lemma kills_only_trans:
  assumes "kills_only a b" and "kills_only b c"
  shows "kills_only a c"
proof -
  from assms(1) obtain e1 where e1: "session_log b = session_log a @ e1"
    "\<forall>e \<in> set e1. (\<exists>r. e = Terminated r) \<or> e = KernelDisposed"
    by (auto simp: kills_only_def)
  from assms(2) obtain e2 where e2: "session_log c = session_log b @ e2"
    "\<forall>e \<in> set e2. (\<exists>r. e = Terminated r) \<or> e = KernelDisposed"
    by (auto simp: kills_only_def)
  have "session_log c = session_log a @ (e1 @ e2)" using e1 e2 by simp
  moreover have "\<forall>e \<in> set (e1 @ e2). (\<exists>r. e = Terminated r) \<or> e = KernelDisposed"
    using e1 e2 by auto
  ultimately have "\<exists>evs. session_log c = session_log a @ evs
      \<and> (\<forall>e \<in> set evs. (\<exists>r. e = Terminated r) \<or> e = KernelDisposed)"
    by blast
  then show ?thesis using assms by (simp add: kills_only_def)
qed

lemma DefaultSession_dispose_kills_only: "kills_only st (DefaultSession_dispose r st)"
proof (cases "nth_opt (session_objs st) r")
  case None
  then show ?thesis by (simp add: DefaultSession_dispose_def)
next
  case (Some s)
  then have r: "r < length (session_objs st)" "session_objs st ! r = s"
    by (auto dest: nth_opt_Some_less)
  show ?thesis
  proof (cases "ds_options s")
    case False
    then show ?thesis using Some by (simp add: DefaultSession_dispose_def)
  next
    case True
    have "\<exists>evs. session_log (DefaultSession_dispose r st) = session_log st @ evs
            \<and> (\<forall>e \<in> set evs. (\<exists>r. e = Terminated r) \<or> e = KernelDisposed)"
      using Some True
      by (cases "ds_kernel s") (simp_all add: DefaultSession_dispose_def Let_def slog_def)
    moreover have "length (session_objs (DefaultSession_dispose r st)) = length (session_objs st)"
      using Some True by (simp add: DefaultSession_dispose_def Let_def slog_def)
    moreover have "ds_id (session_objs (DefaultSession_dispose r st) ! q) = ds_id (session_objs st ! q)
        \<and> (\<not> ds_options (session_objs st ! q) \<longrightarrow> \<not> ds_options (session_objs (DefaultSession_dispose r st) ! q))"
      if "q < length (session_objs st)" for q
      using Some True r that
      by (cases "q = r") (simp_all add: DefaultSession_dispose_def Let_def slog_def)
    ultimately show ?thesis by (simp add: kills_only_def)
  qed
qed

lemma slog_Terminated_kills_only: "kills_only st (slog (Terminated r) st)"
  by (simp add: kills_only_def slog_def)

lemma kill_one_kills_only: "kills_only st (kill_one i r st)"
  by (auto simp: kill_one_def split: option.splits
           intro: kills_only_trans [OF slog_Terminated_kills_only DefaultSession_dispose_kills_only])

lemma fold_kill_one_kills_only: "kills_only st (fold (kill_one i) rs st)"
proof (induction rs arbitrary: st)
  case Nil
  then show ?case by simp
next
  case (Cons r rs)
  show ?case
    using kills_only_trans [OF kill_one_kills_only Cons.IH] by simp
qed

lemma kill_one_kills:
  assumes "nth_opt (session_objs st) r = Some s" and "ds_id s = i"
  shows "Terminated r \<in> set (session_log (kill_one i r st))
       \<and> \<not> ds_options (session_objs (kill_one i r st) ! r)"
proof -
  let ?st1 = "slog (Terminated r) st"
  have r: "r < length (session_objs st)" "session_objs st ! r = s"
    using assms(1) by (auto dest: nth_opt_Some_less)
  have k: "kill_one i r st = DefaultSession_dispose r ?st1"
    using assms by (simp add: kill_one_def)
  have n: "nth_opt (session_objs ?st1) r = Some s" using assms(1) by (simp add: slog_def)
  have "kills_only ?st1 (DefaultSession_dispose r ?st1)" by (rule DefaultSession_dispose_kills_only)
  then obtain evs where "session_log (DefaultSession_dispose r ?st1) = session_log ?st1 @ evs"
    by (auto simp: kills_only_def)
  then have t: "Terminated r \<in> set (session_log (kill_one i r st))"
    using k by (simp add: slog_def)
  have "\<not> ds_options (session_objs (DefaultSession_dispose r ?st1) ! r)"
    using n r by (cases "ds_options s") (simp_all add: DefaultSession_dispose_def Let_def slog_def)
  then show ?thesis using t k by simp
qed

lemma fold_kill_one_kills:
  assumes "r \<in> set rs" and "nth_opt (session_objs st) r = Some s" and "ds_id s = i"
  shows "Terminated r \<in> set (session_log (fold (kill_one i) rs st))
       \<and> \<not> ds_options (session_objs (fold (kill_one i) rs st) ! r)"
  using assms
proof (induction rs arbitrary: st s)
  case Nil
  then show ?case by simp
next
  case (Cons q rs)
  let ?st1 = "kill_one i q st"
  have ko: "kills_only st ?st1" by (rule kill_one_kills_only)
  have r: "r < length (session_objs st)" "session_objs st ! r = s"
    using Cons.prems(2) by (auto dest: nth_opt_Some_less)
  have rest: "kills_only ?st1 (fold (kill_one i) rs ?st1)" by (rule fold_kill_one_kills_only)
  show ?case
  proof (cases "r = q")
    case True
    have k: "Terminated r \<in> set (session_log ?st1) \<and> \<not> ds_options (session_objs ?st1 ! r)"
      using kill_one_kills [OF Cons.prems(2,3)] True by simp
    have len: "r < length (session_objs ?st1)" using ko r by (simp add: kills_only_def)
    from rest obtain evs where "session_log (fold (kill_one i) rs ?st1) = session_log ?st1 @ evs"
      by (auto simp: kills_only_def)
    then have "Terminated r \<in> set (session_log (fold (kill_one i) rs ?st1))" using k by simp
    moreover have "\<not> ds_options (session_objs (fold (kill_one i) rs ?st1) ! r)"
      using rest k len by (simp add: kills_only_def)
    ultimately show ?thesis by simp
  next
    case False
    then have m: "r \<in> set rs" using Cons.prems(1) by simp
    have len: "r < length (session_objs ?st1)" using ko r by (simp add: kills_only_def)
    have id1: "ds_id (session_objs ?st1 ! r) = i"
      using ko r Cons.prems(3) by (simp add: kills_only_def)
    have n1: "nth_opt (session_objs ?st1) r = Some (session_objs ?st1 ! r)"
      using len by (simp add: nth_opt_def)
    show ?thesis using Cons.IH [OF m n1 id1] by simp
  qed
qed

text \<open>
  C9, where the claim fails.  \<open>Session.shutdown\<close> of the older class rejects on a 404
  like on any other error.  \<open>shutdownSession\<close> rejects on a 404 whose body is not JSON
  text, and on a 404 whose body is the JSON text \<open>null\<close>.  When a \<open>DefaultSession\<close>
  shuts itself down and the server answers 404 with a JSON object as body, the promise
  resolves and the warning is logged, but that session, whose id was nulled before the
  request, is neither terminated nor disposed.
\<close>

theorem delete_404_not_always_success:
  "fst (Session_shutdown (sample_failure 404 ''Not Found'' sample_body) sample_old_session)
     = RejectedWith (JsError (Error ''Not Found''))
   \<and> fst (shutdownSession sample_parse (Some ''s1'') (sample_failure 404 ''Not Found'' []) sample_sessions)
     = RejectedWith (JsError (HostError ''SyntaxError''))
   \<and> shutdownSession sample_parse (Some ''s1'') (sample_failure 404 ''Not Found'' ''null'') sample_sessions
     = (RejectedWith (JsError (TypeError ''response is null'')), sample_sessions)
   \<and> DefaultSession_shutdown sample_parse 0 (sample_failure 404 ''Not Found'' sample_body) sample_sessions
     = (Resolved,
        sample_sessions\<lparr>session_objs := [\<lparr>ds_id = None, ds_options = True, ds_kernel = True\<rparr>,
                                         \<lparr>ds_id = Some ''s2'', ds_options = True, ds_kernel = True\<rparr>],
                        session_log := [ConsoleWarn (Some ''Session not found'')]\<rparr>)"
  by (simp add: Session_shutdown_def Session_onSessionError_def truthy_def
        shutdownSession_def DefaultSession_shutdown_def killSessions_def kill_one_def
        slog_def nth_opt_def sample_failure_def sample_parse_def sample_body_def
        sample_sessions_def sample_old_session_def)

text \<open>
  C9 as amended.  \<open>shutdownSession\<close> on a 404: when \<open>JSON.parse\<close> returns a value other
  than \<open>null\<close> for the body, the promise resolves, the \<open>message\<close> of that value is
  logged as a warning and no error is logged, and every running session whose id is the
  deleted id emits \<open>terminated\<close> and is disposed; when \<open>JSON.parse\<close> throws, or returns
  \<open>null\<close>, the promise rejects with the exception and no session is touched.  On a 410
  the promise rejects with the error object, on which \<open>throwError\<close> is the text
  \<open>The kernel was deleted but the session was not\<close>, and that text is logged.
  \<open>Session.shutdown\<close> of the older class: on a 410 a live session rejects with an
  \<open>Error\<close> of that text, and no error answer resolves the promise.
\<close>

theorem session_delete_answers:
  "(xhr_status (xhr err) = 404 \<and> parse (responseText (xhr err)) = Inr (JsonValue msg) \<longrightarrow>
      fst (shutdownSession parse i (Failure err) st) = Resolved
    \<and> ConsoleWarn msg \<in> set (session_log (snd (shutdownSession parse i (Failure err) st)))
    \<and> (\<forall>t. ConsoleErrorText t \<in> set (session_log (snd (shutdownSession parse i (Failure err) st)))
           \<longrightarrow> ConsoleErrorText t \<in> set (session_log st))
    \<and> (\<forall>r \<in> set (runningSessions st). \<forall>s. nth_opt (session_objs st) r = Some s \<and> ds_id s = i \<longrightarrow>
           Terminated r \<in> set (session_log (snd (shutdownSession parse i (Failure err) st)))
         \<and> \<not> ds_options (session_objs (snd (shutdownSession parse i (Failure err) st)) ! r)))
   \<and> (xhr_status (xhr err) = 404 \<and> parse (responseText (xhr err)) = Inl e \<longrightarrow>
        shutdownSession parse i (Failure err) st = (RejectedWith (JsError e), st))
   \<and> (xhr_status (xhr err) = 404 \<and> parse (responseText (xhr err)) = Inr JsonNull \<longrightarrow>
        shutdownSession parse i (Failure err) st
          = (RejectedWith (JsError (TypeError ''response is null'')), st))
   \<and> (xhr_status (xhr err) = 410 \<longrightarrow>
        shutdownSession parse i (Failure err) st
          = (RejectedWith (AjaxError (err\<lparr>throwError := Some ''The kernel was deleted but the session was not''\<rparr>)),
             slog (ConsoleErrorText ''API request failed: The kernel was deleted but the session was not'') st))
   \<and> (s_options os \<and> xhr_status (xhr err) = 410 \<longrightarrow>
        Session_shutdown (Failure err) os
          = (RejectedWith (JsError (Error ''The kernel was deleted but the session was not'')), os))
   \<and> fst (Session_shutdown (Failure err) os) \<noteq> Resolved"
proof -
  have A: "fst (shutdownSession parse i (Failure err) st) = Resolved
    \<and> ConsoleWarn msg \<in> set (session_log (snd (shutdownSession parse i (Failure err) st)))
    \<and> (\<forall>t. ConsoleErrorText t \<in> set (session_log (snd (shutdownSession parse i (Failure err) st)))
           \<longrightarrow> ConsoleErrorText t \<in> set (session_log st))
    \<and> (\<forall>r \<in> set (runningSessions st). \<forall>s. nth_opt (session_objs st) r = Some s \<and> ds_id s = i \<longrightarrow>
           Terminated r \<in> set (session_log (snd (shutdownSession parse i (Failure err) st)))
         \<and> \<not> ds_options (session_objs (snd (shutdownSession parse i (Failure err) st)) ! r))"
    if h: "xhr_status (xhr err) = 404" "parse (responseText (xhr err)) = Inr (JsonValue msg)"
  proof -
    let ?st1 = "slog (ConsoleWarn msg) st"
    let ?st2 = "fold (kill_one i) (runningSessions st) ?st1"
    have sh: "shutdownSession parse i (Failure err) st = (Resolved, ?st2)"
      using h by (simp add: shutdownSession_def killSessions_def slog_def)
    have "kills_only ?st1 ?st2" by (rule fold_kill_one_kills_only)
    then obtain evs where evs: "session_log ?st2 = session_log st @ [ConsoleWarn msg] @ evs"
      "\<forall>e \<in> set evs. (\<exists>r. e = Terminated r) \<or> e = KernelDisposed"
      by (auto simp: kills_only_def slog_def)
    have w: "ConsoleWarn msg \<in> set (session_log ?st2)" using evs(1) by simp
    have e: "\<forall>t. ConsoleErrorText t \<in> set (session_log ?st2) \<longrightarrow> ConsoleErrorText t \<in> set (session_log st)"
      using evs by auto
    have k: "Terminated r \<in> set (session_log ?st2) \<and> \<not> ds_options (session_objs ?st2 ! r)"
      if "r \<in> set (runningSessions st)" "nth_opt (session_objs st) r = Some s" "ds_id s = i" for r s
    proof -
      have "nth_opt (session_objs ?st1) r = Some s" using that(2) by (simp add: slog_def)
      from fold_kill_one_kills [OF that(1) this that(3)] show ?thesis .
    qed
    show ?thesis unfolding sh using w e k by auto
  qed
  have N1: "shutdownSession parse i (Failure err) st = (RejectedWith (JsError e), st)"
    if "xhr_status (xhr err) = 404" "parse (responseText (xhr err)) = Inl e"
    using that by (simp add: shutdownSession_def)
  have N2: "shutdownSession parse i (Failure err) st
          = (RejectedWith (JsError (TypeError ''response is null'')), st)"
    if "xhr_status (xhr err) = 404" "parse (responseText (xhr err)) = Inr JsonNull"
    using that by (simp add: shutdownSession_def)
  have B: "shutdownSession parse i (Failure err) st
          = (RejectedWith (AjaxError (err\<lparr>throwError := Some ''The kernel was deleted but the session was not''\<rparr>)),
             slog (ConsoleErrorText ''API request failed: The kernel was deleted but the session was not'') st)"
    if "xhr_status (xhr err) = 410"
    using that by (simp add: shutdownSession_def onSessionError_def truthy_def)
  have C: "Session_shutdown (Failure err) os
          = (RejectedWith (JsError (Error ''The kernel was deleted but the session was not'')), os)"
    if "s_options os" "xhr_status (xhr err) = 410"
    using that by (simp add: Session_shutdown_def)
  have D: "fst (Session_shutdown (Failure err) os) \<noteq> Resolved"
    by (simp add: Session_shutdown_def split: prod.splits)
  show ?thesis using A N1 N2 B C D by blast
qed

text \<open>
  The answers 404 with a JSON object, 404 with the body \<open>null\<close>, 404 with an empty body
  and 410, on two running sessions and on a session of the older class.
\<close>

theorem session_delete_answers_witness:
  "xhr_status (xhr \<lparr>xhr = \<lparr>xhr_status = 404, xhr_statusText = ''Not Found'', responseText = sample_body\<rparr>,
                    throwError = None, statusText = Some ''Not Found'', error_message = None\<rparr>) = 404
   \<and> sample_parse sample_body = Inr (JsonValue (Some ''Session not found''))
   \<and> sample_parse ''null'' = Inr JsonNull
   \<and> sample_parse [] = Inl (HostError ''SyntaxError'')
   \<and> 0 \<in> set (runningSessions sample_sessions)
   \<and> nth_opt (session_objs sample_sessions) 0 = Some \<lparr>ds_id = Some ''s1'', ds_options = True, ds_kernel = True\<rparr>
   \<and> fst (shutdownSession sample_parse (Some ''s1'') (sample_failure 404 ''Not Found'' sample_body)
            sample_sessions) = Resolved
   \<and> Terminated 0 \<in> set (session_log (snd (shutdownSession sample_parse (Some ''s1'')
            (sample_failure 404 ''Not Found'' sample_body) sample_sessions)))
   \<and> \<not> ds_options (session_objs (snd (shutdownSession sample_parse (Some ''s1'')
            (sample_failure 404 ''Not Found'' sample_body) sample_sessions)) ! 0)
   \<and> shutdownSession sample_parse (Some ''s1'') (sample_failure 404 ''Not Found'' ''null'') sample_sessions
       = (RejectedWith (JsError (TypeError ''response is null'')), sample_sessions)
   \<and> shutdownSession sample_parse (Some ''s1'') (sample_failure 404 ''Not Found'' []) sample_sessions
       = (RejectedWith (JsError (HostError ''SyntaxError'')), sample_sessions)
   \<and> s_options sample_old_session
   \<and> fst (Session_shutdown (sample_failure 410 ''Gone'' []) sample_old_session)
       = RejectedWith (JsError (Error ''The kernel was deleted but the session was not''))
   \<and> fst (shutdownSession sample_parse (Some ''s1'') (sample_failure 410 ''Gone'' []) sample_sessions)
       = RejectedWith (AjaxError
           \<lparr>xhr = \<lparr>xhr_status = 410, xhr_statusText = ''Gone'', responseText = []\<rparr>,
            throwError = Some ''The kernel was deleted but the session was not'',
            statusText = Some ''Gone'', error_message = None\<rparr>)"
proof -
  let ?e404 = "\<lparr>xhr = \<lparr>xhr_status = 404, xhr_statusText = ''Not Found'', responseText = sample_body\<rparr>,
                throwError = None, statusText = Some ''Not Found'', error_message = None\<rparr>"
  let ?n404 = "\<lparr>xhr = \<lparr>xhr_status = 404, xhr_statusText = ''Not Found'', responseText = ''null''\<rparr>,
                throwError = None, statusText = Some ''Not Found'', error_message = None\<rparr>"
  let ?x404 = "\<lparr>xhr = \<lparr>xhr_status = 404, xhr_statusText = ''Not Found'', responseText = []\<rparr>,
                throwError = None, statusText = Some ''Not Found'', error_message = None\<rparr>"
  let ?e410 = "\<lparr>xhr = \<lparr>xhr_status = 410, xhr_statusText = ''Gone'', responseText = []\<rparr>,
                throwError = None, statusText = Some ''Gone'', error_message = None\<rparr>"
  let ?s0 = "\<lparr>ds_id = Some ''s1'', ds_options = True, ds_kernel = True\<rparr>"
  have f: "sample_failure 404 ''Not Found'' sample_body = Failure ?e404"
    "sample_failure 404 ''Not Found'' ''null'' = Failure ?n404"
    "sample_failure 404 ''Not Found'' [] = Failure ?x404"
    "sample_failure 410 ''Gone'' [] = Failure ?e410"
    by (simp_all add: sample_failure_def)
  have h: "xhr_status (xhr ?e404) = 404"
    "sample_parse (responseText (xhr ?e404)) = Inr (JsonValue (Some ''Session not found''))"
    "0 \<in> set (runningSessions sample_sessions)"
    "nth_opt (session_objs sample_sessions) 0 = Some ?s0" "ds_id ?s0 = Some ''s1''"
    "s_options sample_old_session" "xhr_status (xhr ?e410) = 410"
    by (simp_all add: sample_parse_def sample_sessions_def nth_opt_def sample_old_session_def)
  have n: "xhr_status (xhr ?n404) = 404" "sample_parse (responseText (xhr ?n404)) = Inr JsonNull"
    "xhr_status (xhr ?x404) = 404" "sample_parse (responseText (xhr ?x404)) = Inl (HostError ''SyntaxError'')"
    by (simp_all add: sample_parse_def sample_body_def)
  have p: "sample_parse sample_body = Inr (JsonValue (Some ''Session not found''))"
    "sample_parse ''null'' = Inr JsonNull" "sample_parse [] = Inl (HostError ''SyntaxError'')"
    by (simp_all add: sample_parse_def sample_body_def)
  note t404 = session_delete_answers
                [of ?e404 sample_parse "Some ''Session not found''" "Some ''s1''" sample_sessions
                    "HostError ''SyntaxError''" sample_old_session]
  note tn = session_delete_answers
                [of ?n404 sample_parse "Some ''Session not found''" "Some ''s1''" sample_sessions
                    "HostError ''SyntaxError''" sample_old_session]
  note tx = session_delete_answers
                [of ?x404 sample_parse "Some ''Session not found''" "Some ''s1''" sample_sessions
                    "HostError ''SyntaxError''" sample_old_session]
  note t410 = session_delete_answers
                [of ?e410 sample_parse "Some ''Session not found''" "Some ''s1''" sample_sessions
                    "HostError ''SyntaxError''" sample_old_session]
  have r1: "fst (shutdownSession sample_parse (Some ''s1'') (Failure ?e404) sample_sessions) = Resolved"
    using t404 h(1,2) by blast
  have r2: "Terminated 0 \<in> set (session_log (snd (shutdownSession sample_parse (Some ''s1'')
               (Failure ?e404) sample_sessions)))
          \<and> \<not> ds_options (session_objs (snd (shutdownSession sample_parse (Some ''s1'')
               (Failure ?e404) sample_sessions)) ! 0)"
    using t404 h(1,2,3,4,5) by blast
  have r3: "Session_shutdown (Failure ?e410) sample_old_session
              = (RejectedWith (JsError (Error ''The kernel was deleted but the session was not'')),
                 sample_old_session)"
    using t410 h(6,7) by blast
  have r4: "shutdownSession sample_parse (Some ''s1'') (Failure ?e410) sample_sessions
          = (RejectedWith (AjaxError (?e410\<lparr>throwError := Some ''The kernel was deleted but the session was not''\<rparr>)),
             slog (ConsoleErrorText ''API request failed: The kernel was deleted but the session was not'')
               sample_sessions)"
    using t410 h(7) by blast
  have r5: "shutdownSession sample_parse (Some ''s1'') (Failure ?n404) sample_sessions
          = (RejectedWith (JsError (TypeError ''response is null'')), sample_sessions)"
    using tn n(1,2) by blast
  have r6: "shutdownSession sample_parse (Some ''s1'') (Failure ?x404) sample_sessions
          = (RejectedWith (JsError (HostError ''SyntaxError'')), sample_sessions)"
    using tx n(3,4) by blast
  show ?thesis using h p r1 r2 r3 r4 r5 r6 by (simp add: f)
qed

end
